theory Spec2Isabelle
  imports Complex_Main
begin

section \<open>Focal-plane modelling notebook: data model\<close>

text \<open>
  The notebook \<^verbatim>\<open>notebooks/ztf/Focal_plane_modeling.ipynb\<close> is a linear sequence of
  cells.  Its numbers are IEEE doubles; this development reads every float as a
  \<^typ>\<open>real\<close>, so the statements below are statements of exact arithmetic.  The one
  place where rounding is modelled is the test by which the inversion of cell 41 decides
  that a matrix is singular (section on the inversion of cell 41 on doubles).

  Exceptions of the Python code are values of \<open>error\<close>: a result is \<open>Inl e\<close> when the
  cell raises \<open>e\<close> and \<open>Inr v\<close> when it finishes with \<open>v\<close>.
\<close>

datatype error = TypeError | LinAlgError | KeyError

definition bind_err :: "error + 'a \<Rightarrow> ('a \<Rightarrow> error + 'b) \<Rightarrow> error + 'b" where
  "bind_err m f = (case m of Inl e \<Rightarrow> Inl e | Inr v \<Rightarrow> f v)"

text \<open>
  One row of the data frame \<open>df\<close> of cell 21.  The columns \<open>ra\<close> and \<open>dec\<close> of the
  frame are never read again after the projection and are left out.
\<close>

record obs =
  rcid :: int
  x_image :: real
  y_image :: real
  eta :: real
  nu :: real

text \<open>Cell 49 adds four columns to the frame.\<close>

record grow = obs +
  x_global :: real
  y_global :: real
  etalin :: real
  nulin :: real

text \<open>
  One value of the dictionary \<open>rcmeta\<close>:
  \<^verbatim>\<open>dict(cd11=..., cd12=..., cd21=..., cd22=..., crpix1=..., crpix2=...)\<close>.
\<close>

record affine =
  cd11 :: real
  cd12 :: real
  cd21 :: real
  cd22 :: real
  crpix1 :: real
  crpix2 :: real

section \<open>The regressions\<close>

text \<open>
  \<^verbatim>\<open>smf.ols(formula=..., data=df).fit().params\<close> is a series of coefficients indexed by the
  names of the design-matrix columns; \<^verbatim>\<open>params.get(name)\<close> is \<open>None\<close> for a name that
  is not a column.  The series is a map from column names to reals.  Column names are
  terms rather than strings:

  \<^item> \<open>X_image\<close> is \<^verbatim>\<open>'x_image'\<close>, \<open>Y_image\<close> is \<^verbatim>\<open>'y_image'\<close>,
  \<^item> \<open>C_rcid i\<close> is \<^verbatim>\<open>'C(rcid)[{}]'.format(i)\<close>,
  \<^item> \<open>C_rcid_T_x_image i\<close> is \<^verbatim>\<open>'C(rcid)[T.{}]:x_image'.format(i)\<close>,
  \<^item> \<open>C_rcid_T_y_image i\<close> is \<^verbatim>\<open>'C(rcid)[T.{}]:y_image'.format(i)\<close>.
\<close>

datatype lname =
    X_image
  | Y_image
  | C_rcid int
  | C_rcid_T_x_image int
  | C_rcid_T_y_image int

text \<open>
  The columns of the second regression (cells 53 and 56):
  \<^verbatim>\<open>'Intercept'\<close>, \<^verbatim>\<open>'etalin'\<close>, \<^verbatim>\<open>'nulin'\<close>, \<^verbatim>\<open>'etalin:nulin'\<close>,
  \<^verbatim>\<open>'np.power(etalin, 2)'\<close> and \<^verbatim>\<open>'np.power(nulin, 2)'\<close>.
\<close>

datatype qname =
    Intercept
  | Etalin
  | Nulin
  | Etalin_nulin
  | Power_etalin_2
  | Power_nulin_2

type_synonym 'n params = "'n \<rightharpoonup> real"

text \<open>
  The levels of the categorical factor \<^verbatim>\<open>C(rcid)\<close> are the distinct values of the
  column, sorted.
\<close>

definition levels :: "'a obs_scheme list \<Rightarrow> int list" where
  "levels df = sort (remdups (map rcid df))"

text \<open>
  The formula of cells 30 and 35,
  \<^verbatim>\<open>'eta ~ x_image + y_image + C(rcid) -1 + C(rcid)*x_image + C(rcid)*y_image'\<close>,
  has no intercept, so \<^verbatim>\<open>C(rcid)\<close> gets one indicator column per level, and each
  interaction with a pixel coordinate gets a column for every level but the first (the
  reference level), next to the column of the coordinate itself.
\<close>

definition linear_columns :: "int list \<Rightarrow> lname list" where
  "linear_columns lv =
     map C_rcid lv @ [X_image] @ map C_rcid_T_x_image (tl lv)
       @ [Y_image] @ map C_rcid_T_y_image (tl lv)"

fun linear_basis :: "lname \<Rightarrow> 'a obs_scheme \<Rightarrow> real" where
  "linear_basis X_image r = x_image r"
| "linear_basis Y_image r = y_image r"
| "linear_basis (C_rcid l) r = (if rcid r = l then 1 else 0)"
| "linear_basis (C_rcid_T_x_image l) r = (if rcid r = l then x_image r else 0)"
| "linear_basis (C_rcid_T_y_image l) r = (if rcid r = l then y_image r else 0)"

text \<open>
  The formula of cells 53 and 56,
  \<^verbatim>\<open>'eta ~ np.power(etalin,2) + np.power(nulin,2) + etalin*nulin + etalin + nulin'\<close>,
  does not remove the intercept, so the design matrix has a constant column.
\<close>

definition quadratic_columns :: "qname list" where
  "quadratic_columns =
     [Intercept, Power_etalin_2, Power_nulin_2, Etalin, Nulin, Etalin_nulin]"

fun quadratic_basis :: "qname \<Rightarrow> 'a grow_scheme \<Rightarrow> real" where
  "quadratic_basis Intercept r = 1"
| "quadratic_basis Etalin r = etalin r"
| "quadratic_basis Nulin r = nulin r"
| "quadratic_basis Etalin_nulin r = etalin r * nulin r"
| "quadratic_basis Power_etalin_2 r = (etalin r)\<^sup>2"
| "quadratic_basis Power_nulin_2 r = (nulin r)\<^sup>2"

text \<open>
  Ordinary least squares is library code (statsmodels).  It is modelled by what it
  computes: a coefficient vector that minimises the sum of squared residuals.  The
  value the fitted model predicts for a row is the sum over the columns of coefficient
  times basis value.
\<close>

definition fittedvalue ::
  "'n list \<Rightarrow> ('n \<Rightarrow> 'r \<Rightarrow> real) \<Rightarrow> ('n \<Rightarrow> real) \<Rightarrow> 'r \<Rightarrow> real" where
  "fittedvalue names basis \<beta> r = (\<Sum>n\<leftarrow>names. \<beta> n * basis n r)"

definition ssr ::
  "'n list \<Rightarrow> ('n \<Rightarrow> 'r \<Rightarrow> real) \<Rightarrow> ('r \<Rightarrow> real) \<Rightarrow> 'r list \<Rightarrow> ('n \<Rightarrow> real) \<Rightarrow> real" where
  "ssr names basis resp df \<beta> = (\<Sum>r\<leftarrow>df. (resp r - fittedvalue names basis \<beta> r)\<^sup>2)"

definition params_of :: "'n list \<Rightarrow> ('n \<Rightarrow> real) \<Rightarrow> 'n params" where
  "params_of names \<beta> = (\<lambda>n. if n \<in> set names then Some (\<beta> n) else None)"

definition ols_fit ::
  "'n list \<Rightarrow> ('n \<Rightarrow> 'r \<Rightarrow> real) \<Rightarrow> ('r \<Rightarrow> real) \<Rightarrow> 'r list \<Rightarrow> 'n params \<Rightarrow> bool" where
  "ols_fit names basis resp df p \<longleftrightarrow>
     (\<exists>\<beta>. p = params_of names \<beta> \<and>
          (\<forall>\<beta>'. ssr names basis resp df \<beta> \<le> ssr names basis resp df \<beta>'))"

text \<open>Cells 30 to 36: the two fits of the linear model, \<open>xres\<close> and \<open>yres\<close>.\<close>

definition xres_linear :: "obs list \<Rightarrow> lname params \<Rightarrow> bool" where
  "xres_linear df p \<longleftrightarrow> ols_fit (linear_columns (levels df)) linear_basis eta df p"

definition yres_linear :: "obs list \<Rightarrow> lname params \<Rightarrow> bool" where
  "yres_linear df p \<longleftrightarrow> ols_fit (linear_columns (levels df)) linear_basis nu df p"

text \<open>Cells 53 to 57: the two fits of the quadratic model.\<close>

definition xres_quadratic :: "grow list \<Rightarrow> qname params \<Rightarrow> bool" where
  "xres_quadratic df p \<longleftrightarrow> ols_fit quadratic_columns quadratic_basis eta df p"

definition yres_quadratic :: "grow list \<Rightarrow> qname params \<Rightarrow> bool" where
  "yres_quadratic df p \<longleftrightarrow> ols_fit quadratic_columns quadratic_basis nu df p"

section \<open>Cell 41: the dictionary of the linear fit\<close>

text \<open>
  Python arithmetic on a value that may be \<open>None\<close>: \<^verbatim>\<open>a += b\<close>, \<^verbatim>\<open>-a\<close> and
  \<^verbatim>\<open>float(a)\<close> raise \<open>TypeError\<close> on \<open>None\<close>.
\<close>

definition py_add :: "real option \<Rightarrow> real option \<Rightarrow> error + real" where
  "py_add a b =
     (case a of None \<Rightarrow> Inl TypeError
      | Some u \<Rightarrow> (case b of None \<Rightarrow> Inl TypeError | Some v \<Rightarrow> Inr (u + v)))"

definition py_neg :: "real option \<Rightarrow> error + real" where
  "py_neg a = (case a of None \<Rightarrow> Inl TypeError | Some u \<Rightarrow> Inr (- u))"

definition py_float :: "real option \<Rightarrow> error + real" where
  "py_float a = (case a of None \<Rightarrow> Inl TypeError | Some u \<Rightarrow> Inr u)"

text \<open>
  One entry of the matrix \<open>cd\<close>:
  \<^verbatim>\<open>cd11 = xres.params.get('x_image')\<close>, and for \<open>i > 0\<close>
  \<^verbatim>\<open>cd11 += xres.params.get('C(rcid)[T.{}]:x_image'.format(i))\<close>.
  For \<open>i = 0\<close> nothing is added, so a missing coefficient stays \<open>None\<close> here.
\<close>

definition cd_term :: "lname params \<Rightarrow> lname \<Rightarrow> (int \<Rightarrow> lname) \<Rightarrow> int \<Rightarrow> error + real option" where
  "cd_term p base tname i =
     (if i > 0 then bind_err (py_add (p base) (p (tname i))) (\<lambda>v. Inr (Some v))
      else Inr (p base))"

type_synonym mat2 = "real \<times> real \<times> real \<times> real"

text \<open>
  \<^verbatim>\<open>cd = np.matrix([[cd11, cd12], [cd21, cd22]])\<close>: an entry \<open>None\<close> makes a matrix of
  objects, which the inversion of the next line refuses with a \<open>TypeError\<close>.
\<close>

definition np_matrix ::
  "real option \<Rightarrow> real option \<Rightarrow> real option \<Rightarrow> real option \<Rightarrow> error + mat2" where
  "np_matrix a b c d =
     (case (a, b, c, d) of
        (Some a', Some b', Some c', Some d') \<Rightarrow> Inr (a', b', c', d')
      | _ \<Rightarrow> Inl TypeError)"

definition det2 :: "mat2 \<Rightarrow> real" where
  "det2 m = (case m of (a, b, c, d) \<Rightarrow> a * d - b * c)"

text \<open>\<^verbatim>\<open>invcd = cd**-1\<close>: the inverse, or \<open>LinAlgError\<close> for a singular matrix.\<close>

definition matrix_inv :: "mat2 \<Rightarrow> error + mat2" where
  "matrix_inv m =
     (case m of (a, b, c, d) \<Rightarrow>
        if det2 m = 0 then Inl LinAlgError
        else Inr (d / det2 m, - b / det2 m, - c / det2 m, a / det2 m))"

text \<open>\<^verbatim>\<open>offset_pix = invcd*offset_degrees\<close>: a matrix times a column vector.\<close>

definition matvec :: "mat2 \<Rightarrow> real \<times> real \<Rightarrow> real \<times> real" where
  "matvec m v = (case m of (a, b, c, d) \<Rightarrow> case v of (u, w) \<Rightarrow> (a * u + b * w, c * u + d * w))"

text \<open>The body of the loop of cell 41 for quadrant \<open>i\<close>, in the order of its statements.\<close>

definition rcmeta_entry :: "lname params \<Rightarrow> lname params \<Rightarrow> int \<Rightarrow> error + affine" where
  "rcmeta_entry xp yp i =
     bind_err (cd_term xp X_image C_rcid_T_x_image i) (\<lambda>c11.
     bind_err (cd_term xp Y_image C_rcid_T_y_image i) (\<lambda>c12.
     bind_err (cd_term yp X_image C_rcid_T_x_image i) (\<lambda>c21.
     bind_err (cd_term yp Y_image C_rcid_T_y_image i) (\<lambda>c22.
     bind_err (np_matrix c11 c12 c21 c22) (\<lambda>cd.
     bind_err (matrix_inv cd) (\<lambda>invcd.
     bind_err (py_neg (xp (C_rcid i))) (\<lambda>o1.
     bind_err (py_neg (yp (C_rcid i))) (\<lambda>o2.
       let offset_pix = matvec invcd (o1, o2) in
       case cd of (a, b, c, d) \<Rightarrow>
         Inr \<lparr>cd11 = a, cd12 = b, cd21 = c, cd22 = d,
              crpix1 = fst offset_pix, crpix2 = snd offset_pix\<rparr>))))))))"

text \<open>
  \<^verbatim>\<open>rcmeta = {}\<close> and \<^verbatim>\<open>for i in range(64): ... rcmeta[i] = dict(...)\<close>.  The first
  exception ends the cell.
\<close>

fun rcmeta_loop ::
  "lname params \<Rightarrow> lname params \<Rightarrow> int list \<Rightarrow> (int \<rightharpoonup> affine) \<Rightarrow> error + (int \<rightharpoonup> affine)" where
  "rcmeta_loop xp yp [] m = Inr m"
| "rcmeta_loop xp yp (i # ids) m =
     (case rcmeta_entry xp yp i of
        Inl e \<Rightarrow> Inl e
      | Inr a \<Rightarrow> rcmeta_loop xp yp ids (m(i \<mapsto> a)))"

definition rcmeta :: "lname params \<Rightarrow> lname params \<Rightarrow> error + (int \<rightharpoonup> affine)" where
  "rcmeta xp yp = rcmeta_loop xp yp [0..63] Map.empty"

section \<open>Cells 49 and 50: global pixel coordinates\<close>

text \<open>
  \<^verbatim>\<open>df['x_global'] = df['x_image']\<close>, \<^verbatim>\<open>df['y_global'] = df['y_image']\<close>,
  \<^verbatim>\<open>df['etalin'] = df['eta']\<close>, \<^verbatim>\<open>df['nulin'] = df['nu']\<close>.
\<close>

definition init_global :: "obs \<Rightarrow> grow" where
  "init_global r =
     \<lparr>rcid = rcid r, x_image = x_image r, y_image = y_image r, eta = eta r, nu = nu r,
      x_global = x_image r, y_global = y_image r, etalin = eta r, nulin = nu r\<rparr>"

text \<open>\<^verbatim>\<open>df.loc[mask, column] = value\<close>: the rows of the mask get the new value.\<close>

definition loc_set :: "(grow \<Rightarrow> bool) \<Rightarrow> (grow \<Rightarrow> grow) \<Rightarrow> grow list \<Rightarrow> grow list" where
  "loc_set sel f df = map (\<lambda>r. if sel r then f r else r) df"

text \<open>The four assignments of the loop body of cell 50, for the quadrant \<open>i\<close> with entry \<open>a\<close>.\<close>

definition assemble_step :: "int \<Rightarrow> affine \<Rightarrow> grow list \<Rightarrow> grow list" where
  "assemble_step i a df =
     (let df1 = loc_set (\<lambda>r. rcid r = i) (\<lambda>r. r\<lparr>x_global := x_image r - crpix1 a\<rparr>) df;
          df2 = loc_set (\<lambda>r. rcid r = i) (\<lambda>r. r\<lparr>y_global := y_image r - crpix2 a\<rparr>) df1;
          df3 = loc_set (\<lambda>r. rcid r = i)
                  (\<lambda>r. r\<lparr>etalin := x_global r * cd11 a + y_global r * cd12 a\<rparr>) df2;
          df4 = loc_set (\<lambda>r. rcid r = i)
                  (\<lambda>r. r\<lparr>nulin := x_global r * cd21 a + y_global r * cd22 a\<rparr>) df3
      in df4)"

text \<open>\<^verbatim>\<open>for i in range(64):\<close> with \<^verbatim>\<open>rcmeta[i]\<close> raising \<open>KeyError\<close> on a missing key.\<close>

fun assemble_loop :: "(int \<rightharpoonup> affine) \<Rightarrow> int list \<Rightarrow> grow list \<Rightarrow> error + grow list" where
  "assemble_loop t [] df = Inr df"
| "assemble_loop t (i # ids) df =
     (case t i of
        None \<Rightarrow> Inl KeyError
      | Some a \<Rightarrow> assemble_loop t ids (assemble_step i a df))"

definition assemble :: "(int \<rightharpoonup> affine) \<Rightarrow> obs list \<Rightarrow> error + grow list" where
  "assemble t df = assemble_loop t [0..63] (map init_global df)"

section \<open>Cell 64: the distortion coefficients\<close>

text \<open>
  \<^verbatim>\<open>dict(K1 = float(v1), K2 = float(v2), ...)\<close>: the values are converted in order, and
  the first \<open>None\<close> raises.
\<close>

fun float_items :: "(string \<times> real option) list \<Rightarrow> error + (string \<times> real) list" where
  "float_items [] = Inr []"
| "float_items ((k, v) # kvs) =
     bind_err (py_float v) (\<lambda>u. bind_err (float_items kvs) (\<lambda>rest. Inr ((k, u) # rest)))"

definition pv_start :: "qname params \<Rightarrow> qname params \<Rightarrow> error + (string \<times> real) list" where
  "pv_start xp yp =
     float_items
       [(''PV1_1'', xp Etalin),
        (''PV1_2'', xp Nulin),
        (''PV1_4'', xp Power_etalin_2),
        (''PV1_5'', xp Etalin_nulin),
        (''PV1_6'', xp Power_nulin_2),
        (''PV2_1'', yp Nulin),
        (''PV2_2'', yp Etalin),
        (''PV2_4'', yp Power_nulin_2),
        (''PV2_5'', yp Etalin_nulin),
        (''PV2_6'', yp Power_etalin_2)]"

section \<open>Cells 72 to 74: the header\<close>

datatype hval = HInt int | HStr string | HFloat real

type_synonym header = "(string \<times> hval) list"

text \<open>
  \<^verbatim>\<open>header[key] = value\<close> replaces the value of a card that is there and appends a
  new card otherwise.
\<close>

fun header_set :: "header \<Rightarrow> string \<Rightarrow> hval \<Rightarrow> header" where
  "header_set [] k v = [(k, v)]"
| "header_set ((k', v') # h) k v =
     (if k' = k then (k, v) # h else (k', v') # header_set h k v)"

text \<open>A sequence of assignments whose right-hand sides may raise.\<close>

fun set_all :: "header \<Rightarrow> (string \<times> (error + hval)) list \<Rightarrow> error + header" where
  "set_all h [] = Inr h"
| "set_all h ((k, v) # kvs) =
     (case v of Inl e \<Rightarrow> Inl e | Inr u \<Rightarrow> set_all (header_set h k u) kvs)"

definition my_rcid :: int where
  "my_rcid = 32"

text \<open>\<^verbatim>\<open>rcmeta[my_rcid]['crpix1']\<close> and \<^verbatim>\<open>pv_start['PV1_1']\<close>, as header values.\<close>

definition rcmeta_field :: "(int \<rightharpoonup> affine) \<Rightarrow> (affine \<Rightarrow> real) \<Rightarrow> error + hval" where
  "rcmeta_field t f = (case t my_rcid of None \<Rightarrow> Inl KeyError | Some a \<Rightarrow> Inr (HFloat (f a)))"

definition pv_field :: "(string \<times> real) list \<Rightarrow> string \<Rightarrow> error + hval" where
  "pv_field pv k = (case map_of pv k of None \<Rightarrow> Inl KeyError | Some v \<Rightarrow> Inr (HFloat v))"

text \<open>
  Cells 73 and 74.  \<open>telrad\<close> and \<open>teldecd\<close> are \<^verbatim>\<open>sci_header['TELRAD']\<close> and
  \<^verbatim>\<open>sci_header['TELDECD']\<close>, read from the downloaded image.
\<close>

definition output_header ::
  "real \<Rightarrow> real \<Rightarrow> (int \<rightharpoonup> affine) \<Rightarrow> (string \<times> real) list \<Rightarrow> error + header" where
  "output_header telrad teldecd t pv =
     set_all []
       [(''NAXIS'', Inr (HInt 2)),
        (''NAXIS1'', Inr (HInt 3072)),
        (''NAXIS2'', Inr (HInt 3080)),
        (''CTYPE1'', Inr (HStr ''RA---TPV'')),
        (''CTYPE2'', Inr (HStr ''DEC--TPV'')),
        (''CRVAL1'', Inr (HFloat telrad)),
        (''CRVAL2'', Inr (HFloat teldecd)),
        (''CRPIX1'', rcmeta_field t crpix1),
        (''CRPIX2'', rcmeta_field t crpix2),
        (''CD1_1'', rcmeta_field t cd11),
        (''CD1_2'', rcmeta_field t cd12),
        (''CD2_1'', rcmeta_field t cd21),
        (''CD2_2'', rcmeta_field t cd22),
        (''PV1_1'', pv_field pv ''PV1_1''),
        (''PV1_2'', pv_field pv ''PV1_2''),
        (''PV1_4'', pv_field pv ''PV1_4''),
        (''PV1_5'', pv_field pv ''PV1_5''),
        (''PV1_6'', pv_field pv ''PV1_6''),
        (''PV2_1'', pv_field pv ''PV2_1''),
        (''PV2_2'', pv_field pv ''PV2_2''),
        (''PV2_4'', pv_field pv ''PV2_4''),
        (''PV2_5'', pv_field pv ''PV2_5''),
        (''PV2_6'', pv_field pv ''PV2_6'')]"

section \<open>Auxiliary definitions and a synthetic data set\<close>

text \<open>
  A known per-quadrant transform for synthetic data: the 2x2 matrix and the offset pair
  that generate \<open>(eta, nu)\<close> from the local pixel coordinate.
\<close>

record known =
  k11 :: real
  k12 :: real
  k21 :: real
  k22 :: real
  koff1 :: real
  koff2 :: real

text \<open>Every observation is generated exactly by the known transform of its quadrant.\<close>

definition noiseless :: "(int \<Rightarrow> known) \<Rightarrow> obs list \<Rightarrow> bool" where
  "noiseless K df \<longleftrightarrow>
     (\<forall>r\<in>set df.
        eta r = koff1 (K (rcid r)) + k11 (K (rcid r)) * x_image r + k12 (K (rcid r)) * y_image r \<and>
        nu r = koff2 (K (rcid r)) + k21 (K (rcid r)) * x_image r + k22 (K (rcid r)) * y_image r)"

text \<open>Quadrant \<open>i\<close> has three stars whose pixel positions are not on one line.\<close>

definition three_noncollinear :: "obs list \<Rightarrow> int \<Rightarrow> bool" where
  "three_noncollinear df i \<longleftrightarrow>
     (\<exists>p\<in>set df. \<exists>q\<in>set df. \<exists>r\<in>set df.
        rcid p = i \<and> rcid q = i \<and> rcid r = i \<and>
        (x_image q - x_image p) * (y_image r - y_image p)
          - (x_image r - x_image p) * (y_image q - y_image p) \<noteq> 0)"

text \<open>
  The coefficient vector of the linear model that reproduces given per-quadrant offsets
  and slopes when \<open>0\<close> is the reference level.
\<close>

definition known_beta :: "(int \<Rightarrow> real) \<Rightarrow> (int \<Rightarrow> real) \<Rightarrow> (int \<Rightarrow> real) \<Rightarrow> lname \<Rightarrow> real" where
  "known_beta off sx sy n =
     (case n of
        C_rcid l \<Rightarrow> off l
      | X_image \<Rightarrow> sx 0
      | Y_image \<Rightarrow> sy 0
      | C_rcid_T_x_image l \<Rightarrow> sx l - sx 0
      | C_rcid_T_y_image l \<Rightarrow> sy l - sy 0)"

text \<open>What the four assignments of cell 50 do to one row of the quadrant with entry \<open>a\<close>.\<close>

definition row_update :: "affine \<Rightarrow> grow \<Rightarrow> grow" where
  "row_update a r =
     r\<lparr>x_global := x_image r - crpix1 a,
       y_global := y_image r - crpix2 a,
       etalin := (x_image r - crpix1 a) * cd11 a + (y_image r - crpix2 a) * cd12 a,
       nulin := (x_image r - crpix1 a) * cd21 a + (y_image r - crpix2 a) * cd22 a\<rparr>"

text \<open>
  A noiseless synthetic data set: every quadrant has the three stars at the local pixel
  positions \<open>(0, 0)\<close>, \<open>(1, 0)\<close> and \<open>(0, 1)\<close>, and the projected coordinates are
  \<open>eta = 2 x + y + 1\<close> and \<open>nu = x + y + 2\<close>.  The transform has determinant \<open>1\<close>
  and maps the pixel \<open>(1, -3)\<close> to \<open>(0, 0)\<close>.
\<close>

definition ex_stars :: "int \<Rightarrow> obs list" where
  "ex_stars i =
     [\<lparr>rcid = i, x_image = 0, y_image = 0, eta = 1, nu = 2\<rparr>,
      \<lparr>rcid = i, x_image = 1, y_image = 0, eta = 3, nu = 3\<rparr>,
      \<lparr>rcid = i, x_image = 0, y_image = 1, eta = 2, nu = 3\<rparr>]"

definition ex_df :: "obs list" where
  "ex_df = concat (map ex_stars [0..63])"

definition ex_affine :: affine where
  "ex_affine = \<lparr>cd11 = 2, cd12 = 1, cd21 = 1, cd22 = 1, crpix1 = 1, crpix2 = - 3\<rparr>"

definition ex_table :: "int \<rightharpoonup> affine" where
  "ex_table = (\<lambda>i. if 0 \<le> i \<and> i \<le> 63 then Some ex_affine else None)"

text \<open>
  The known transform of that data set, the coefficients of the two linear fits to it,
  and the two series of parameters.
\<close>

definition ex_known :: "int \<Rightarrow> known" where
  "ex_known i = \<lparr>k11 = 2, k12 = 1, k21 = 1, k22 = 1, koff1 = 1, koff2 = 2\<rparr>"

definition ex_beta_x :: "lname \<Rightarrow> real" where
  "ex_beta_x = known_beta (\<lambda>l. 1) (\<lambda>l. 2) (\<lambda>l. 1)"

definition ex_beta_y :: "lname \<Rightarrow> real" where
  "ex_beta_y = known_beta (\<lambda>l. 2) (\<lambda>l. 1) (\<lambda>l. 1)"

definition ex_xp :: "lname params" where
  "ex_xp = params_of (linear_columns (levels ex_df)) ex_beta_x"

definition ex_yp :: "lname params" where
  "ex_yp = params_of (linear_columns (levels ex_df)) ex_beta_y"

text \<open>
  Parameters whose matrix is singular for every quadrant (all four slopes are \<open>1\<close> for
  quadrant \<open>0\<close>), used for both axes.
\<close>

definition ex_singular :: "lname params" where
  "ex_singular = params_of (linear_columns [0..63]) (known_beta (\<lambda>l. 0) (\<lambda>l. 1) (\<lambda>l. 1))"

text \<open>A data set with observations in quadrant \<open>0\<close> only, and its two fits.\<close>

definition ex_df_gap :: "obs list" where
  "ex_df_gap = ex_stars 0"

definition ex_xp_gap :: "lname params" where
  "ex_xp_gap = params_of (linear_columns (levels ex_df_gap)) ex_beta_x"

definition ex_yp_gap :: "lname params" where
  "ex_yp_gap = params_of (linear_columns (levels ex_df_gap)) ex_beta_y"

text \<open>
  The extraction of the ten coefficients as the specification words it: both axes in
  the order linear-x, linear-y, quadratic-x, cross term, quadratic-y, with the swap of
  the second axis applied to its quadratic terms only, every other term taken directly
  from the coefficient of the same name.
\<close>

definition pv_start_spec :: "qname params \<Rightarrow> qname params \<Rightarrow> error + (string \<times> real) list" where
  "pv_start_spec xp yp =
     float_items
       [(''PV1_1'', xp Etalin),
        (''PV1_2'', xp Nulin),
        (''PV1_4'', xp Power_etalin_2),
        (''PV1_5'', xp Etalin_nulin),
        (''PV1_6'', xp Power_nulin_2),
        (''PV2_1'', yp Etalin),
        (''PV2_2'', yp Nulin),
        (''PV2_4'', yp Power_nulin_2),
        (''PV2_5'', yp Etalin_nulin),
        (''PV2_6'', yp Power_etalin_2)]"

text \<open>
  The two polynomials that the ten coefficients describe (the markdown of cell 63:
  \<^verbatim>\<open>PV1_4 is x^2, PV1_5 is xy, PV1_6 is y^2\<close> and
  \<^verbatim>\<open>PV2_4 is y^2, PV2_5 is xy, PV2_6 is x^2\<close>), without a constant term.
\<close>

definition pv_get :: "(string \<times> real) list \<Rightarrow> string \<Rightarrow> real" where
  "pv_get pv k = (case map_of pv k of Some v \<Rightarrow> v | None \<Rightarrow> 0)"

definition tpv_axis1 :: "(string \<times> real) list \<Rightarrow> grow \<Rightarrow> real" where
  "tpv_axis1 pv r =
     pv_get pv ''PV1_1'' * etalin r + pv_get pv ''PV1_2'' * nulin r
     + pv_get pv ''PV1_4'' * (etalin r)\<^sup>2 + pv_get pv ''PV1_5'' * (etalin r * nulin r)
     + pv_get pv ''PV1_6'' * (nulin r)\<^sup>2"

definition tpv_axis2 :: "(string \<times> real) list \<Rightarrow> grow \<Rightarrow> real" where
  "tpv_axis2 pv r =
     pv_get pv ''PV2_1'' * nulin r + pv_get pv ''PV2_2'' * etalin r
     + pv_get pv ''PV2_4'' * (nulin r)\<^sup>2 + pv_get pv ''PV2_5'' * (nulin r * etalin r)
     + pv_get pv ''PV2_6'' * (etalin r)\<^sup>2"

text \<open>
  Coefficients of a quadratic fit with six different values, the dictionary cell 64
  makes of them, the header of cells 73 and 74 for them, and one row of the assembled
  frame.
\<close>

definition ex_qbeta :: "qname \<Rightarrow> real" where
  "ex_qbeta n =
     (case n of Intercept \<Rightarrow> 6 | Etalin \<Rightarrow> 1 | Nulin \<Rightarrow> 2 | Power_etalin_2 \<Rightarrow> 3
      | Power_nulin_2 \<Rightarrow> 4 | Etalin_nulin \<Rightarrow> 5)"

definition ex_q :: "qname params" where
  "ex_q = params_of quadratic_columns ex_qbeta"

definition ex_pv :: "(string \<times> real) list" where
  "ex_pv =
     [(''PV1_1'', 1), (''PV1_2'', 2), (''PV1_4'', 3), (''PV1_5'', 5), (''PV1_6'', 4),
      (''PV2_1'', 2), (''PV2_2'', 1), (''PV2_4'', 4), (''PV2_5'', 5), (''PV2_6'', 3)]"

definition ex_header :: header where
  "ex_header =
     [(''NAXIS'', HInt 2),
      (''NAXIS1'', HInt 3072),
      (''NAXIS2'', HInt 3080),
      (''CTYPE1'', HStr ''RA---TPV''),
      (''CTYPE2'', HStr ''DEC--TPV''),
      (''CRVAL1'', HFloat 10),
      (''CRVAL2'', HFloat 20),
      (''CRPIX1'', HFloat 1),
      (''CRPIX2'', HFloat (- 3)),
      (''CD1_1'', HFloat 2),
      (''CD1_2'', HFloat 1),
      (''CD2_1'', HFloat 1),
      (''CD2_2'', HFloat 1),
      (''PV1_1'', HFloat 1),
      (''PV1_2'', HFloat 2),
      (''PV1_4'', HFloat 3),
      (''PV1_5'', HFloat 5),
      (''PV1_6'', HFloat 4),
      (''PV2_1'', HFloat 2),
      (''PV2_2'', HFloat 1),
      (''PV2_4'', HFloat 4),
      (''PV2_5'', HFloat 5),
      (''PV2_6'', HFloat 3)]"

definition ex_row :: grow where
  "ex_row = \<lparr>rcid = 0, x_image = 1, y_image = 0, eta = 3, nu = 3,
             x_global = 0, y_global = 3, etalin = 3, nulin = 3\<rparr>"

text \<open>
  Coefficients of the fit of \<open>eta\<close> in which quadrant \<open>5\<close> has its own slope: the
  coefficient of \<^verbatim>\<open>C(rcid)[T.5]:x_image\<close> is \<open>1\<close>, so the slope of quadrant \<open>5\<close>
  along \<open>x\<close> is \<open>2 + 1 = 3\<close>; and the entry of the dictionary for that quadrant.
\<close>

definition ex_beta_x5 :: "lname \<Rightarrow> real" where
  "ex_beta_x5 = known_beta (\<lambda>l. 1) (\<lambda>l. if l = 5 then 3 else 2) (\<lambda>l. 1)"

definition ex_xp5 :: "lname params" where
  "ex_xp5 = params_of (linear_columns (levels ex_df)) ex_beta_x5"

definition ex_affine5 :: affine where
  "ex_affine5 = \<lparr>cd11 = 3, cd12 = 1, cd21 = 1, cd22 = 1, crpix1 = 1 / 2, crpix2 = - (5 / 2)\<rparr>"

text \<open>
  Cell 41 with the inversion left open: the loop body and the loop as above, for any
  function \<open>invert\<close> in the place of \<^verbatim>\<open>cd**-1\<close>.  With \<open>matrix_inv\<close> for
  \<open>invert\<close> they are \<open>rcmeta_entry\<close>, \<open>rcmeta_loop\<close> and \<open>rcmeta\<close>.
\<close>

definition rcmeta_entry_with ::
  "(mat2 \<Rightarrow> error + mat2) \<Rightarrow> lname params \<Rightarrow> lname params \<Rightarrow> int \<Rightarrow> error + affine" where
  "rcmeta_entry_with invert xp yp i =
     bind_err (cd_term xp X_image C_rcid_T_x_image i) (\<lambda>c11.
     bind_err (cd_term xp Y_image C_rcid_T_y_image i) (\<lambda>c12.
     bind_err (cd_term yp X_image C_rcid_T_x_image i) (\<lambda>c21.
     bind_err (cd_term yp Y_image C_rcid_T_y_image i) (\<lambda>c22.
     bind_err (np_matrix c11 c12 c21 c22) (\<lambda>cd.
     bind_err (invert cd) (\<lambda>invcd.
     bind_err (py_neg (xp (C_rcid i))) (\<lambda>o1.
     bind_err (py_neg (yp (C_rcid i))) (\<lambda>o2.
       let offset_pix = matvec invcd (o1, o2) in
       case cd of (a, b, c, d) \<Rightarrow>
         Inr \<lparr>cd11 = a, cd12 = b, cd21 = c, cd22 = d,
              crpix1 = fst offset_pix, crpix2 = snd offset_pix\<rparr>))))))))"

fun rcmeta_loop_with ::
  "(mat2 \<Rightarrow> error + mat2) \<Rightarrow> lname params \<Rightarrow> lname params \<Rightarrow> int list \<Rightarrow> (int \<rightharpoonup> affine)
     \<Rightarrow> error + (int \<rightharpoonup> affine)" where
  "rcmeta_loop_with invert xp yp [] m = Inr m"
| "rcmeta_loop_with invert xp yp (i # ids) m =
     (case rcmeta_entry_with invert xp yp i of
        Inl e \<Rightarrow> Inl e
      | Inr a \<Rightarrow> rcmeta_loop_with invert xp yp ids (m(i \<mapsto> a)))"

definition rcmeta_with ::
  "(mat2 \<Rightarrow> error + mat2) \<Rightarrow> lname params \<Rightarrow> lname params \<Rightarrow> error + (int \<rightharpoonup> affine)" where
  "rcmeta_with invert xp yp = rcmeta_loop_with invert xp yp [0..63] Map.empty"

text \<open>
  Doubles.  \<open>fl x\<close> is the double nearest to the real \<open>x\<close>: 53 significant bits,
  ties to the even significand.  Overflow and subnormal numbers are not modelled.
\<close>

definition pow2 :: "int \<Rightarrow> real" where
  "pow2 e = (if 0 \<le> e then 2 ^ nat e else 1 / 2 ^ nat (- e))"

definition rne :: "real \<Rightarrow> int" where
  "rne y =
     (let f = \<lfloor>y\<rfloor>; r = y - of_int f
      in if r < 1 / 2 then f else if 1 / 2 < r then f + 1 else if even f then f else f + 1)"

definition fl :: "real \<Rightarrow> real" where
  "fl x =
     (if x = 0 then 0
      else let e = \<lfloor>log 2 \<bar>x\<bar>\<rfloor> - 52 in of_int (rne (x / pow2 e)) * pow2 e)"

text \<open>
  \<^verbatim>\<open>cd**-1\<close> factorises the matrix (LAPACK, Gaussian elimination with partial
  pivoting) and raises \<open>LinAlgError\<close> when a pivot is exactly zero.  For a 2x2 matrix
  of doubles the first pivot is the first-column entry of larger magnitude; the other
  first-column entry times the rounded reciprocal of the pivot is the multiplier; the
  second pivot is the remaining entry minus the rounded product of the multiplier and the
  pivot row's second entry.
\<close>

definition lu_second_pivot :: "mat2 \<Rightarrow> real" where
  "lu_second_pivot m =
     (case m of (a, b, c, d) \<Rightarrow>
        if \<bar>a\<bar> < \<bar>c\<bar>
        then (let l = fl (a * fl (1 / c)) in fl (b - fl (l * d)))
        else (let l = fl (c * fl (1 / a)) in fl (d - fl (l * b))))"

definition lu_zero_pivot :: "mat2 \<Rightarrow> bool" where
  "lu_zero_pivot m \<longleftrightarrow>
     (case m of (a, b, c, d) \<Rightarrow> (a = 0 \<and> c = 0) \<or> lu_second_pivot m = 0)"

text \<open>Parameters of a fit of \<open>eta\<close> whose two slopes are \<open>49\<close> for every quadrant.\<close>

definition ex_xp49 :: "lname params" where
  "ex_xp49 = params_of (linear_columns [0..63]) (known_beta (\<lambda>l. 0) (\<lambda>l. 49) (\<lambda>l. 49))"

text \<open>
  The fit as a function.  \<^verbatim>\<open>sm.OLS(...).fit()\<close> solves the least-squares problem with
  the pseudo-inverse of the design matrix: among the coefficient vectors that minimise
  the sum of squared residuals it returns the one of least Euclidean norm.  When the
  design matrix has full column rank that is the only minimiser.  The returned fit is
  one of the minimisers that \<open>ols_fit\<close> admits, so what holds of every \<open>ols_fit\<close>
  holds of it.
\<close>

definition sqnorm :: "'n list \<Rightarrow> ('n \<Rightarrow> real) \<Rightarrow> real" where
  "sqnorm names \<beta> = (\<Sum>n\<leftarrow>names. (\<beta> n)\<^sup>2)"

definition pinv_fit ::
  "'n list \<Rightarrow> ('n \<Rightarrow> 'r \<Rightarrow> real) \<Rightarrow> ('r \<Rightarrow> real) \<Rightarrow> 'r list \<Rightarrow> 'n params \<Rightarrow> bool" where
  "pinv_fit names basis resp df p \<longleftrightarrow>
     (\<exists>\<beta>. p = params_of names \<beta> \<and>
          (\<forall>\<beta>'. ssr names basis resp df \<beta> \<le> ssr names basis resp df \<beta>') \<and>
          (\<forall>\<beta>'. (\<forall>\<beta>''. ssr names basis resp df \<beta>' \<le> ssr names basis resp df \<beta>'')
                  \<longrightarrow> sqnorm names \<beta> \<le> sqnorm names \<beta>'))"

text \<open>
  The design matrix has full column rank: no coefficient vector other than zero on the
  columns gives the fitted value \<open>0\<close> on every row.
\<close>

definition full_rank :: "'n list \<Rightarrow> ('n \<Rightarrow> 'r \<Rightarrow> real) \<Rightarrow> 'r list \<Rightarrow> bool" where
  "full_rank names basis df \<longleftrightarrow>
     (\<forall>\<gamma>. (\<forall>r\<in>set df. fittedvalue names basis \<gamma> r = 0) \<longrightarrow> (\<forall>n\<in>set names. \<gamma> n = 0))"

text \<open>
  Cells 30 to 41 (the Linear Fitter), from the data frame to the dictionary, and the
  whole notebook, from the data frame to the dictionary of cell 41 and the coefficients
  of cell 64.
\<close>

definition linear_fitter :: "obs list \<Rightarrow> (int \<rightharpoonup> affine) \<Rightarrow> bool" where
  "linear_fitter df t \<longleftrightarrow>
     (\<exists>xp yp.
        pinv_fit (linear_columns (levels df)) linear_basis eta df xp \<and>
        pinv_fit (linear_columns (levels df)) linear_basis nu df yp \<and>
        rcmeta xp yp = Inr t)"

definition pipeline :: "obs list \<Rightarrow> (int \<rightharpoonup> affine) \<times> (string \<times> real) list \<Rightarrow> bool" where
  "pipeline df out \<longleftrightarrow>
     (\<exists>t gdf qxp qyp pv.
        linear_fitter df t \<and>
        assemble t df = Inr gdf \<and>
        pinv_fit quadratic_columns quadratic_basis eta gdf qxp \<and>
        pinv_fit quadratic_columns quadratic_basis nu gdf qyp \<and>
        pv_start qxp qyp = Inr pv \<and>
        out = (t, pv))"

text \<open>The design matrix of the distortion fit (cells 53 to 57) has full column rank.\<close>

definition distortion_full_rank :: "obs list \<Rightarrow> (int \<rightharpoonup> affine) \<Rightarrow> bool" where
  "distortion_full_rank df t \<longleftrightarrow>
     (\<exists>gdf. assemble t df = Inr gdf \<and> full_rank quadratic_columns quadratic_basis gdf)"

text \<open>
  A data set on which the distortion fit has full column rank.  Quadrant \<open>0\<close> has four
  stars at the local pixels \<open>(0, 0)\<close>, \<open>(2, 0)\<close>, \<open>(0, 2)\<close>, \<open>(2, 2)\<close> with
  \<open>eta = x + 2 (1 - x) (1 - y)\<close> and \<open>nu = y + (1 - x) (1 - y)\<close>, which no linear model
  reproduces; every other quadrant has three stars at \<open>(0, 0)\<close>, \<open>(2, 0)\<close>, \<open>(0, 2)\<close>
  with \<open>eta = x + 1\<close> and \<open>nu = y + 1\<close>.
\<close>

definition fr_stars :: "int \<Rightarrow> obs list" where
  "fr_stars i =
     (if i = 0 then
        [\<lparr>rcid = 0, x_image = 0, y_image = 0, eta = 2, nu = 1\<rparr>,
         \<lparr>rcid = 0, x_image = 2, y_image = 0, eta = 0, nu = - 1\<rparr>,
         \<lparr>rcid = 0, x_image = 0, y_image = 2, eta = - 2, nu = 1\<rparr>,
         \<lparr>rcid = 0, x_image = 2, y_image = 2, eta = 4, nu = 3\<rparr>]
      else
        [\<lparr>rcid = i, x_image = 0, y_image = 0, eta = 1, nu = 1\<rparr>,
         \<lparr>rcid = i, x_image = 2, y_image = 0, eta = 3, nu = 1\<rparr>,
         \<lparr>rcid = i, x_image = 0, y_image = 2, eta = 1, nu = 3\<rparr>])"

definition fr_df :: "obs list" where
  "fr_df = concat (map fr_stars [0..63])"

text \<open>
  The least-squares coefficients of the two linear fits to that data set (offset \<open>0\<close>
  for quadrant \<open>0\<close> and \<open>1\<close> for the others, the identity matrix for all), and the
  dictionary of cell 41.
\<close>

definition fr_beta_x :: "lname \<Rightarrow> real" where
  "fr_beta_x = known_beta (\<lambda>l. if l = 0 then 0 else 1) (\<lambda>l. 1) (\<lambda>l. 0)"

definition fr_beta_y :: "lname \<Rightarrow> real" where
  "fr_beta_y = known_beta (\<lambda>l. if l = 0 then 0 else 1) (\<lambda>l. 0) (\<lambda>l. 1)"

definition fr_xp :: "lname params" where
  "fr_xp = params_of (linear_columns (levels fr_df)) fr_beta_x"

definition fr_yp :: "lname params" where
  "fr_yp = params_of (linear_columns (levels fr_df)) fr_beta_y"

definition fr_affine :: "int \<Rightarrow> affine" where
  "fr_affine i = \<lparr>cd11 = 1, cd12 = 0, cd21 = 0, cd22 = 1,
                  crpix1 = (if i = 0 then 0 else - 1), crpix2 = (if i = 0 then 0 else - 1)\<rparr>"

definition fr_table :: "int \<rightharpoonup> affine" where
  "fr_table = (\<lambda>i. if 0 \<le> i \<and> i \<le> 63 then Some (fr_affine i) else None)"

text \<open>
  That data set after cell 50, the coefficients of the two quadratic fits to it
  (\<open>eta = 2 - etalin - 2 nulin + 2 etalin nulin\<close> and \<open>nu = 1 - etalin + etalin nulin\<close>),
  and the dictionary cell 64 makes of them.
\<close>

definition fr_gdf :: "grow list" where
  "fr_gdf = map (\<lambda>r. row_update (fr_affine (rcid r)) (init_global r)) fr_df"

definition fr_qbeta_x :: "qname \<Rightarrow> real" where
  "fr_qbeta_x n = (case n of Intercept \<Rightarrow> 2 | Etalin \<Rightarrow> - 1 | Nulin \<Rightarrow> - 2 | Etalin_nulin \<Rightarrow> 2
                   | Power_etalin_2 \<Rightarrow> 0 | Power_nulin_2 \<Rightarrow> 0)"

definition fr_qbeta_y :: "qname \<Rightarrow> real" where
  "fr_qbeta_y n = (case n of Intercept \<Rightarrow> 1 | Etalin \<Rightarrow> - 1 | Nulin \<Rightarrow> 0 | Etalin_nulin \<Rightarrow> 1
                   | Power_etalin_2 \<Rightarrow> 0 | Power_nulin_2 \<Rightarrow> 0)"

definition fr_pv :: "(string \<times> real) list" where
  "fr_pv =
     [(''PV1_1'', - 1), (''PV1_2'', - 2), (''PV1_4'', 0), (''PV1_5'', 2), (''PV1_6'', 0),
      (''PV2_1'', 0), (''PV2_2'', - 1), (''PV2_4'', 0), (''PV2_5'', 1), (''PV2_6'', 0)]"


text \<open>
  A scale \<open>s\<close> applied to the projected coordinates of every observation, and what it
  does to the later stages: the assembled rows, an entry of the dictionary, the
  dictionary, the ten coefficients, and the parameters of the two kinds of fit.
\<close>

definition scale_obs :: "real \<Rightarrow> obs \<Rightarrow> obs" where
  "scale_obs s r = r\<lparr>eta := s * eta r, nu := s * nu r\<rparr>"

definition scale_grow :: "real \<Rightarrow> grow \<Rightarrow> grow" where
  "scale_grow s r =
     r\<lparr>eta := s * eta r, nu := s * nu r, etalin := s * etalin r, nulin := s * nulin r\<rparr>"

definition scale_affine :: "real \<Rightarrow> affine \<Rightarrow> affine" where
  "scale_affine s a =
     a\<lparr>cd11 := s * cd11 a, cd12 := s * cd12 a, cd21 := s * cd21 a, cd22 := s * cd22 a\<rparr>"

definition scale_table :: "real \<Rightarrow> (int \<rightharpoonup> affine) \<Rightarrow> (int \<rightharpoonup> affine)" where
  "scale_table s t = (\<lambda>i. map_option (scale_affine s) (t i))"

definition scale_pv :: "real \<Rightarrow> (string \<times> real) list \<Rightarrow> (string \<times> real) list" where
  "scale_pv s pv =
     map (\<lambda>kv. (fst kv,
            if fst kv \<in> set [''PV1_4'', ''PV1_5'', ''PV1_6'', ''PV2_4'', ''PV2_5'', ''PV2_6'']
            then snd kv / s else snd kv)) pv"

definition scale_params :: "real \<Rightarrow> lname params \<Rightarrow> lname params" where
  "scale_params s p = (\<lambda>n. map_option ((*) s) (p n))"

definition qweight :: "real \<Rightarrow> qname \<Rightarrow> real" where
  "qweight s n = (case n of Intercept \<Rightarrow> s | Etalin \<Rightarrow> 1 | Nulin \<Rightarrow> 1 | _ \<Rightarrow> 1 / s)"

definition scale_qparams :: "real \<Rightarrow> qname params \<Rightarrow> qname params" where
  "scale_qparams s p = (\<lambda>n. map_option ((*) (qweight s n)) (p n))"

section \<open>The assembler of cell 50, row by row\<close>

lemma assemble_step_rows:
  "assemble_step i a df = map (\<lambda>r. if rcid r = i then row_update a r else r) df"
  by (simp add: assemble_step_def loc_set_def row_update_def Let_def)

lemma row_update_rcid: "rcid (row_update a r) = rcid r"
  by (simp add: row_update_def)

lemma assemble_loop_rows:
  "distinct ids \<Longrightarrow> assemble_loop t ids df = Inr df' \<Longrightarrow>
   df' = map (\<lambda>r. if rcid r \<in> set ids then row_update (the (t (rcid r))) r else r) df
   \<and> (\<forall>i\<in>set ids. t i \<noteq> None)"
proof (induction ids arbitrary: df)
  case Nil
  then show ?case by simp
next
  case (Cons i ids)
  from Cons.prems obtain a where a: "t i = Some a"
    and rest: "assemble_loop t ids (assemble_step i a df) = Inr df'"
    by (auto split: option.splits)
  from Cons.prems have d: "distinct ids" and ni: "i \<notin> set ids" by simp_all
  from Cons.IH [OF d rest]
  have df': "df' = map (\<lambda>r. if rcid r \<in> set ids then row_update (the (t (rcid r))) r else r)
                    (assemble_step i a df)"
    and all: "\<forall>i\<in>set ids. t i \<noteq> None" by simp_all
  have "df' = map (\<lambda>r. if rcid r \<in> set (i # ids) then row_update (the (t (rcid r))) r else r) df"
    unfolding df' assemble_step_rows using ni a
    by (auto simp: row_update_rcid)
  with all a show ?case by simp
qed

lemma assemble_loop_total:
  "\<forall>i\<in>set ids. t i \<noteq> None \<Longrightarrow> \<exists>df'. assemble_loop t ids df = Inr df'"
  by (induction ids arbitrary: df) auto

lemma assemble_total:
  "\<forall>i\<in>{0..63}. t i \<noteq> None \<Longrightarrow> \<exists>df'. assemble t df = Inr df'"
  unfolding assemble_def by (rule assemble_loop_total) simp

text \<open>
  Claim C4.  When the assembler finishes, every observation whose quadrant identifier is
  one of \<open>0..63\<close> has its global pixel coordinate equal to the local one minus the
  \<open>(crpix1, crpix2)\<close> of its quadrant, its \<open>(etalin, nulin)\<close> equal to the
  quadrant's 2x2 transform applied to that global coordinate, and its \<open>eta\<close>, \<open>nu\<close>,
  quadrant and local pixel coordinate unchanged; the frame keeps its length.
\<close>

theorem assemble_rows:
  assumes "assemble t df = Inr df'" and "k < length df"
    and "0 \<le> rcid (df ! k)" and "rcid (df ! k) \<le> 63"
  shows "length df' = length df \<and>
    (\<exists>a. t (rcid (df ! k)) = Some a \<and>
      x_global (df' ! k) = x_image (df ! k) - crpix1 a \<and>
      y_global (df' ! k) = y_image (df ! k) - crpix2 a \<and>
      etalin (df' ! k) =
        (x_image (df ! k) - crpix1 a) * cd11 a + (y_image (df ! k) - crpix2 a) * cd12 a \<and>
      nulin (df' ! k) =
        (x_image (df ! k) - crpix1 a) * cd21 a + (y_image (df ! k) - crpix2 a) * cd22 a \<and>
      eta (df' ! k) = eta (df ! k) \<and> nu (df' ! k) = nu (df ! k) \<and>
      rcid (df' ! k) = rcid (df ! k) \<and>
      x_image (df' ! k) = x_image (df ! k) \<and> y_image (df' ! k) = y_image (df ! k))"
proof -
  have d: "distinct [0..63::int]" by simp
  from assms(1) have run: "assemble_loop t [0..63] (map init_global df) = Inr df'"
    by (simp add: assemble_def)
  note R = assemble_loop_rows [OF d run]
  from R have df': "df' = map (\<lambda>r. if rcid r \<in> set [0..63] then row_update (the (t (rcid r))) r else r)
                    (map init_global df)" by simp
  have mem: "rcid (df ! k) \<in> set [0..63]" using assms(3,4) by simp
  from R have "\<forall>i\<in>set [0..63]. t i \<noteq> None" by blast
  with mem have "t (rcid (df ! k)) \<noteq> None" by blast
  then obtain a where a: "t (rcid (df ! k)) = Some a" by blast
  have row: "df' ! k = row_update a (init_global (df ! k))"
    using assms(2) mem a unfolding df' by (simp add: init_global_def)
  show ?thesis
    using a assms(2) unfolding row
    by (simp add: df' row_update_def init_global_def)
qed

theorem assemble_rows_witness:
  "\<exists>df'. assemble ex_table (ex_stars 5) = Inr df' \<and> length df' = 3 \<and>
     x_global (df' ! 1) = 0 \<and> y_global (df' ! 1) = 3 \<and>
     etalin (df' ! 1) = 3 \<and> nulin (df' ! 1) = 3 \<and>
     eta (df' ! 1) = 3 \<and> nu (df' ! 1) = 3"
proof -
  have "\<forall>i\<in>{0..63}. ex_table i \<noteq> None" by (simp add: ex_table_def)
  from assemble_total [OF this] obtain df' where run: "assemble ex_table (ex_stars 5) = Inr df'"
    by blast
  have k: "1 < length (ex_stars 5)" and lo: "0 \<le> rcid (ex_stars 5 ! 1)"
    and hi: "rcid (ex_stars 5 ! 1) \<le> 63"
    by (simp_all add: ex_stars_def)
  from assemble_rows [OF run k lo hi] show ?thesis
    using run by (auto simp: ex_stars_def ex_table_def ex_affine_def)
qed

section \<open>Cell 41: one entry of the dictionary\<close>

lemma bind_err_Inr: "bind_err m f = Inr v \<longleftrightarrow> (\<exists>u. m = Inr u \<and> f u = Inr v)"
  by (cases m) (simp_all add: bind_err_def)

lemma py_neg_Inr: "py_neg a = Inr v \<longleftrightarrow> (\<exists>u. a = Some u \<and> v = - u)"
  by (cases a) (auto simp: py_neg_def)

lemma np_matrix_Inr:
  "np_matrix a b c d = Inr m \<longleftrightarrow>
     (\<exists>a' b' c' d'. a = Some a' \<and> b = Some b' \<and> c = Some c' \<and> d = Some d' \<and>
        m = (a', b', c', d'))"
  by (cases a; cases b; cases c; cases d) (auto simp: np_matrix_def)

lemma matrix_inv_Inr:
  "matrix_inv (a, b, c, d) = Inr n \<longleftrightarrow>
     (a * d - b * c \<noteq> 0 \<and>
      n = (d / (a * d - b * c), - b / (a * d - b * c),
           - c / (a * d - b * c), a / (a * d - b * c)))"
  by (auto simp: matrix_inv_def det2_def)

lemma rcmeta_entry_Inr:
  "rcmeta_entry xp yp i = Inr m \<longleftrightarrow>
     (\<exists>a b c d n o1 o2.
        cd_term xp X_image C_rcid_T_x_image i = Inr (Some a) \<and>
        cd_term xp Y_image C_rcid_T_y_image i = Inr (Some b) \<and>
        cd_term yp X_image C_rcid_T_x_image i = Inr (Some c) \<and>
        cd_term yp Y_image C_rcid_T_y_image i = Inr (Some d) \<and>
        matrix_inv (a, b, c, d) = Inr n \<and>
        xp (C_rcid i) = Some o1 \<and> yp (C_rcid i) = Some o2 \<and>
        m = \<lparr>cd11 = a, cd12 = b, cd21 = c, cd22 = d,
             crpix1 = fst (matvec n (- o1, - o2)), crpix2 = snd (matvec n (- o1, - o2))\<rparr>)"
  unfolding rcmeta_entry_def bind_err_Inr np_matrix_Inr py_neg_Inr Let_def
  by auto

text \<open>A linear system of two equations with a regular matrix has exactly one solution.\<close>

lemma solve2:
  fixes a b c d :: real
  assumes D: "a * d - b * c \<noteq> 0"
  shows "(o1 + a * x + b * y = 0 \<and> o2 + c * x + d * y = 0) \<longleftrightarrow>
         (x = (d * (- o1) - b * (- o2)) / (a * d - b * c) \<and>
          y = (a * (- o2) - c * (- o1)) / (a * d - b * c))"
proof
  assume eq: "o1 + a * x + b * y = 0 \<and> o2 + c * x + d * y = 0"
  have "x * (a * d - b * c) = d * (- o1) - b * (- o2)"
    using eq by algebra
  moreover have "y * (a * d - b * c) = a * (- o2) - c * (- o1)"
    using eq by algebra
  ultimately show "x = (d * (- o1) - b * (- o2)) / (a * d - b * c) \<and>
          y = (a * (- o2) - c * (- o1)) / (a * d - b * c)"
    using D by (simp add: eq_divide_eq)
next
  assume xy: "x = (d * (- o1) - b * (- o2)) / (a * d - b * c) \<and>
          y = (a * (- o2) - c * (- o1)) / (a * d - b * c)"
  have "(o1 + a * x + b * y) * (a * d - b * c) = 0"
    unfolding conjunct1 [OF xy] conjunct2 [OF xy] using D
    by (simp add: field_simps)
  moreover have "(o2 + c * x + d * y) * (a * d - b * c) = 0"
    unfolding conjunct1 [OF xy] conjunct2 [OF xy] using D
    by (simp add: field_simps)
  ultimately show "o1 + a * x + b * y = 0 \<and> o2 + c * x + d * y = 0"
    using D by simp
qed

lemma rcmeta_entry_crpix:
  assumes "rcmeta_entry xp yp i = Inr m"
  shows "\<exists>o1 o2 n. xp (C_rcid i) = Some o1 \<and> yp (C_rcid i) = Some o2 \<and>
     det2 (cd11 m, cd12 m, cd21 m, cd22 m) \<noteq> 0 \<and>
     matrix_inv (cd11 m, cd12 m, cd21 m, cd22 m) = Inr n \<and>
     (crpix1 m, crpix2 m) = matvec n (- o1, - o2) \<and>
     (\<forall>x y. (o1 + cd11 m * x + cd12 m * y = 0 \<and> o2 + cd21 m * x + cd22 m * y = 0)
               \<longleftrightarrow> (x = crpix1 m \<and> y = crpix2 m))"
proof -
  from assms obtain a b c d n o1 o2 where
    inv: "matrix_inv (a, b, c, d) = Inr n" and
    o1: "xp (C_rcid i) = Some o1" and o2: "yp (C_rcid i) = Some o2" and
    m: "m = \<lparr>cd11 = a, cd12 = b, cd21 = c, cd22 = d,
             crpix1 = fst (matvec n (- o1, - o2)), crpix2 = snd (matvec n (- o1, - o2))\<rparr>"
    unfolding rcmeta_entry_Inr by blast
  from inv have D: "a * d - b * c \<noteq> 0"
    and n: "n = (d / (a * d - b * c), - b / (a * d - b * c),
                 - c / (a * d - b * c), a / (a * d - b * c))"
    unfolding matrix_inv_Inr by simp_all
  have c1: "crpix1 m = (d * (- o1) - b * (- o2)) / (a * d - b * c)"
    unfolding m n by (simp add: matvec_def diff_divide_distrib)
  have c2: "crpix2 m = (a * (- o2) - c * (- o1)) / (a * d - b * c)"
    unfolding m n by (simp add: matvec_def diff_divide_distrib)
  have sol: "\<forall>x y. (o1 + cd11 m * x + cd12 m * y = 0 \<and> o2 + cd21 m * x + cd22 m * y = 0)
               \<longleftrightarrow> (x = crpix1 m \<and> y = crpix2 m)"
    unfolding c1 c2 using solve2 [OF D] by (simp add: m)
  show ?thesis
    using o1 o2 inv D sol by (simp add: m det2_def)
qed


section \<open>The columns of the linear fit\<close>

lemma levels_set: "set (levels df) = rcid ` set df"
  by (simp add: levels_def)

lemma levels_sorted: "sorted (levels df)"
  by (simp add: levels_def)

lemma levels_distinct: "distinct (levels df)"
  by (simp add: levels_def)

lemma params_of_X: "params_of (linear_columns lv) \<beta> X_image = Some (\<beta> X_image)"
  by (simp add: params_of_def linear_columns_def)

lemma params_of_Y: "params_of (linear_columns lv) \<beta> Y_image = Some (\<beta> Y_image)"
  by (simp add: params_of_def linear_columns_def)

lemma params_of_C:
  "params_of (linear_columns lv) \<beta> (C_rcid l) = (if l \<in> set lv then Some (\<beta> (C_rcid l)) else None)"
  by (auto simp: params_of_def linear_columns_def)

lemma params_of_Tx:
  "params_of (linear_columns lv) \<beta> (C_rcid_T_x_image l) =
     (if l \<in> set (tl lv) then Some (\<beta> (C_rcid_T_x_image l)) else None)"
  by (auto simp: params_of_def linear_columns_def)

lemma params_of_Ty:
  "params_of (linear_columns lv) \<beta> (C_rcid_T_y_image l) =
     (if l \<in> set (tl lv) then Some (\<beta> (C_rcid_T_y_image l)) else None)"
  by (auto simp: params_of_def linear_columns_def)

lemmas params_of_linear = params_of_X params_of_Y params_of_C params_of_Tx params_of_Ty

lemma ex_df_rcids: "rcid ` set ex_df = {0..63}"
  by (auto simp: ex_df_def ex_stars_def image_iff)

lemma levels_ex_df: "levels ex_df = [0..63]"
proof (rule sorted_distinct_set_unique)
  show "set (levels ex_df) = set [0..63]"
    by (simp add: levels_set ex_df_rcids)
qed (simp_all add: levels_sorted levels_distinct)

lemma tl_upto_0_63: "tl [0..63] = [1..(63::int)]"
  by (subst upto_rec1) simp_all

lemma cd_term_params:
  "cd_term (params_of (linear_columns lv) \<beta>) X_image C_rcid_T_x_image i =
     (if i > 0 then (if i \<in> set (tl lv) then Inr (Some (\<beta> X_image + \<beta> (C_rcid_T_x_image i))) else Inl TypeError)
      else Inr (Some (\<beta> X_image)))"
  "cd_term (params_of (linear_columns lv) \<beta>) Y_image C_rcid_T_y_image i =
     (if i > 0 then (if i \<in> set (tl lv) then Inr (Some (\<beta> Y_image + \<beta> (C_rcid_T_y_image i))) else Inl TypeError)
      else Inr (Some (\<beta> Y_image)))"
  by (simp_all add: cd_term_def params_of_linear py_add_def bind_err_def)

lemma ex_entry:
  assumes "0 \<le> i" "i \<le> 63"
  shows "rcmeta_entry ex_xp ex_yp i = Inr ex_affine"
  unfolding rcmeta_entry_Inr ex_xp_def ex_yp_def levels_ex_df cd_term_params params_of_C
    tl_upto_0_63 matrix_inv_Inr
  using assms
  by (auto simp: ex_beta_x_def ex_beta_y_def known_beta_def ex_affine_def matvec_def)

section \<open>Cell 41: the loop\<close>

lemma rcmeta_loop_Inr:
  "rcmeta_loop xp yp ids m = Inr t \<Longrightarrow>
     (\<forall>i. t i = (if i \<in> set ids then
                    (case rcmeta_entry xp yp i of Inr a \<Rightarrow> Some a | Inl e \<Rightarrow> None) else m i))
     \<and> (\<forall>i\<in>set ids. \<exists>a. rcmeta_entry xp yp i = Inr a)"
proof (induction ids arbitrary: m)
  case Nil
  then show ?case by simp
next
  case (Cons j ids)
  from Cons.prems obtain a where a: "rcmeta_entry xp yp j = Inr a"
    and rest: "rcmeta_loop xp yp ids (m(j \<mapsto> a)) = Inr t"
    by (auto split: sum.splits)
  from Cons.IH [OF rest] a show ?case by auto
qed

lemma rcmeta_loop_total:
  "\<forall>i\<in>set ids. \<exists>a. rcmeta_entry xp yp i = Inr a \<Longrightarrow> \<exists>t. rcmeta_loop xp yp ids m = Inr t"
  by (induction ids arbitrary: m) auto

lemma rcmeta_loop_failure:
  "i \<in> set ids \<Longrightarrow> rcmeta_entry xp yp i = Inl e \<Longrightarrow> \<exists>e'. rcmeta_loop xp yp ids m = Inl e'"
proof (induction ids arbitrary: m)
  case Nil
  then show ?case by simp
next
  case (Cons j ids)
  show ?case
  proof (cases "rcmeta_entry xp yp j")
    case (Inl e')
    then show ?thesis by simp
  next
    case (Inr a)
    with Cons.prems have "i \<in> set ids" by auto
    from Cons.IH [OF this Cons.prems(2)] Inr show ?thesis by simp
  qed
qed

lemma rcmeta_Inr:
  assumes "rcmeta xp yp = Inr t"
  shows "dom t = {0..63}" and "0 \<le> i \<Longrightarrow> i \<le> 63 \<Longrightarrow> rcmeta_entry xp yp i = Inr a \<longleftrightarrow> t i = Some a"
proof -
  from assms have run: "rcmeta_loop xp yp [0..63] Map.empty = Inr t"
    by (simp add: rcmeta_def)
  note R = rcmeta_loop_Inr [OF run]
  from R have t: "\<And>i. t i = (if i \<in> set [0..63] then
                    (case rcmeta_entry xp yp i of Inr a \<Rightarrow> Some a | Inl e \<Rightarrow> None) else None)"
    by simp
  from R have ok: "\<forall>i\<in>set [0..63]. \<exists>a. rcmeta_entry xp yp i = Inr a" by blast
  show "dom t = {0..63}"
  proof (rule set_eqI)
    fix i
    show "i \<in> dom t \<longleftrightarrow> i \<in> {0..63}"
    proof (cases "i \<in> set [0..63]")
      case True
      with ok obtain a where "rcmeta_entry xp yp i = Inr a" by blast
      with True show ?thesis by (simp add: t dom_def)
    next
      case False
      then have "t i = None" by (simp only: t if_False)
      with False show ?thesis by (simp add: dom_def)
    qed
  qed
  show "rcmeta_entry xp yp i = Inr a \<longleftrightarrow> t i = Some a" if "0 \<le> i" "i \<le> 63"
  proof -
    from that have mem: "i \<in> set [0..63]" by simp
    with ok obtain b where "rcmeta_entry xp yp i = Inr b" by blast
    with mem show ?thesis by (simp add: t)
  qed
qed

lemma rcmeta_failure:
  assumes "0 \<le> i" "i \<le> 63" "rcmeta_entry xp yp i = Inl e"
  shows "\<exists>e'. rcmeta xp yp = Inl e'"
  unfolding rcmeta_def
  by (rule rcmeta_loop_failure [OF _ assms(3)]) (use assms in simp)

lemma ex_rcmeta: "rcmeta ex_xp ex_yp = Inr ex_table"
proof -
  have "\<forall>i\<in>set [0..63]. \<exists>a. rcmeta_entry ex_xp ex_yp i = Inr a"
    by (simp add: ex_entry)
  from rcmeta_loop_total [OF this] obtain t where t: "rcmeta ex_xp ex_yp = Inr t"
    unfolding rcmeta_def by blast
  have "t i = ex_table i" for i
  proof (cases "0 \<le> i \<and> i \<le> 63")
    case True
    with rcmeta_Inr(2) [OF t, of i ex_affine] ex_entry [of i]
    show ?thesis by (simp add: ex_table_def)
  next
    case False
    with rcmeta_Inr(1) [OF t] have "i \<notin> dom t" by auto
    with False show ?thesis by (auto simp: ex_table_def)
  qed
  then have "t = ex_table" by blast
  with t show ?thesis by simp
qed

section \<open>Least squares on noiseless data\<close>

lemma sum_list_indicator:
  "distinct ls \<Longrightarrow>
     (\<Sum>l\<leftarrow>ls. f l * (if c = l then g else 0)) = (if c \<in> set ls then f c * g else (0::real))"
  by (induction ls) auto

lemma fitted_linear:
  assumes "distinct lv"
  shows "fittedvalue (linear_columns lv) linear_basis \<beta> r =
     (if rcid r \<in> set lv then \<beta> (C_rcid (rcid r)) else 0)
     + (\<beta> X_image + (if rcid r \<in> set (tl lv) then \<beta> (C_rcid_T_x_image (rcid r)) else 0)) * x_image r
     + (\<beta> Y_image + (if rcid r \<in> set (tl lv) then \<beta> (C_rcid_T_y_image (rcid r)) else 0)) * y_image r"
proof -
  from assms have dt: "distinct (tl lv)" by (rule distinct_tl)
  have c: "(\<Sum>l\<leftarrow>lv. \<beta> (C_rcid l) * (if rcid r = l then 1 else 0))
             = (if rcid r \<in> set lv then \<beta> (C_rcid (rcid r)) else 0)"
    using sum_list_indicator [OF assms, of "\<lambda>l. \<beta> (C_rcid l)" "rcid r" 1] by simp
  have x: "(\<Sum>l\<leftarrow>tl lv. \<beta> (C_rcid_T_x_image l) * (if rcid r = l then x_image r else 0))
             = (if rcid r \<in> set (tl lv) then \<beta> (C_rcid_T_x_image (rcid r)) * x_image r else 0)"
    using sum_list_indicator [OF dt, of "\<lambda>l. \<beta> (C_rcid_T_x_image l)" "rcid r" "x_image r"] by simp
  have y: "(\<Sum>l\<leftarrow>tl lv. \<beta> (C_rcid_T_y_image l) * (if rcid r = l then y_image r else 0))
             = (if rcid r \<in> set (tl lv) then \<beta> (C_rcid_T_y_image (rcid r)) * y_image r else 0)"
    using sum_list_indicator [OF dt, of "\<lambda>l. \<beta> (C_rcid_T_y_image l)" "rcid r" "y_image r"] by simp
  show ?thesis
    unfolding fittedvalue_def linear_columns_def
    by (simp add: o_def c x y algebra_simps)
qed

lemma ssr_nonneg: "0 \<le> ssr names basis resp df \<beta>"
  unfolding ssr_def by (rule sum_list_nonneg) auto

lemma ssr_zero_iff:
  "ssr names basis resp df \<beta> = 0 \<longleftrightarrow> (\<forall>r\<in>set df. fittedvalue names basis \<beta> r = resp r)"
proof -
  have "ssr names basis resp df \<beta> = 0 \<longleftrightarrow>
        (\<forall>v\<in>set (map (\<lambda>r. (resp r - fittedvalue names basis \<beta> r)\<^sup>2) df). v = 0)"
    unfolding ssr_def by (rule sum_list_nonneg_eq_0_iff) auto
  then show ?thesis by auto
qed

lemma ols_fit_exact:
  assumes "\<forall>r\<in>set df. fittedvalue names basis \<beta> r = resp r"
  shows "ols_fit names basis resp df (params_of names \<beta>)"
proof -
  from assms have "ssr names basis resp df \<beta> = 0" by (simp add: ssr_zero_iff)
  then have "\<forall>\<beta>'. ssr names basis resp df \<beta> \<le> ssr names basis resp df \<beta>'"
    by (simp add: ssr_nonneg)
  then show ?thesis unfolding ols_fit_def by blast
qed

lemma ols_fit_of_exact:
  assumes fit: "ols_fit names basis resp df p"
    and exact: "\<forall>r\<in>set df. fittedvalue names basis \<beta>0 r = resp r"
  shows "\<exists>\<beta>. p = params_of names \<beta> \<and> (\<forall>r\<in>set df. fittedvalue names basis \<beta> r = resp r)"
proof -
  from fit obtain \<beta> where p: "p = params_of names \<beta>"
    and least: "\<forall>\<beta>'. ssr names basis resp df \<beta> \<le> ssr names basis resp df \<beta>'"
    unfolding ols_fit_def by blast
  from exact have "ssr names basis resp df \<beta>0 = 0" by (simp add: ssr_zero_iff)
  with least have "ssr names basis resp df \<beta> \<le> 0" by metis
  with ssr_nonneg [of names basis resp df \<beta>] have "ssr names basis resp df \<beta> = 0" by simp
  then have "\<forall>r\<in>set df. fittedvalue names basis \<beta> r = resp r" by (simp add: ssr_zero_iff)
  with p show ?thesis by blast
qed

lemma affine_three_points:
  fixes a b c a' b' c' :: real
  assumes e1: "c + a * x1 + b * y1 = c' + a' * x1 + b' * y1"
    and e2: "c + a * x2 + b * y2 = c' + a' * x2 + b' * y2"
    and e3: "c + a * x3 + b * y3 = c' + a' * x3 + b' * y3"
    and D: "(x2 - x1) * (y3 - y1) - (x3 - x1) * (y2 - y1) \<noteq> 0"
  shows "a = a' \<and> b = b' \<and> c = c'"
proof -
  have "(a - a') * ((x2 - x1) * (y3 - y1) - (x3 - x1) * (y2 - y1)) = 0"
    using e1 e2 e3 by algebra
  with D have a: "a = a'" by simp
  have "(b - b') * ((x2 - x1) * (y3 - y1) - (x3 - x1) * (y2 - y1)) = 0"
    using e1 e2 e3 by algebra
  with D have b: "b = b'" by simp
  from e1 a b have "c = c'" by simp
  with a b show ?thesis by simp
qed

lemma sorted_distinct_hd_zero:
  fixes lv :: "int list"
  assumes "sorted lv" "distinct lv" "0 \<in> set lv" "\<forall>l\<in>set lv. 0 \<le> l"
  shows "hd lv = 0 \<and> set (tl lv) = set lv - {0}"
proof (cases lv)
  case Nil
  with assms show ?thesis by simp
next
  case (Cons h t)
  with assms have "h \<le> 0" by auto
  moreover from Cons assms have "0 \<le> h" by simp
  ultimately have "h = 0" by simp
  with Cons assms show ?thesis by auto
qed

lemma levels_hd_zero:
  assumes "\<forall>r\<in>set df. 0 \<le> rcid r" and "0 \<in> rcid ` set df"
  shows "hd (levels df) = 0" and "set (tl (levels df)) = rcid ` set df - {0}"
proof -
  have "hd (levels df) = 0 \<and> set (tl (levels df)) = set (levels df) - {0}"
    by (rule sorted_distinct_hd_zero)
       (use assms in \<open>auto simp: levels_sorted levels_distinct levels_set\<close>)
  then show "hd (levels df) = 0" and "set (tl (levels df)) = rcid ` set df - {0}"
    by (simp_all add: levels_set)
qed

lemma known_beta_exact:
  assumes nonneg: "\<forall>r\<in>set df. 0 \<le> rcid r" and zero: "0 \<in> rcid ` set df"
    and resp: "\<forall>r\<in>set df. resp r = off (rcid r) + sx (rcid r) * x_image r + sy (rcid r) * y_image r"
  shows "\<forall>r\<in>set df.
           fittedvalue (linear_columns (levels df)) linear_basis (known_beta off sx sy) r = resp r"
proof
  fix r assume r: "r \<in> set df"
  note tl = levels_hd_zero(2) [OF nonneg zero]
  from r have mem: "rcid r \<in> set (levels df)" by (simp add: levels_set)
  show "fittedvalue (linear_columns (levels df)) linear_basis (known_beta off sx sy) r = resp r"
  proof (cases "rcid r = 0")
    case True
    then have "rcid r \<notin> set (tl (levels df))" by (simp add: tl)
    with mem True resp r show ?thesis
      by (simp add: fitted_linear [OF levels_distinct] known_beta_def)
  next
    case False
    with r have "rcid r \<in> set (tl (levels df))" by (simp add: tl)
    with mem resp r show ?thesis
      by (simp add: fitted_linear [OF levels_distinct] known_beta_def)
  qed
qed

lemma linear_fit_recovers:
  assumes nonneg: "\<forall>r\<in>set df. 0 \<le> rcid r" and zero: "0 \<in> rcid ` set df"
    and resp: "\<forall>r\<in>set df. resp r = off (rcid r) + sx (rcid r) * x_image r + sy (rcid r) * y_image r"
    and fit: "ols_fit (linear_columns (levels df)) linear_basis resp df p"
    and three: "three_noncollinear df i" and i0: "0 \<le> i"
  shows "p (C_rcid i) = Some (off i) \<and>
         cd_term p X_image C_rcid_T_x_image i = Inr (Some (sx i)) \<and>
         cd_term p Y_image C_rcid_T_y_image i = Inr (Some (sy i))"
proof -
  let ?lv = "levels df"
  note tl = levels_hd_zero(2) [OF nonneg zero]
  from ols_fit_of_exact [OF fit known_beta_exact [OF nonneg zero resp]]
  obtain \<beta> where p: "p = params_of (linear_columns ?lv) \<beta>"
    and exact: "\<forall>r\<in>set df. fittedvalue (linear_columns ?lv) linear_basis \<beta> r = resp r"
    by blast
  from three obtain s1 s2 s3 where
    in1: "s1 \<in> set df" and in2: "s2 \<in> set df" and in3: "s3 \<in> set df" and
    q1: "rcid s1 = i" and q2: "rcid s2 = i" and q3: "rcid s3 = i" and
    D: "(x_image s2 - x_image s1) * (y_image s3 - y_image s1)
          - (x_image s3 - x_image s1) * (y_image s2 - y_image s1) \<noteq> 0"
    unfolding three_noncollinear_def by blast
  from in1 q1 have mem: "i \<in> set ?lv" by (auto simp: levels_set)
  define A where "A = \<beta> X_image + (if i \<in> set (tl ?lv) then \<beta> (C_rcid_T_x_image i) else 0)"
  define B where "B = \<beta> Y_image + (if i \<in> set (tl ?lv) then \<beta> (C_rcid_T_y_image i) else 0)"
  define C where "C = \<beta> (C_rcid i)"
  have fitted: "fittedvalue (linear_columns ?lv) linear_basis \<beta> s = C + A * x_image s + B * y_image s"
    if "rcid s = i" for s :: obs
    using that mem by (simp add: fitted_linear [OF levels_distinct] A_def B_def C_def)
  have e1: "C + A * x_image s1 + B * y_image s1 = off i + sx i * x_image s1 + sy i * y_image s1"
    using exact in1 resp fitted [OF q1] q1 by auto
  have e2: "C + A * x_image s2 + B * y_image s2 = off i + sx i * x_image s2 + sy i * y_image s2"
    using exact in2 resp fitted [OF q2] q2 by auto
  have e3: "C + A * x_image s3 + B * y_image s3 = off i + sx i * x_image s3 + sy i * y_image s3"
    using exact in3 resp fitted [OF q3] q3 by auto
  from affine_three_points [OF e1 e2 e3 D]
  have A: "A = sx i" and B: "B = sy i" and C: "C = off i" by simp_all
  have off: "p (C_rcid i) = Some (off i)"
    using mem C by (simp add: p params_of_C C_def)
  have tl_iff: "i \<in> set (tl ?lv) \<longleftrightarrow> 0 < i"
    using mem i0 by (auto simp: tl levels_set)
  have cx: "cd_term p X_image C_rcid_T_x_image i = Inr (Some (sx i))"
    unfolding p cd_term_params using A tl_iff by (auto simp: A_def)
  have cy: "cd_term p Y_image C_rcid_T_y_image i = Inr (Some (sy i))"
    unfolding p cd_term_params using B tl_iff by (auto simp: B_def)
  from off cx cy show ?thesis by simp
qed

lemma affine_recovery_entry:
  assumes nl: "noiseless K df" and nonneg: "\<forall>r\<in>set df. 0 \<le> rcid r"
    and zero: "0 \<in> rcid ` set df"
    and fx: "xres_linear df xp" and fy: "yres_linear df yp"
    and three: "three_noncollinear df i" and i0: "0 \<le> i"
    and det: "k11 (K i) * k22 (K i) - k12 (K i) * k21 (K i) \<noteq> 0"
  shows "\<exists>m. rcmeta_entry xp yp i = Inr m \<and>
           cd11 m = k11 (K i) \<and> cd12 m = k12 (K i) \<and>
           cd21 m = k21 (K i) \<and> cd22 m = k22 (K i) \<and>
           koff1 (K i) + k11 (K i) * crpix1 m + k12 (K i) * crpix2 m = 0 \<and>
           koff2 (K i) + k21 (K i) * crpix1 m + k22 (K i) * crpix2 m = 0"
proof -
  have rx: "\<forall>r\<in>set df. eta r = (\<lambda>l. koff1 (K l)) (rcid r) + (\<lambda>l. k11 (K l)) (rcid r) * x_image r
              + (\<lambda>l. k12 (K l)) (rcid r) * y_image r"
    using nl by (simp add: noiseless_def)
  have ry: "\<forall>r\<in>set df. nu r = (\<lambda>l. koff2 (K l)) (rcid r) + (\<lambda>l. k21 (K l)) (rcid r) * x_image r
              + (\<lambda>l. k22 (K l)) (rcid r) * y_image r"
    using nl by (simp add: noiseless_def)
  from fx have fx': "ols_fit (linear_columns (levels df)) linear_basis eta df xp"
    by (simp add: xres_linear_def)
  from fy have fy': "ols_fit (linear_columns (levels df)) linear_basis nu df yp"
    by (simp add: yres_linear_def)
  from linear_fit_recovers [OF nonneg zero rx fx' three i0]
  have x: "xp (C_rcid i) = Some (koff1 (K i))"
    "cd_term xp X_image C_rcid_T_x_image i = Inr (Some (k11 (K i)))"
    "cd_term xp Y_image C_rcid_T_y_image i = Inr (Some (k12 (K i)))" by simp_all
  from linear_fit_recovers [OF nonneg zero ry fy' three i0]
  have y: "yp (C_rcid i) = Some (koff2 (K i))"
    "cd_term yp X_image C_rcid_T_x_image i = Inr (Some (k21 (K i)))"
    "cd_term yp Y_image C_rcid_T_y_image i = Inr (Some (k22 (K i)))" by simp_all
  from det have det': "k11 (K i) * k22 (K i) - k12 (K i) * k21 (K i) \<noteq> 0" .
  then obtain n where n: "matrix_inv (k11 (K i), k12 (K i), k21 (K i), k22 (K i)) = Inr n"
    by (simp add: matrix_inv_Inr)
  define m where "m = \<lparr>cd11 = k11 (K i), cd12 = k12 (K i), cd21 = k21 (K i), cd22 = k22 (K i),
     crpix1 = fst (matvec n (- koff1 (K i), - koff2 (K i))),
     crpix2 = snd (matvec n (- koff1 (K i), - koff2 (K i)))\<rparr>"
  have e: "rcmeta_entry xp yp i = Inr m"
    unfolding rcmeta_entry_Inr using x y n m_def by blast
  from rcmeta_entry_crpix [OF e] x(1) y(1)
  have "\<forall>u v. (koff1 (K i) + cd11 m * u + cd12 m * v = 0 \<and> koff2 (K i) + cd21 m * u + cd22 m * v = 0)
               \<longleftrightarrow> (u = crpix1 m \<and> v = crpix2 m)"
    by auto
  then have "koff1 (K i) + cd11 m * crpix1 m + cd12 m * crpix2 m = 0 \<and>
             koff2 (K i) + cd21 m * crpix1 m + cd22 m * crpix2 m = 0" by blast
  with e show ?thesis by (auto simp: m_def)
qed

section \<open>Recovery of a known transform, and the failures of cell 41\<close>

text \<open>
  Claim C5.  Let every observation be generated exactly by the known transform and
  offset of its quadrant, let no quadrant identifier be negative, let each of the
  quadrants \<open>0..63\<close> have three stars that are not on one line, and let each known
  matrix be regular (so that it has a zero point).  Then for any least-squares fits of
  the pooled data, cell 41 finishes, and for each quadrant the entry of the dictionary
  holds exactly the known matrix and a \<open>(crpix1, crpix2)\<close> at which the known
  transform is \<open>(0, 0)\<close>.
\<close>

theorem affine_recovery:
  assumes "noiseless K df" and "\<forall>r\<in>set df. 0 \<le> rcid r"
    and three: "\<forall>i\<in>{0..63}. three_noncollinear df i"
    and det: "\<forall>i\<in>{0..63}. k11 (K i) * k22 (K i) - k12 (K i) * k21 (K i) \<noteq> 0"
    and "xres_linear df xp" and "yres_linear df yp"
  shows "\<exists>t. rcmeta xp yp = Inr t \<and>
    (\<forall>i\<in>{0..63}. \<exists>m. t i = Some m \<and>
       cd11 m = k11 (K i) \<and> cd12 m = k12 (K i) \<and>
       cd21 m = k21 (K i) \<and> cd22 m = k22 (K i) \<and>
       koff1 (K i) + k11 (K i) * crpix1 m + k12 (K i) * crpix2 m = 0 \<and>
       koff2 (K i) + k21 (K i) * crpix1 m + k22 (K i) * crpix2 m = 0)"
proof -
  from three have "three_noncollinear df 0" by simp
  then have zero: "0 \<in> rcid ` set df"
    unfolding three_noncollinear_def by force
  have entry: "\<exists>m. rcmeta_entry xp yp i = Inr m \<and>
           cd11 m = k11 (K i) \<and> cd12 m = k12 (K i) \<and>
           cd21 m = k21 (K i) \<and> cd22 m = k22 (K i) \<and>
           koff1 (K i) + k11 (K i) * crpix1 m + k12 (K i) * crpix2 m = 0 \<and>
           koff2 (K i) + k21 (K i) * crpix1 m + k22 (K i) * crpix2 m = 0"
    if "i \<in> {0..63}" for i
    using that three det
    by (intro affine_recovery_entry [OF assms(1,2) zero assms(5,6)]) auto
  have "\<forall>i\<in>set [0..63]. \<exists>a. rcmeta_entry xp yp i = Inr a"
  proof
    fix i :: int assume "i \<in> set [0..63]"
    then have "i \<in> {0..63}" by simp
    from entry [OF this] show "\<exists>a. rcmeta_entry xp yp i = Inr a" by blast
  qed
  from rcmeta_loop_total [OF this] obtain t where t: "rcmeta xp yp = Inr t"
    unfolding rcmeta_def by blast
  have "\<exists>m. t i = Some m \<and>
       cd11 m = k11 (K i) \<and> cd12 m = k12 (K i) \<and>
       cd21 m = k21 (K i) \<and> cd22 m = k22 (K i) \<and>
       koff1 (K i) + k11 (K i) * crpix1 m + k12 (K i) * crpix2 m = 0 \<and>
       koff2 (K i) + k21 (K i) * crpix1 m + k22 (K i) * crpix2 m = 0"
    if i: "i \<in> {0..63}" for i
  proof -
    from entry [OF i] obtain m where m: "rcmeta_entry xp yp i = Inr m"
      and rest: "cd11 m = k11 (K i) \<and> cd12 m = k12 (K i) \<and>
           cd21 m = k21 (K i) \<and> cd22 m = k22 (K i) \<and>
           koff1 (K i) + k11 (K i) * crpix1 m + k12 (K i) * crpix2 m = 0 \<and>
           koff2 (K i) + k21 (K i) * crpix1 m + k22 (K i) * crpix2 m = 0" by blast
    from i m rcmeta_Inr(2) [OF t, of i m] have "t i = Some m" by simp
    with rest show ?thesis by blast
  qed
  with t show ?thesis by blast
qed

lemma ex_noiseless: "noiseless ex_known ex_df"
  by (auto simp: noiseless_def ex_known_def ex_df_def ex_stars_def)

lemma ex_nonneg: "\<forall>r\<in>set ex_df. 0 \<le> rcid r"
  by (auto simp: ex_df_def ex_stars_def)

lemma ex_three: "\<forall>i\<in>{0..63}. three_noncollinear ex_df i"
proof
  fix i :: int assume i: "i \<in> {0..63}"
  have sub: "set (ex_stars i) \<subseteq> set ex_df"
    using i by (auto simp: ex_df_def)
  have "three_noncollinear (ex_stars i) i"
    unfolding three_noncollinear_def ex_stars_def by simp
  with sub show "three_noncollinear ex_df i"
    unfolding three_noncollinear_def by blast
qed

lemma ex_det: "\<forall>i\<in>{0..63}. k11 (ex_known i) * k22 (ex_known i) - k12 (ex_known i) * k21 (ex_known i) \<noteq> 0"
  by (simp add: ex_known_def)

lemma ex_zero: "0 \<in> rcid ` set ex_df"
  by (simp add: ex_df_rcids)

lemma ex_xres: "xres_linear ex_df ex_xp"
  unfolding xres_linear_def ex_xp_def ex_beta_x_def
  by (rule ols_fit_exact, rule known_beta_exact [OF ex_nonneg ex_zero])
     (use ex_noiseless in \<open>simp add: noiseless_def ex_known_def\<close>)

lemma ex_yres: "yres_linear ex_df ex_yp"
  unfolding yres_linear_def ex_yp_def ex_beta_y_def
  by (rule ols_fit_exact, rule known_beta_exact [OF ex_nonneg ex_zero])
     (use ex_noiseless in \<open>simp add: noiseless_def ex_known_def\<close>)

theorem affine_recovery_witness:
  "\<exists>t. rcmeta ex_xp ex_yp = Inr t \<and>
     (\<exists>m. t 7 = Some m \<and> cd11 m = 2 \<and> cd12 m = 1 \<and> cd21 m = 1 \<and> cd22 m = 1 \<and>
        1 + 2 * crpix1 m + 1 * crpix2 m = 0 \<and> 2 + 1 * crpix1 m + 1 * crpix2 m = 0)"
proof -
  from affine_recovery [OF ex_noiseless ex_nonneg ex_three ex_det ex_xres ex_yres]
  obtain t where t: "rcmeta ex_xp ex_yp = Inr t"
    and all: "\<forall>i\<in>{0..63}. \<exists>m. t i = Some m \<and>
       cd11 m = k11 (ex_known i) \<and> cd12 m = k12 (ex_known i) \<and>
       cd21 m = k21 (ex_known i) \<and> cd22 m = k22 (ex_known i) \<and>
       koff1 (ex_known i) + k11 (ex_known i) * crpix1 m + k12 (ex_known i) * crpix2 m = 0 \<and>
       koff2 (ex_known i) + k21 (ex_known i) * crpix1 m + k22 (ex_known i) * crpix2 m = 0"
    by blast
  have "(7::int) \<in> {0..63}" by simp
  with all have "\<exists>m. t 7 = Some m \<and>
       cd11 m = k11 (ex_known 7) \<and> cd12 m = k12 (ex_known 7) \<and>
       cd21 m = k21 (ex_known 7) \<and> cd22 m = k22 (ex_known 7) \<and>
       koff1 (ex_known 7) + k11 (ex_known 7) * crpix1 m + k12 (ex_known 7) * crpix2 m = 0 \<and>
       koff2 (ex_known 7) + k21 (ex_known 7) * crpix1 m + k22 (ex_known 7) * crpix2 m = 0"
    by blast
  then have "\<exists>m. t 7 = Some m \<and> cd11 m = 2 \<and> cd12 m = 1 \<and> cd21 m = 1 \<and> cd22 m = 1 \<and>
        1 + 2 * crpix1 m + 1 * crpix2 m = 0 \<and> 2 + 1 * crpix1 m + 1 * crpix2 m = 0"
    by (simp add: ex_known_def)
  with t show ?thesis by blast
qed

text \<open>
  Claim C10.  The loop of cell 41 visits all of \<open>0..63\<close>.  For fits of a data frame in
  which quadrant \<open>i\<close> of that range has no observation, the loop body raises for
  \<open>i\<close> and the cell produces no dictionary; a dictionary that is produced has exactly
  the keys \<open>0..63\<close>, and then every quadrant has observations.
\<close>

theorem missing_quadrant_raises:
  assumes "xres_linear df xp" and "yres_linear df yp"
  shows "(0 \<le> i \<and> i \<le> 63 \<and> i \<notin> rcid ` set df \<longrightarrow>
            (\<exists>e. rcmeta_entry xp yp i = Inl e) \<and> (\<exists>e. rcmeta xp yp = Inl e)) \<and>
         (\<forall>t. rcmeta xp yp = Inr t \<longrightarrow> dom t = {0..63} \<and> {0..63} \<subseteq> rcid ` set df)"
proof -
  from assms(1) obtain \<beta> where xp: "xp = params_of (linear_columns (levels df)) \<beta>"
    unfolding xres_linear_def ols_fit_def by blast
  have absent: "\<exists>e. rcmeta_entry xp yp j = Inl e" if "j \<notin> rcid ` set df" for j
  proof (cases "rcmeta_entry xp yp j")
    case (Inl e)
    then show ?thesis by blast
  next
    case (Inr m)
    then obtain o1 where "xp (C_rcid j) = Some o1"
      unfolding rcmeta_entry_Inr by blast
    with that show ?thesis by (simp add: xp params_of_C levels_set)
  qed
  have first: "0 \<le> i \<and> i \<le> 63 \<and> i \<notin> rcid ` set df \<longrightarrow>
            (\<exists>e. rcmeta_entry xp yp i = Inl e) \<and> (\<exists>e. rcmeta xp yp = Inl e)"
  proof (intro impI)
    assume i: "0 \<le> i \<and> i \<le> 63 \<and> i \<notin> rcid ` set df"
    with absent obtain e where e: "rcmeta_entry xp yp i = Inl e" by blast
    from i rcmeta_failure [OF _ _ e] e
    show "(\<exists>e. rcmeta_entry xp yp i = Inl e) \<and> (\<exists>e. rcmeta xp yp = Inl e)" by blast
  qed
  have second: "dom t = {0..63} \<and> {0..63} \<subseteq> rcid ` set df" if t: "rcmeta xp yp = Inr t" for t
  proof -
    have "j \<in> rcid ` set df" if j: "j \<in> {0..63}" for j
    proof (rule ccontr)
      assume "j \<notin> rcid ` set df"
      with absent obtain e where e: "rcmeta_entry xp yp j = Inl e" by blast
      from j rcmeta_failure [OF _ _ e] t show False by auto
    qed
    with rcmeta_Inr(1) [OF t] show ?thesis by blast
  qed
  from first second show ?thesis by blast
qed

lemma ex_gap_fits: "xres_linear ex_df_gap ex_xp_gap" "yres_linear ex_df_gap ex_yp_gap"
proof -
  have nonneg: "\<forall>r\<in>set ex_df_gap. 0 \<le> rcid r" and zero: "0 \<in> rcid ` set ex_df_gap"
    by (simp_all add: ex_df_gap_def ex_stars_def)
  show "xres_linear ex_df_gap ex_xp_gap"
    unfolding xres_linear_def ex_xp_gap_def ex_beta_x_def
    by (rule ols_fit_exact, rule known_beta_exact [OF nonneg zero])
       (simp add: ex_df_gap_def ex_stars_def)
  show "yres_linear ex_df_gap ex_yp_gap"
    unfolding yres_linear_def ex_yp_gap_def ex_beta_y_def
    by (rule ols_fit_exact, rule known_beta_exact [OF nonneg zero])
       (simp add: ex_df_gap_def ex_stars_def)
qed

theorem missing_quadrant_raises_witness:
  "(\<exists>e. rcmeta_entry ex_xp_gap ex_yp_gap 1 = Inl e) \<and>
   (\<exists>e. rcmeta ex_xp_gap ex_yp_gap = Inl e) \<and>
   (\<exists>t. rcmeta ex_xp ex_yp = Inr t \<and> dom t = {0..63})"
proof -
  have gap: "0 \<le> (1::int) \<and> (1::int) \<le> 63 \<and> 1 \<notin> rcid ` set ex_df_gap"
    by (simp add: ex_df_gap_def ex_stars_def)
  from missing_quadrant_raises [OF ex_gap_fits, of 1] gap
  have a: "(\<exists>e. rcmeta_entry ex_xp_gap ex_yp_gap 1 = Inl e) \<and>
           (\<exists>e. rcmeta ex_xp_gap ex_yp_gap = Inl e)" by blast
  from missing_quadrant_raises [OF ex_xres ex_yres, of 0] ex_rcmeta
  have "dom ex_table = {0..63}" by blast
  with ex_rcmeta a show ?thesis by blast
qed

section \<open>Cell 64 and the header\<close>

lemma params_of_quadratic: "params_of quadratic_columns \<beta> n = Some (\<beta> n)"
  by (cases n) (simp_all add: params_of_def quadratic_columns_def)

text \<open>
  Claim C3, amended.  Cell 64 extracts ten coefficients, five per axis.  The first axis
  takes the coefficients of \<open>etalin\<close>, \<open>nulin\<close>, \<open>etalin\<^sup>2\<close>, \<open>etalin * nulin\<close>,
  \<open>nulin\<^sup>2\<close> of the fit of \<open>eta\<close> for \<open>PV1_1, PV1_2, PV1_4, PV1_5, PV1_6\<close>.  The
  second axis swaps the roles of the two coordinates in its linear terms as well as in
  its quadratic terms: \<open>PV2_1, PV2_2, PV2_4, PV2_5, PV2_6\<close> are the coefficients of
  \<open>nulin\<close>, \<open>etalin\<close>, \<open>nulin\<^sup>2\<close>, \<open>etalin * nulin\<close>, \<open>etalin\<^sup>2\<close> of the fit of
  \<open>nu\<close>.
\<close>

theorem pv_start_assignment:
  "pv_start (params_of quadratic_columns \<beta>x) (params_of quadratic_columns \<beta>y) =
     Inr [(''PV1_1'', \<beta>x Etalin),
          (''PV1_2'', \<beta>x Nulin),
          (''PV1_4'', \<beta>x Power_etalin_2),
          (''PV1_5'', \<beta>x Etalin_nulin),
          (''PV1_6'', \<beta>x Power_nulin_2),
          (''PV2_1'', \<beta>y Nulin),
          (''PV2_2'', \<beta>y Etalin),
          (''PV2_4'', \<beta>y Power_nulin_2),
          (''PV2_5'', \<beta>y Etalin_nulin),
          (''PV2_6'', \<beta>y Power_etalin_2)]"
  by (simp add: pv_start_def params_of_quadratic py_float_def bind_err_def)

text \<open>
  Claim C3 as stated fails: with the coefficients \<open>1\<close> for \<open>etalin\<close> and \<open>2\<close> for
  \<open>nulin\<close> in the fit of \<open>nu\<close>, cell 64 gives \<open>PV2_1 = 2\<close> and \<open>PV2_2 = 1\<close>,
  where the direct assignment gives \<open>PV2_1 = 1\<close> and \<open>PV2_2 = 2\<close>.
\<close>

theorem pv_start_linear_swap_counterexample:
  "pv_start ex_q ex_q =
     Inr [(''PV1_1'', 1), (''PV1_2'', 2), (''PV1_4'', 3), (''PV1_5'', 5), (''PV1_6'', 4),
          (''PV2_1'', 2), (''PV2_2'', 1), (''PV2_4'', 4), (''PV2_5'', 5), (''PV2_6'', 3)] \<and>
   pv_start_spec ex_q ex_q =
     Inr [(''PV1_1'', 1), (''PV1_2'', 2), (''PV1_4'', 3), (''PV1_5'', 5), (''PV1_6'', 4),
          (''PV2_1'', 1), (''PV2_2'', 2), (''PV2_4'', 4), (''PV2_5'', 5), (''PV2_6'', 3)] \<and>
   pv_start ex_q ex_q \<noteq> pv_start_spec ex_q ex_q"
  by (simp add: pv_start_def pv_start_spec_def ex_q_def params_of_quadratic py_float_def
      bind_err_def ex_qbeta_def)

lemma float_items_Inr:
  "float_items kvs = Inr pv \<Longrightarrow>
     pv = map (\<lambda>kv. (fst kv, the (snd kv))) kvs \<and> (\<forall>kv\<in>set kvs. snd kv \<noteq> None)"
proof (induction kvs arbitrary: pv)
  case Nil
  then show ?case by simp
next
  case (Cons kv kvs)
  obtain k v where kv: "kv = (k, v)" by (cases kv)
  from Cons.prems obtain u rest where v: "v = Some u"
    and rest: "float_items kvs = Inr rest" and pv: "pv = (k, u) # rest"
    unfolding kv by (cases v) (auto simp: py_float_def bind_err_def split: sum.splits)
  from Cons.IH [OF rest] show ?case by (simp add: pv kv v)
qed

lemma pv_start_Inr:
  assumes "pv_start xp yp = Inr pv"
  shows "pv = [(''PV1_1'', the (xp Etalin)),
          (''PV1_2'', the (xp Nulin)),
          (''PV1_4'', the (xp Power_etalin_2)),
          (''PV1_5'', the (xp Etalin_nulin)),
          (''PV1_6'', the (xp Power_nulin_2)),
          (''PV2_1'', the (yp Nulin)),
          (''PV2_2'', the (yp Etalin)),
          (''PV2_4'', the (yp Power_nulin_2)),
          (''PV2_5'', the (yp Etalin_nulin)),
          (''PV2_6'', the (yp Power_etalin_2))]"
  using float_items_Inr [OF assms [unfolded pv_start_def]] by simp

lemma output_header_eval:
  assumes a: "t my_rcid = Some a"
  shows "output_header telrad teldecd t
       [(''PV1_1'', v11), (''PV1_2'', v12), (''PV1_4'', v14), (''PV1_5'', v15), (''PV1_6'', v16),
        (''PV2_1'', v21), (''PV2_2'', v22), (''PV2_4'', v24), (''PV2_5'', v25), (''PV2_6'', v26)] =
     Inr [(''NAXIS'', HInt 2),
          (''NAXIS1'', HInt 3072),
          (''NAXIS2'', HInt 3080),
          (''CTYPE1'', HStr ''RA---TPV''),
          (''CTYPE2'', HStr ''DEC--TPV''),
          (''CRVAL1'', HFloat telrad),
          (''CRVAL2'', HFloat teldecd),
          (''CRPIX1'', HFloat (crpix1 a)),
          (''CRPIX2'', HFloat (crpix2 a)),
          (''CD1_1'', HFloat (cd11 a)),
          (''CD1_2'', HFloat (cd12 a)),
          (''CD2_1'', HFloat (cd21 a)),
          (''CD2_2'', HFloat (cd22 a)),
          (''PV1_1'', HFloat v11),
          (''PV1_2'', HFloat v12),
          (''PV1_4'', HFloat v14),
          (''PV1_5'', HFloat v15),
          (''PV1_6'', HFloat v16),
          (''PV2_1'', HFloat v21),
          (''PV2_2'', HFloat v22),
          (''PV2_4'', HFloat v24),
          (''PV2_5'', HFloat v25),
          (''PV2_6'', HFloat v26)]"
  by (simp add: output_header_def rcmeta_field_def pv_field_def a)

lemma ex_pv_start: "pv_start ex_q ex_q = Inr ex_pv"
  by (simp add: pv_start_def ex_q_def params_of_quadratic py_float_def bind_err_def
      ex_qbeta_def ex_pv_def)

lemma ex_output_header: "output_header 10 20 ex_table ex_pv = Inr ex_header"
proof -
  have "ex_table my_rcid = Some ex_affine" by (simp add: ex_table_def my_rcid_def)
  from output_header_eval [where t = ex_table and a = ex_affine, OF this] show ?thesis
    by (simp add: ex_pv_def ex_header_def ex_affine_def)
qed

text \<open>
  Claim C7.  When cell 41 has produced the dictionary and cell 64 the ten coefficients,
  the header of cells 73 and 74 is made without an exception and consists of these cards
  in this order: \<open>NAXIS\<close>, the two image dimensions, the two projection types, the
  reference position, the pixel origin and the four matrix entries of quadrant
  \<open>my_rcid\<close>, and the ten distortion coefficients under exactly the keys
  \<open>PV1_1, PV1_2, PV1_4, PV1_5, PV1_6, PV2_1, PV2_2, PV2_4, PV2_5, PV2_6\<close>.
\<close>

theorem output_header_cards:
  assumes "rcmeta lxp lyp = Inr t" and "pv_start qxp qyp = Inr pv"
  shows "\<exists>a v11 v12 v14 v15 v16 v21 v22 v24 v25 v26.
     rcmeta_entry lxp lyp my_rcid = Inr a \<and>
     pv = [(''PV1_1'', v11), (''PV1_2'', v12), (''PV1_4'', v14), (''PV1_5'', v15),
           (''PV1_6'', v16), (''PV2_1'', v21), (''PV2_2'', v22), (''PV2_4'', v24),
           (''PV2_5'', v25), (''PV2_6'', v26)] \<and>
     output_header telrad teldecd t pv =
       Inr [(''NAXIS'', HInt 2),
            (''NAXIS1'', HInt 3072),
            (''NAXIS2'', HInt 3080),
            (''CTYPE1'', HStr ''RA---TPV''),
            (''CTYPE2'', HStr ''DEC--TPV''),
            (''CRVAL1'', HFloat telrad),
            (''CRVAL2'', HFloat teldecd),
            (''CRPIX1'', HFloat (crpix1 a)),
            (''CRPIX2'', HFloat (crpix2 a)),
            (''CD1_1'', HFloat (cd11 a)),
            (''CD1_2'', HFloat (cd12 a)),
            (''CD2_1'', HFloat (cd21 a)),
            (''CD2_2'', HFloat (cd22 a)),
            (''PV1_1'', HFloat v11),
            (''PV1_2'', HFloat v12),
            (''PV1_4'', HFloat v14),
            (''PV1_5'', HFloat v15),
            (''PV1_6'', HFloat v16),
            (''PV2_1'', HFloat v21),
            (''PV2_2'', HFloat v22),
            (''PV2_4'', HFloat v24),
            (''PV2_5'', HFloat v25),
            (''PV2_6'', HFloat v26)]"
proof -
  have "my_rcid \<in> {0..63}" by (simp add: my_rcid_def)
  with rcmeta_Inr(1) [OF assms(1)] obtain a where a: "t my_rcid = Some a" by blast
  with rcmeta_Inr(2) [OF assms(1), of my_rcid a]
  have e: "rcmeta_entry lxp lyp my_rcid = Inr a" by (simp add: my_rcid_def)
  note pv = pv_start_Inr [OF assms(2)]
  have h: "output_header telrad teldecd t pv =
       Inr [(''NAXIS'', HInt 2),
            (''NAXIS1'', HInt 3072),
            (''NAXIS2'', HInt 3080),
            (''CTYPE1'', HStr ''RA---TPV''),
            (''CTYPE2'', HStr ''DEC--TPV''),
            (''CRVAL1'', HFloat telrad),
            (''CRVAL2'', HFloat teldecd),
            (''CRPIX1'', HFloat (crpix1 a)),
            (''CRPIX2'', HFloat (crpix2 a)),
            (''CD1_1'', HFloat (cd11 a)),
            (''CD1_2'', HFloat (cd12 a)),
            (''CD2_1'', HFloat (cd21 a)),
            (''CD2_2'', HFloat (cd22 a)),
            (''PV1_1'', HFloat (the (qxp Etalin))),
            (''PV1_2'', HFloat (the (qxp Nulin))),
            (''PV1_4'', HFloat (the (qxp Power_etalin_2))),
            (''PV1_5'', HFloat (the (qxp Etalin_nulin))),
            (''PV1_6'', HFloat (the (qxp Power_nulin_2))),
            (''PV2_1'', HFloat (the (qyp Nulin))),
            (''PV2_2'', HFloat (the (qyp Etalin))),
            (''PV2_4'', HFloat (the (qyp Power_nulin_2))),
            (''PV2_5'', HFloat (the (qyp Etalin_nulin))),
            (''PV2_6'', HFloat (the (qyp Power_etalin_2)))]"
    unfolding pv by (rule output_header_eval [where t = t and a = a, OF a])
  from e pv h show ?thesis by blast
qed

theorem output_header_cards_witness:
  "rcmeta ex_xp ex_yp = Inr ex_table \<and> pv_start ex_q ex_q = Inr ex_pv \<and>
   rcmeta_entry ex_xp ex_yp my_rcid = Inr ex_affine \<and>
   output_header 10 20 ex_table ex_pv = Inr ex_header"
proof -
  from output_header_cards [OF ex_rcmeta ex_pv_start, of 10 20]
  have "\<exists>a. rcmeta_entry ex_xp ex_yp my_rcid = Inr a" by blast
  then have "rcmeta_entry ex_xp ex_yp my_rcid = Inr ex_affine"
    by (simp add: ex_entry my_rcid_def)
  with ex_rcmeta ex_pv_start ex_output_header show ?thesis by simp
qed

lemma fitted_quadratic:
  "fittedvalue quadratic_columns quadratic_basis \<beta> r =
     \<beta> Intercept + \<beta> Power_etalin_2 * (etalin r)\<^sup>2 + \<beta> Power_nulin_2 * (nulin r)\<^sup>2
     + \<beta> Etalin * etalin r + \<beta> Nulin * nulin r + \<beta> Etalin_nulin * (etalin r * nulin r)"
  by (simp add: fittedvalue_def quadratic_columns_def)

lemma header_set_keys: "fst ` set (header_set h k v) = insert k (fst ` set h)"
proof (induction h)
  case Nil
  show ?case by simp
next
  case (Cons kv h)
  obtain k' v' where "kv = (k', v')" by (cases kv)
  with Cons show ?case by auto
qed

lemma set_all_keys:
  "set_all h0 kvs = Inr h \<Longrightarrow> fst ` set h = fst ` set h0 \<union> fst ` set kvs"
proof (induction kvs arbitrary: h0)
  case Nil
  then show ?case by simp
next
  case (Cons kv kvs)
  obtain k v where kv: "kv = (k, v)" by (cases kv)
  from Cons.prems obtain u where v: "v = Inr u"
    and rest: "set_all (header_set h0 k u) kvs = Inr h"
    unfolding kv by (cases v) auto
  from Cons.IH [OF rest] show ?case
    unfolding kv by (simp add: header_set_keys)
qed

lemma output_header_keys:
  assumes "output_header telrad teldecd t pv = Inr h"
  shows "''PV1_0'' \<notin> fst ` set h \<and> ''PV2_0'' \<notin> fst ` set h"
  using set_all_keys [OF assms [unfolded output_header_def]] by simp

text \<open>
  Claim C9.  The design matrix of the quadratic fits has the constant column
  \<open>Intercept\<close>.  For any coefficients of the two fits, the value the fitted model
  predicts is the coefficient of the intercept plus the polynomial that the ten
  extracted coefficients describe; the ten coefficients do not depend on the
  coefficients of the intercepts, and a header made from them has no card \<open>PV1_0\<close> or
  \<open>PV2_0\<close>.
\<close>

theorem intercept_dropped:
  fixes \<beta>x \<beta>y :: "qname \<Rightarrow> real"
  shows "Intercept \<in> set quadratic_columns \<and>
    (\<forall>r :: grow. quadratic_basis Intercept r = 1) \<and>
    (\<exists>pv. pv_start (params_of quadratic_columns \<beta>x) (params_of quadratic_columns \<beta>y) = Inr pv \<and>
       map fst pv = [''PV1_1'', ''PV1_2'', ''PV1_4'', ''PV1_5'', ''PV1_6'',
                     ''PV2_1'', ''PV2_2'', ''PV2_4'', ''PV2_5'', ''PV2_6''] \<and>
       (\<forall>r. fittedvalue quadratic_columns quadratic_basis \<beta>x r = \<beta>x Intercept + tpv_axis1 pv r) \<and>
       (\<forall>r. fittedvalue quadratic_columns quadratic_basis \<beta>y r = \<beta>y Intercept + tpv_axis2 pv r) \<and>
       (\<forall>c d. pv_start (params_of quadratic_columns (\<beta>x(Intercept := c)))
                       (params_of quadratic_columns (\<beta>y(Intercept := d))) = Inr pv) \<and>
       (\<forall>telrad teldecd t h. output_header telrad teldecd t pv = Inr h \<longrightarrow>
          ''PV1_0'' \<notin> fst ` set h \<and> ''PV2_0'' \<notin> fst ` set h))"
proof -
  let ?pv = "[(''PV1_1'', \<beta>x Etalin), (''PV1_2'', \<beta>x Nulin), (''PV1_4'', \<beta>x Power_etalin_2),
          (''PV1_5'', \<beta>x Etalin_nulin), (''PV1_6'', \<beta>x Power_nulin_2),
          (''PV2_1'', \<beta>y Nulin), (''PV2_2'', \<beta>y Etalin), (''PV2_4'', \<beta>y Power_nulin_2),
          (''PV2_5'', \<beta>y Etalin_nulin), (''PV2_6'', \<beta>y Power_etalin_2)]"
  have pv: "pv_start (params_of quadratic_columns bx) (params_of quadratic_columns by') =
      Inr [(''PV1_1'', bx Etalin), (''PV1_2'', bx Nulin), (''PV1_4'', bx Power_etalin_2),
          (''PV1_5'', bx Etalin_nulin), (''PV1_6'', bx Power_nulin_2),
          (''PV2_1'', by' Nulin), (''PV2_2'', by' Etalin), (''PV2_4'', by' Power_nulin_2),
          (''PV2_5'', by' Etalin_nulin), (''PV2_6'', by' Power_etalin_2)]" for bx by'
    by (simp add: pv_start_def params_of_quadratic py_float_def bind_err_def)
  have 1: "pv_start (params_of quadratic_columns \<beta>x) (params_of quadratic_columns \<beta>y) = Inr ?pv"
    by (rule pv)
  have 2: "map fst ?pv = [''PV1_1'', ''PV1_2'', ''PV1_4'', ''PV1_5'', ''PV1_6'',
                     ''PV2_1'', ''PV2_2'', ''PV2_4'', ''PV2_5'', ''PV2_6'']" by simp
  have 3: "\<forall>r. fittedvalue quadratic_columns quadratic_basis \<beta>x r = \<beta>x Intercept + tpv_axis1 ?pv r"
    by (simp add: fitted_quadratic tpv_axis1_def pv_get_def)
  have 4: "\<forall>r. fittedvalue quadratic_columns quadratic_basis \<beta>y r = \<beta>y Intercept + tpv_axis2 ?pv r"
    by (simp add: fitted_quadratic tpv_axis2_def pv_get_def mult.commute)
  have 5: "\<forall>c d. pv_start (params_of quadratic_columns (\<beta>x(Intercept := c)))
                       (params_of quadratic_columns (\<beta>y(Intercept := d))) = Inr ?pv"
    by (simp add: pv)
  have 6: "\<forall>telrad teldecd t h. output_header telrad teldecd t ?pv = Inr h \<longrightarrow>
          ''PV1_0'' \<notin> fst ` set h \<and> ''PV2_0'' \<notin> fst ` set h"
    using output_header_keys by blast
  have a: "Intercept \<in> set quadratic_columns"
    by (simp add: quadratic_columns_def)
  have b: "\<forall>r :: grow. quadratic_basis Intercept r = 1"
    by simp
  show ?thesis
    by (intro conjI a b exI [where x = ?pv] 1 2 3 4 5 6)
qed

theorem intercept_dropped_witness:
  "pv_start ex_q ex_q = Inr ex_pv \<and>
   pv_start (params_of quadratic_columns (ex_qbeta(Intercept := 0)))
            (params_of quadratic_columns (ex_qbeta(Intercept := 100))) = Inr ex_pv \<and>
   fittedvalue quadratic_columns quadratic_basis ex_qbeta ex_row = 6 + tpv_axis1 ex_pv ex_row \<and>
   fittedvalue quadratic_columns quadratic_basis ex_qbeta ex_row = 6 + tpv_axis2 ex_pv ex_row \<and>
   output_header 10 20 ex_table ex_pv = Inr ex_header \<and>
   ''PV1_0'' \<notin> fst ` set ex_header \<and> ''PV2_0'' \<notin> fst ` set ex_header"
proof -
  from intercept_dropped [of ex_qbeta ex_qbeta]
  obtain pv where pv: "pv_start ex_q ex_q = Inr pv"
    and f1: "\<forall>r. fittedvalue quadratic_columns quadratic_basis ex_qbeta r
                 = ex_qbeta Intercept + tpv_axis1 pv r"
    and f2: "\<forall>r. fittedvalue quadratic_columns quadratic_basis ex_qbeta r
                 = ex_qbeta Intercept + tpv_axis2 pv r"
    and ic: "\<forall>c d. pv_start (params_of quadratic_columns (ex_qbeta(Intercept := c)))
                       (params_of quadratic_columns (ex_qbeta(Intercept := d))) = Inr pv"
    and hd: "\<forall>telrad teldecd t h. output_header telrad teldecd t pv = Inr h \<longrightarrow>
          ''PV1_0'' \<notin> fst ` set h \<and> ''PV2_0'' \<notin> fst ` set h"
    unfolding ex_q_def by blast
  from pv ex_pv_start have eq: "pv = ex_pv" by simp
  have six: "ex_qbeta Intercept = 6" by (simp add: ex_qbeta_def)
  from hd ex_output_header
  have "''PV1_0'' \<notin> fst ` set ex_header \<and> ''PV2_0'' \<notin> fst ` set ex_header"
    unfolding eq by blast
  with f1 f2 ic ex_pv_start ex_output_header show ?thesis
    unfolding eq six by simp
qed

section \<open>The pixel origin is the zero of the fitted model\<close>

lemma cd_term_fitted_slope:
  assumes nonneg: "\<forall>r\<in>set df. 0 \<le> rcid r" and mem: "i \<in> rcid ` set df"
    and t: "cd_term (params_of (linear_columns (levels df)) \<beta>) X_image C_rcid_T_x_image i
              = Inr (Some a)"
      "cd_term (params_of (linear_columns (levels df)) \<beta>) Y_image C_rcid_T_y_image i
              = Inr (Some b)"
  shows "a = \<beta> X_image + (if i \<in> set (tl (levels df)) then \<beta> (C_rcid_T_x_image i) else 0)"
    and "b = \<beta> Y_image + (if i \<in> set (tl (levels df)) then \<beta> (C_rcid_T_y_image i) else 0)"
proof -
  from nonneg mem have i0: "0 \<le> i" by auto
  have tl_iff: "i \<in> set (tl (levels df)) \<longleftrightarrow> 0 < i"
  proof (cases "0 < i")
    case True
    with t(1) show ?thesis
      unfolding cd_term_params by (simp split: if_splits)
  next
    case False
    with i0 have "i = 0" by simp
    with mem have "0 \<in> rcid ` set df" by simp
    from levels_hd_zero(2) [OF nonneg this] \<open>i = 0\<close> show ?thesis by simp
  qed
  from t(1) show "a = \<beta> X_image + (if i \<in> set (tl (levels df)) then \<beta> (C_rcid_T_x_image i) else 0)"
    unfolding cd_term_params tl_iff by (simp split: if_splits)
  from t(2) show "b = \<beta> Y_image + (if i \<in> set (tl (levels df)) then \<beta> (C_rcid_T_y_image i) else 0)"
    unfolding cd_term_params tl_iff by (simp split: if_splits)
qed

text \<open>
  Claim C1.  Let the two series of parameters be those of any coefficient vectors of the
  linear model of a data frame without negative quadrant identifiers.  When the loop body
  of cell 41 finishes for quadrant \<open>i\<close>, the matrix of the entry is regular, the value the
  fitted model predicts for a star of quadrant \<open>i\<close> at the pixel \<open>(x, y)\<close> is the offset of
  the quadrant plus the matrix of the entry applied to \<open>(x, y)\<close>, the pair
  \<open>(crpix1, crpix2)\<close> is the inverse of the matrix times the negated offset pair, and
  it is the one and only pixel coordinate at which the fitted model of the quadrant
  predicts \<open>(0, 0)\<close>.
\<close>

theorem crpix_zero_point:
  assumes xp: "xp = params_of (linear_columns (levels df)) \<beta>x"
    and yp: "yp = params_of (linear_columns (levels df)) \<beta>y"
    and nonneg: "\<forall>r\<in>set df. 0 \<le> rcid r"
    and e: "rcmeta_entry xp yp i = Inr m"
  shows "\<exists>n. det2 (cd11 m, cd12 m, cd21 m, cd22 m) \<noteq> 0 \<and>
     matrix_inv (cd11 m, cd12 m, cd21 m, cd22 m) = Inr n \<and>
     (crpix1 m, crpix2 m) = matvec n (- \<beta>x (C_rcid i), - \<beta>y (C_rcid i)) \<and>
     (\<forall>x y e u.
        fittedvalue (linear_columns (levels df)) linear_basis \<beta>x
            \<lparr>rcid = i, x_image = x, y_image = y, eta = e, nu = u\<rparr>
          = \<beta>x (C_rcid i) + cd11 m * x + cd12 m * y \<and>
        fittedvalue (linear_columns (levels df)) linear_basis \<beta>y
            \<lparr>rcid = i, x_image = x, y_image = y, eta = e, nu = u\<rparr>
          = \<beta>y (C_rcid i) + cd21 m * x + cd22 m * y) \<and>
     (\<forall>x y e u.
        (fittedvalue (linear_columns (levels df)) linear_basis \<beta>x
            \<lparr>rcid = i, x_image = x, y_image = y, eta = e, nu = u\<rparr> = 0 \<and>
         fittedvalue (linear_columns (levels df)) linear_basis \<beta>y
            \<lparr>rcid = i, x_image = x, y_image = y, eta = e, nu = u\<rparr> = 0)
        \<longleftrightarrow> (x = crpix1 m \<and> y = crpix2 m))"
proof -
  let ?lv = "levels df"
  from e obtain a b c d where
    t: "cd_term xp X_image C_rcid_T_x_image i = Inr (Some a)"
       "cd_term xp Y_image C_rcid_T_y_image i = Inr (Some b)"
       "cd_term yp X_image C_rcid_T_x_image i = Inr (Some c)"
       "cd_term yp Y_image C_rcid_T_y_image i = Inr (Some d)"
    and cd: "cd11 m = a" "cd12 m = b" "cd21 m = c" "cd22 m = d"
    unfolding rcmeta_entry_Inr by auto
  from rcmeta_entry_crpix [OF e] obtain o1 o2 n where
    o: "xp (C_rcid i) = Some o1" "yp (C_rcid i) = Some o2" and
    D: "det2 (cd11 m, cd12 m, cd21 m, cd22 m) \<noteq> 0" and
    inv: "matrix_inv (cd11 m, cd12 m, cd21 m, cd22 m) = Inr n" and
    mv: "(crpix1 m, crpix2 m) = matvec n (- o1, - o2)" and
    sol: "\<forall>x y. (o1 + cd11 m * x + cd12 m * y = 0 \<and> o2 + cd21 m * x + cd22 m * y = 0)
               \<longleftrightarrow> (x = crpix1 m \<and> y = crpix2 m)"
    by blast
  from o(1) have mem: "i \<in> set ?lv" and o1: "o1 = \<beta>x (C_rcid i)"
    unfolding xp params_of_C by (simp_all split: if_splits)
  from o(2) have o2: "o2 = \<beta>y (C_rcid i)"
    unfolding yp params_of_C by (simp split: if_splits)
  from mem have memdf: "i \<in> rcid ` set df" by (simp add: levels_set)
  note sx = cd_term_fitted_slope [OF nonneg memdf t(1,2) [unfolded xp]]
  note sy = cd_term_fitted_slope [OF nonneg memdf t(3,4) [unfolded yp]]
  have fx: "fittedvalue (linear_columns ?lv) linear_basis \<beta>x
            \<lparr>rcid = i, x_image = x, y_image = y, eta = e, nu = u\<rparr>
          = \<beta>x (C_rcid i) + cd11 m * x + cd12 m * y" for x y e u
    unfolding cd sx using mem by (simp add: fitted_linear [OF levels_distinct])
  have fy: "fittedvalue (linear_columns ?lv) linear_basis \<beta>y
            \<lparr>rcid = i, x_image = x, y_image = y, eta = e, nu = u\<rparr>
          = \<beta>y (C_rcid i) + cd21 m * x + cd22 m * y" for x y e u
    unfolding cd sy using mem by (simp add: fitted_linear [OF levels_distinct])
  have zero: "(fittedvalue (linear_columns ?lv) linear_basis \<beta>x
            \<lparr>rcid = i, x_image = x, y_image = y, eta = e, nu = u\<rparr> = 0 \<and>
         fittedvalue (linear_columns ?lv) linear_basis \<beta>y
            \<lparr>rcid = i, x_image = x, y_image = y, eta = e, nu = u\<rparr> = 0)
        \<longleftrightarrow> (x = crpix1 m \<and> y = crpix2 m)" for x y e u
    unfolding fx fy using sol by (simp add: o1 o2)
  from D inv mv fx fy zero show ?thesis
    unfolding o1 o2 by blast
qed

lemma ex_entry5: "rcmeta_entry ex_xp5 ex_yp 5 = Inr ex_affine5"
  unfolding rcmeta_entry_Inr ex_xp5_def ex_yp_def levels_ex_df cd_term_params params_of_C
    tl_upto_0_63 matrix_inv_Inr
  by (auto simp: ex_beta_x5_def ex_beta_y_def known_beta_def ex_affine5_def matvec_def)

theorem crpix_zero_point_witness:
  "rcmeta_entry ex_xp5 ex_yp 5 = Inr ex_affine5 \<and>
   ex_beta_x5 X_image = 2 \<and> ex_beta_x5 (C_rcid_T_x_image 5) = 1 \<and>
   cd11 ex_affine5 = 3 \<and> crpix1 ex_affine5 = 1 / 2 \<and> crpix2 ex_affine5 = - (5 / 2) \<and>
   (\<forall>x y e u.
      (fittedvalue (linear_columns (levels ex_df)) linear_basis ex_beta_x5
          \<lparr>rcid = 5, x_image = x, y_image = y, eta = e, nu = u\<rparr> = 0 \<and>
       fittedvalue (linear_columns (levels ex_df)) linear_basis ex_beta_y
          \<lparr>rcid = 5, x_image = x, y_image = y, eta = e, nu = u\<rparr> = 0)
      \<longleftrightarrow> (x = 1 / 2 \<and> y = - (5 / 2)))"
proof -
  have v: "ex_beta_x5 X_image = 2 \<and> ex_beta_x5 (C_rcid_T_x_image 5) = 1 \<and>
     cd11 ex_affine5 = 3 \<and> crpix1 ex_affine5 = 1 / 2 \<and> crpix2 ex_affine5 = - (5 / 2)"
    by (simp add: ex_beta_x5_def known_beta_def ex_affine5_def)
  from crpix_zero_point [OF ex_xp5_def ex_yp_def ex_nonneg ex_entry5]
  have "\<forall>x y e u.
      (fittedvalue (linear_columns (levels ex_df)) linear_basis ex_beta_x5
          \<lparr>rcid = 5, x_image = x, y_image = y, eta = e, nu = u\<rparr> = 0 \<and>
       fittedvalue (linear_columns (levels ex_df)) linear_basis ex_beta_y
          \<lparr>rcid = 5, x_image = x, y_image = y, eta = e, nu = u\<rparr> = 0)
      \<longleftrightarrow> (x = crpix1 ex_affine5 \<and> y = crpix2 ex_affine5)"
    by blast
  then have "\<forall>x y e u.
      (fittedvalue (linear_columns (levels ex_df)) linear_basis ex_beta_x5
          \<lparr>rcid = 5, x_image = x, y_image = y, eta = e, nu = u\<rparr> = 0 \<and>
       fittedvalue (linear_columns (levels ex_df)) linear_basis ex_beta_y
          \<lparr>rcid = 5, x_image = x, y_image = y, eta = e, nu = u\<rparr> = 0)
      \<longleftrightarrow> (x = 1 / 2 \<and> y = - (5 / 2))"
    by (simp add: ex_affine5_def)
  with ex_entry5 v show ?thesis by blast
qed

section \<open>The inversion of cell 41 on doubles\<close>

lemma pow2_powr: "pow2 e = 2 powr of_int e"
  by (simp add: pow2_def powr_real_of_int inverse_eq_divide)

lemma fl_eval:
  assumes lo: "pow2 k \<le> \<bar>x\<bar>" and hi: "\<bar>x\<bar> < pow2 (k + 1)"
  shows "fl x = of_int (rne (x / pow2 (k - 52))) * pow2 (k - 52)"
proof -
  have "0 < pow2 k" by (simp add: pow2_powr)
  with lo have pos: "0 < \<bar>x\<bar>" by linarith
  then have nz: "x \<noteq> 0" by auto
  have "\<lfloor>log 2 \<bar>x\<bar>\<rfloor> = k"
    using lo hi pos by (simp add: floor_log_eq_powr_iff pow2_powr)
  with nz show ?thesis by (simp add: fl_def Let_def)
qed

lemma fl_recip_49: "fl (1 / 49) = 5882252574524729 / 2 ^ 58"
proof -
  have "fl (1 / 49) = of_int (rne ((1 / 49) / pow2 (- 6 - 52))) * pow2 (- 6 - 52)"
    by (rule fl_eval) (simp_all add: pow2_def)
  also have "\<dots> = 5882252574524729 / 2 ^ 58"
    by (simp add: pow2_def rne_def Let_def)
  finally show ?thesis .
qed

lemma fl_double_49: "fl (5882252574524729 / 2 ^ 58) = 5882252574524729 / 2 ^ 58"
proof -
  have "fl (5882252574524729 / 2 ^ 58)
          = of_int (rne ((5882252574524729 / 2 ^ 58) / pow2 (- 6 - 52))) * pow2 (- 6 - 52)"
    by (rule fl_eval) (simp_all add: pow2_def)
  also have "\<dots> = 5882252574524729 / 2 ^ 58"
    by (simp add: pow2_def rne_def Let_def)
  finally show ?thesis .
qed

lemma fl_product_49: "fl (5882252574524729 / 2 ^ 58 * 49) = 9007199254740991 / 2 ^ 53"
proof -
  have "fl (5882252574524729 / 2 ^ 58 * 49)
          = of_int (rne ((5882252574524729 / 2 ^ 58 * 49) / pow2 (- 1 - 52))) * pow2 (- 1 - 52)"
    by (rule fl_eval) (simp_all add: pow2_def)
  also have "\<dots> = 9007199254740991 / 2 ^ 53"
    by (simp add: pow2_def rne_def Let_def)
  finally show ?thesis .
qed

lemma fl_difference_49: "fl (1 - 9007199254740991 / 2 ^ 53) = 1 / 2 ^ 53"
proof -
  have "fl (1 - 9007199254740991 / 2 ^ 53)
          = of_int (rne ((1 - 9007199254740991 / 2 ^ 53) / pow2 (- 53 - 52))) * pow2 (- 53 - 52)"
    by (rule fl_eval) (simp_all add: pow2_def)
  also have "\<dots> = 1 / 2 ^ 53"
    by (simp add: pow2_def rne_def Let_def)
  finally show ?thesis .
qed

lemma lu_second_pivot_49: "lu_second_pivot (49, 49, 1, 1) = 1 / 2 ^ 53"
proof -
  have "lu_second_pivot (49, 49, 1, 1) = fl (1 - fl (fl (1 * fl (1 / 49)) * 49))"
    by (simp add: lu_second_pivot_def Let_def)
  also have "\<dots> = fl (1 - fl (fl (5882252574524729 / 2 ^ 58) * 49))"
    by (simp only: fl_recip_49 mult_1)
  also have "\<dots> = fl (1 - fl (5882252574524729 / 2 ^ 58 * 49))"
    by (simp only: fl_double_49)
  also have "\<dots> = fl (1 - 9007199254740991 / 2 ^ 53)"
    by (simp only: fl_product_49)
  also have "\<dots> = 1 / 2 ^ 53"
    by (rule fl_difference_49)
  finally show ?thesis .
qed

lemma rcmeta_entry_with_exact: "rcmeta_entry_with matrix_inv xp yp i = rcmeta_entry xp yp i"
  by (simp add: rcmeta_entry_with_def rcmeta_entry_def)

lemma rcmeta_loop_with_exact: "rcmeta_loop_with matrix_inv xp yp ids m = rcmeta_loop xp yp ids m"
  by (induction ids arbitrary: m) (simp_all add: rcmeta_entry_with_exact split: sum.splits)

lemma rcmeta_with_exact: "rcmeta_with matrix_inv xp yp = rcmeta xp yp"
  by (simp add: rcmeta_with_def rcmeta_def rcmeta_loop_with_exact)

lemma rcmeta_loop_with_first_failure:
  "\<forall>j\<in>set pre. \<exists>a. rcmeta_entry_with invert xp yp j = Inr a \<Longrightarrow>
   rcmeta_entry_with invert xp yp i = Inl e \<Longrightarrow>
     rcmeta_loop_with invert xp yp (pre @ i # post) m = Inl e"
  by (induction pre arbitrary: m) auto

lemma rcmeta_loop_with_failure:
  "i \<in> set ids \<Longrightarrow> rcmeta_entry_with invert xp yp i = Inl e \<Longrightarrow>
     \<exists>e'. rcmeta_loop_with invert xp yp ids m = Inl e'"
proof (induction ids arbitrary: m)
  case Nil
  then show ?case by simp
next
  case (Cons j ids)
  show ?case
  proof (cases "rcmeta_entry_with invert xp yp j")
    case (Inl e')
    then show ?thesis by simp
  next
    case (Inr a)
    with Cons.prems have "i \<in> set ids" by auto
    from Cons.IH [OF this Cons.prems(2)] Inr show ?thesis by simp
  qed
qed

text \<open>
  Claim C6, amended.  Whatever the inversion does elsewhere: when it raises for the
  matrix of quadrant \<open>i\<close>, the loop body raises that error for \<open>i\<close>, cell 41 produces
  no dictionary, hence no entry for the quadrant, defaulted or not, and when every
  earlier quadrant went through, that error is what the cell raises.  That a matrix of
  determinant zero makes the inversion raise is not part of the statement.
\<close>

theorem inversion_error_ends_cell:
  assumes "cd_term xp X_image C_rcid_T_x_image i = Inr (Some a)"
    and "cd_term xp Y_image C_rcid_T_y_image i = Inr (Some b)"
    and "cd_term yp X_image C_rcid_T_x_image i = Inr (Some c)"
    and "cd_term yp Y_image C_rcid_T_y_image i = Inr (Some d)"
    and "invert (a, b, c, d) = Inl e" and "0 \<le> i" and "i \<le> 63"
  shows "rcmeta_entry_with invert xp yp i = Inl e \<and>
         (\<exists>e'. rcmeta_with invert xp yp = Inl e') \<and>
         ((\<forall>j. 0 \<le> j \<and> j < i \<longrightarrow> (\<exists>m. rcmeta_entry_with invert xp yp j = Inr m))
            \<longrightarrow> rcmeta_with invert xp yp = Inl e)"
proof -
  have entry: "rcmeta_entry_with invert xp yp i = Inl e"
    using assms(1-5)
    by (simp add: rcmeta_entry_with_def bind_err_def np_matrix_def)
  have mem: "i \<in> set [0..63]" using assms(6,7) by simp
  from rcmeta_loop_with_failure [OF mem entry]
  have fails: "\<exists>e'. rcmeta_with invert xp yp = Inl e'"
    by (simp add: rcmeta_with_def)
  have first: "rcmeta_with invert xp yp = Inl e"
    if earlier: "\<forall>j. 0 \<le> j \<and> j < i \<longrightarrow> (\<exists>m. rcmeta_entry_with invert xp yp j = Inr m)"
  proof -
    have split: "[0..63] = [0..i - 1] @ i # [i + 1..63]"
      using assms(6,7) by (rule upto_split3)
    have pre: "\<forall>j\<in>set [0..i - 1]. \<exists>a. rcmeta_entry_with invert xp yp j = Inr a"
      using earlier by simp
    show ?thesis
      unfolding rcmeta_with_def split
      by (rule rcmeta_loop_with_first_failure [OF pre entry])
  qed
  from entry fails first show ?thesis by blast
qed

theorem inversion_error_ends_cell_witness:
  "rcmeta_entry_with matrix_inv ex_singular ex_singular 0 = Inl LinAlgError \<and>
   rcmeta_with matrix_inv ex_singular ex_singular = Inl LinAlgError \<and>
   rcmeta ex_singular ex_singular = Inl LinAlgError"
proof -
  have t: "cd_term ex_singular X_image C_rcid_T_x_image 0 = Inr (Some 1)"
    "cd_term ex_singular Y_image C_rcid_T_y_image 0 = Inr (Some 1)"
    by (simp_all add: ex_singular_def cd_term_params known_beta_def)
  have r: "matrix_inv (1, 1, 1, 1) = Inl LinAlgError"
    by (simp add: matrix_inv_def det2_def)
  have z: "(0::int) \<le> 0" "(0::int) \<le> 63" by simp_all
  from inversion_error_ends_cell [where invert = matrix_inv, OF t t r z]
  have "rcmeta_entry_with matrix_inv ex_singular ex_singular 0 = Inl LinAlgError \<and>
        rcmeta_with matrix_inv ex_singular ex_singular = Inl LinAlgError"
    by auto
  then show ?thesis by (simp add: rcmeta_with_exact)
qed

lemma fl_recip_3: "fl (1 / 3) = 6004799503160661 / 2 ^ 54"
proof -
  have "fl (1 / 3) = of_int (rne ((1 / 3) / pow2 (- 2 - 52))) * pow2 (- 2 - 52)"
    by (rule fl_eval) (simp_all add: pow2_def)
  also have "\<dots> = 6004799503160661 / 2 ^ 54"
    by (simp add: pow2_def rne_def Let_def)
  finally show ?thesis .
qed

lemma fl_double_3: "fl (6004799503160661 / 2 ^ 54) = 6004799503160661 / 2 ^ 54"
proof -
  have "fl (6004799503160661 / 2 ^ 54)
          = of_int (rne ((6004799503160661 / 2 ^ 54) / pow2 (- 2 - 52))) * pow2 (- 2 - 52)"
    by (rule fl_eval) (simp_all add: pow2_def)
  also have "\<dots> = 6004799503160661 / 2 ^ 54"
    by (simp add: pow2_def rne_def Let_def)
  finally show ?thesis .
qed

lemma fl_one: "fl 1 = 1"
proof -
  have "fl 1 = of_int (rne (1 / pow2 (0 - 52))) * pow2 (0 - 52)"
    by (rule fl_eval) (simp_all add: pow2_def)
  also have "\<dots> = 1"
    by (simp add: pow2_def rne_def Let_def)
  finally show ?thesis .
qed

lemma lu_second_pivot_3: "lu_second_pivot (3, 1, 1, 6004799503160661 / 2 ^ 54) = 0"
proof -
  have "lu_second_pivot (3, 1, 1, 6004799503160661 / 2 ^ 54)
          = fl (6004799503160661 / 2 ^ 54 - fl (fl (1 * fl (1 / 3)) * 1))"
    by (simp add: lu_second_pivot_def Let_def)
  also have "\<dots> = fl (6004799503160661 / 2 ^ 54 - fl (fl (6004799503160661 / 2 ^ 54)))"
    by (simp only: fl_recip_3 mult_1 mult_1_right)
  also have "\<dots> = fl (6004799503160661 / 2 ^ 54 - 6004799503160661 / 2 ^ 54)"
    by (simp only: fl_double_3)
  also have "\<dots> = 0"
    by (simp add: fl_def)
  finally show ?thesis .
qed

lemma lu_second_pivot_1: "lu_second_pivot (1, 1, 1, 1) = 0"
proof -
  have "lu_second_pivot (1, 1, 1, 1) = fl (1 - fl (fl (1 * fl (1 / 1)) * 1))"
    by (simp add: lu_second_pivot_def Let_def)
  also have "\<dots> = fl (1 - 1)"
    by (simp only: div_by_1 fl_one mult_1)
  also have "\<dots> = 0"
    by (simp add: fl_def)
  finally show ?thesis .
qed

text \<open>
  Claim C6 as stated fails on doubles.  The matrix \<open>((49, 49), (1, 1))\<close> has
  determinant zero, but the rounded reciprocal of \<open>49\<close> times \<open>49\<close> rounds to
  \<open>1 - 1 / 2 ^ 53\<close>, so the second pivot is \<open>1 / 2 ^ 53\<close> and the inversion does not
  raise.  The matrix \<open>((1, 1), (1, 1))\<close> does raise, and so does the regular matrix
  \<open>((3, 1), (1, fl (1/3)))\<close>.
\<close>

theorem singular_matrix_inverted_counterexample:
  "cd_term ex_xp49 X_image C_rcid_T_x_image 0 = Inr (Some 49) \<and>
   cd_term ex_xp49 Y_image C_rcid_T_y_image 0 = Inr (Some 49) \<and>
   cd_term ex_singular X_image C_rcid_T_x_image 0 = Inr (Some 1) \<and>
   cd_term ex_singular Y_image C_rcid_T_y_image 0 = Inr (Some 1) \<and>
   det2 (49, 49, 1, 1) = 0 \<and>
   lu_second_pivot (49, 49, 1, 1) = 1 / 2 ^ 53 \<and>
   \<not> lu_zero_pivot (49, 49, 1, 1) \<and>
   lu_zero_pivot (1, 1, 1, 1) \<and>
   det2 (3, 1, 1, 6004799503160661 / 2 ^ 54) \<noteq> 0 \<and>
   lu_zero_pivot (3, 1, 1, 6004799503160661 / 2 ^ 54)"
proof -
  have t49: "cd_term ex_xp49 X_image C_rcid_T_x_image 0 = Inr (Some 49)"
    "cd_term ex_xp49 Y_image C_rcid_T_y_image 0 = Inr (Some 49)"
    by (simp_all add: ex_xp49_def cd_term_params known_beta_def)
  have t1: "cd_term ex_singular X_image C_rcid_T_x_image 0 = Inr (Some 1)"
    "cd_term ex_singular Y_image C_rcid_T_y_image 0 = Inr (Some 1)"
    by (simp_all add: ex_singular_def cd_term_params known_beta_def)
  have d49: "det2 (49, 49, 1, 1) = 0"
    by (simp add: det2_def)
  have z49: "\<not> lu_zero_pivot (49, 49, 1, 1)"
    by (simp add: lu_zero_pivot_def lu_second_pivot_49)
  have z1: "lu_zero_pivot (1, 1, 1, 1)"
    by (simp add: lu_zero_pivot_def lu_second_pivot_1)
  have d3: "det2 (3, 1, 1, 6004799503160661 / 2 ^ 54) \<noteq> 0"
    by (simp add: det2_def)
  have z3: "lu_zero_pivot (3, 1, 1, 6004799503160661 / 2 ^ 54)"
    unfolding lu_zero_pivot_def prod.case lu_second_pivot_3 by simp
  show ?thesis
    by (intro conjI t49 t1 d49 lu_second_pivot_49 z49 z1 d3 z3)
qed

section \<open>A scale on the projected coordinates\<close>

text \<open>
  Two minimisers of the sum of squared residuals have the same fitted values, so the
  minimiser of least norm is unique: the fit is a function of the data.
\<close>

lemma fittedvalue_midpoint:
  "fittedvalue names basis (\<lambda>n. (\<beta>1 n + \<beta>2 n) / 2) r
     = (fittedvalue names basis \<beta>1 r + fittedvalue names basis \<beta>2 r) / 2"
proof -
  have row: "(\<beta>1 n + \<beta>2 n) / 2 * basis n r = (1 / 2) * (\<beta>1 n * basis n r + \<beta>2 n * basis n r)"
    for n
    by (simp add: field_simps)
  have "(\<Sum>n\<leftarrow>names. (\<beta>1 n + \<beta>2 n) / 2 * basis n r)
          = (\<Sum>n\<leftarrow>names. (1 / 2) * (\<beta>1 n * basis n r + \<beta>2 n * basis n r))"
    by (simp only: row)
  also have "\<dots> = (1 / 2) * (\<Sum>n\<leftarrow>names. \<beta>1 n * basis n r + \<beta>2 n * basis n r)"
    by (rule sum_list_const_mult)
  also have "\<dots> = (1 / 2) * ((\<Sum>n\<leftarrow>names. \<beta>1 n * basis n r) + (\<Sum>n\<leftarrow>names. \<beta>2 n * basis n r))"
    by (simp only: sum_list_addf)
  finally show ?thesis
    unfolding fittedvalue_def by simp
qed

lemma ssr_midpoint:
  "ssr names basis resp df (\<lambda>n. (\<beta>1 n + \<beta>2 n) / 2)
     = (ssr names basis resp df \<beta>1 + ssr names basis resp df \<beta>2) / 2
       - (\<Sum>r\<leftarrow>df. ((fittedvalue names basis \<beta>1 r - fittedvalue names basis \<beta>2 r) / 2)\<^sup>2)"
proof -
  have row: "(resp r - (u + v) / 2)\<^sup>2 = ((resp r - u)\<^sup>2 + (resp r - v)\<^sup>2) / 2 - ((u - v) / 2)\<^sup>2"
    for r and u v :: real
    by (simp add: power2_eq_square field_simps)
  have "ssr names basis resp df (\<lambda>n. (\<beta>1 n + \<beta>2 n) / 2)
          = (\<Sum>r\<leftarrow>df. ((resp r - fittedvalue names basis \<beta>1 r)\<^sup>2
                        + (resp r - fittedvalue names basis \<beta>2 r)\<^sup>2) / 2
                      - ((fittedvalue names basis \<beta>1 r - fittedvalue names basis \<beta>2 r) / 2)\<^sup>2)"
    unfolding ssr_def fittedvalue_midpoint by (simp only: row)
  also have "\<dots> = (\<Sum>r\<leftarrow>df. ((resp r - fittedvalue names basis \<beta>1 r)\<^sup>2
                        + (resp r - fittedvalue names basis \<beta>2 r)\<^sup>2) / 2)
                 - (\<Sum>r\<leftarrow>df. ((fittedvalue names basis \<beta>1 r - fittedvalue names basis \<beta>2 r) / 2)\<^sup>2)"
    by (rule sum_list_subtractf)
  also have "(\<Sum>r\<leftarrow>df. ((resp r - fittedvalue names basis \<beta>1 r)\<^sup>2
                        + (resp r - fittedvalue names basis \<beta>2 r)\<^sup>2) / 2)
             = (ssr names basis resp df \<beta>1 + ssr names basis resp df \<beta>2) / 2"
  proof -
    have "(\<Sum>r\<leftarrow>df. ((resp r - fittedvalue names basis \<beta>1 r)\<^sup>2
                        + (resp r - fittedvalue names basis \<beta>2 r)\<^sup>2) / 2)
          = (\<Sum>r\<leftarrow>df. (1 / 2) * ((resp r - fittedvalue names basis \<beta>1 r)\<^sup>2
                        + (resp r - fittedvalue names basis \<beta>2 r)\<^sup>2))"
      by simp
    also have "\<dots> = (1 / 2) * (\<Sum>r\<leftarrow>df. (resp r - fittedvalue names basis \<beta>1 r)\<^sup>2
                        + (resp r - fittedvalue names basis \<beta>2 r)\<^sup>2)"
      by (rule sum_list_const_mult)
    finally show ?thesis
      unfolding ssr_def by (simp add: sum_list_addf)
  qed
  finally show ?thesis .
qed

lemma sqnorm_midpoint:
  "sqnorm names (\<lambda>n. (\<beta>1 n + \<beta>2 n) / 2)
     = (sqnorm names \<beta>1 + sqnorm names \<beta>2) / 2 - (\<Sum>n\<leftarrow>names. ((\<beta>1 n - \<beta>2 n) / 2)\<^sup>2)"
proof -
  have row: "((u + v) / 2)\<^sup>2 = (u\<^sup>2 + v\<^sup>2) / 2 - ((u - v) / 2)\<^sup>2" for u v :: real
    by (simp add: power2_eq_square field_simps)
  have "sqnorm names (\<lambda>n. (\<beta>1 n + \<beta>2 n) / 2)
          = (\<Sum>n\<leftarrow>names. ((\<beta>1 n)\<^sup>2 + (\<beta>2 n)\<^sup>2) / 2 - ((\<beta>1 n - \<beta>2 n) / 2)\<^sup>2)"
    unfolding sqnorm_def by (simp only: row)
  also have "\<dots> = (\<Sum>n\<leftarrow>names. ((\<beta>1 n)\<^sup>2 + (\<beta>2 n)\<^sup>2) / 2)
                 - (\<Sum>n\<leftarrow>names. ((\<beta>1 n - \<beta>2 n) / 2)\<^sup>2)"
    by (rule sum_list_subtractf)
  also have "(\<Sum>n\<leftarrow>names. ((\<beta>1 n)\<^sup>2 + (\<beta>2 n)\<^sup>2) / 2) = (sqnorm names \<beta>1 + sqnorm names \<beta>2) / 2"
  proof -
    have "(\<Sum>n\<leftarrow>names. ((\<beta>1 n)\<^sup>2 + (\<beta>2 n)\<^sup>2) / 2)
            = (\<Sum>n\<leftarrow>names. (1 / 2) * ((\<beta>1 n)\<^sup>2 + (\<beta>2 n)\<^sup>2))"
      by simp
    also have "\<dots> = (1 / 2) * (\<Sum>n\<leftarrow>names. (\<beta>1 n)\<^sup>2 + (\<beta>2 n)\<^sup>2)"
      by (rule sum_list_const_mult)
    finally show ?thesis
      unfolding sqnorm_def by (simp add: sum_list_addf)
  qed
  finally show ?thesis .
qed

lemma sum_list_squares_zero:
  fixes g :: "'a \<Rightarrow> real"
  assumes "(\<Sum>x\<leftarrow>xs. (g x)\<^sup>2) \<le> 0"
  shows "\<forall>x\<in>set xs. g x = 0"
proof -
  have nonneg: "0 \<le> (\<Sum>x\<leftarrow>xs. (g x)\<^sup>2)"
    by (rule sum_list_nonneg) auto
  with assms have "(\<Sum>x\<leftarrow>xs. (g x)\<^sup>2) = 0" by simp
  moreover have "(\<Sum>x\<leftarrow>xs. (g x)\<^sup>2) = 0 \<longleftrightarrow> (\<forall>v\<in>set (map (\<lambda>x. (g x)\<^sup>2) xs). v = 0)"
    by (rule sum_list_nonneg_eq_0_iff) auto
  ultimately show ?thesis by auto
qed

lemma minimisers_fitted_equal:
  assumes m1: "\<forall>\<beta>'. ssr names basis resp df \<beta>1 \<le> ssr names basis resp df \<beta>'"
    and m2: "\<forall>\<beta>'. ssr names basis resp df \<beta>2 \<le> ssr names basis resp df \<beta>'"
  shows "\<forall>r\<in>set df. fittedvalue names basis \<beta>1 r = fittedvalue names basis \<beta>2 r"
    and "\<forall>\<beta>'. ssr names basis resp df (\<lambda>n. (\<beta>1 n + \<beta>2 n) / 2) \<le> ssr names basis resp df \<beta>'"
proof -
  let ?mid = "\<lambda>n. (\<beta>1 n + \<beta>2 n) / 2"
  let ?S = "\<Sum>r\<leftarrow>df. ((fittedvalue names basis \<beta>1 r - fittedvalue names basis \<beta>2 r) / 2)\<^sup>2"
  from m1 m2 have eq: "ssr names basis resp df \<beta>1 = ssr names basis resp df \<beta>2"
    by (simp add: order_antisym)
  from m1 have "ssr names basis resp df \<beta>1 \<le> ssr names basis resp df ?mid" by blast
  with ssr_midpoint [of names basis resp df \<beta>1 \<beta>2] eq have S: "?S \<le> 0" by simp
  from sum_list_squares_zero [OF S]
  show "\<forall>r\<in>set df. fittedvalue names basis \<beta>1 r = fittedvalue names basis \<beta>2 r" by simp
  have "0 \<le> ?S" by (rule sum_list_nonneg) auto
  with ssr_midpoint [of names basis resp df \<beta>1 \<beta>2] eq
  have "ssr names basis resp df ?mid \<le> ssr names basis resp df \<beta>1" by simp
  with m1 show "\<forall>\<beta>'. ssr names basis resp df ?mid \<le> ssr names basis resp df \<beta>'"
    by (meson order_trans)
qed

lemma pinv_fit_unique:
  assumes p1: "pinv_fit names basis resp df p1" and p2: "pinv_fit names basis resp df p2"
  shows "p1 = p2"
proof -
  from p1 obtain \<beta>1 where b1: "p1 = params_of names \<beta>1"
    and m1: "\<forall>\<beta>'. ssr names basis resp df \<beta>1 \<le> ssr names basis resp df \<beta>'"
    and n1: "\<forall>\<beta>'. (\<forall>\<beta>''. ssr names basis resp df \<beta>' \<le> ssr names basis resp df \<beta>'')
                  \<longrightarrow> sqnorm names \<beta>1 \<le> sqnorm names \<beta>'"
    unfolding pinv_fit_def by blast
  from p2 obtain \<beta>2 where b2: "p2 = params_of names \<beta>2"
    and m2: "\<forall>\<beta>'. ssr names basis resp df \<beta>2 \<le> ssr names basis resp df \<beta>'"
    and n2: "\<forall>\<beta>'. (\<forall>\<beta>''. ssr names basis resp df \<beta>' \<le> ssr names basis resp df \<beta>'')
                  \<longrightarrow> sqnorm names \<beta>2 \<le> sqnorm names \<beta>'"
    unfolding pinv_fit_def by blast
  let ?mid = "\<lambda>n. (\<beta>1 n + \<beta>2 n) / 2"
  let ?S = "\<Sum>n\<leftarrow>names. ((\<beta>1 n - \<beta>2 n) / 2)\<^sup>2"
  from n1 m2 n2 m1 have eq: "sqnorm names \<beta>1 = sqnorm names \<beta>2"
    by (simp add: order_antisym)
  note mid = minimisers_fitted_equal(2) [OF m1 m2]
  from n1 mid have "sqnorm names \<beta>1 \<le> sqnorm names ?mid" by blast
  with sqnorm_midpoint [of names \<beta>1 \<beta>2] eq have "?S \<le> 0" by simp
  from sum_list_squares_zero [OF this] have "\<forall>n\<in>set names. \<beta>1 n = \<beta>2 n" by simp
  then show ?thesis
    unfolding b1 b2 params_of_def by auto
qed

lemma full_rank_minimisers_agree:
  assumes fr: "full_rank names basis df"
    and m1: "\<forall>\<beta>'. ssr names basis resp df \<beta>1 \<le> ssr names basis resp df \<beta>'"
    and m2: "\<forall>\<beta>'. ssr names basis resp df \<beta>2 \<le> ssr names basis resp df \<beta>'"
  shows "\<forall>n\<in>set names. \<beta>1 n = \<beta>2 n"
proof -
  have lin: "fittedvalue names basis (\<lambda>n. \<beta>1 n - \<beta>2 n) r
               = fittedvalue names basis \<beta>1 r - fittedvalue names basis \<beta>2 r" for r
    unfolding fittedvalue_def by (simp add: algebra_simps sum_list_subtractf)
  from minimisers_fitted_equal(1) [OF m1 m2]
  have "\<forall>r\<in>set df. fittedvalue names basis (\<lambda>n. \<beta>1 n - \<beta>2 n) r = 0"
    by (simp add: lin)
  with fr have "\<forall>n\<in>set names. \<beta>1 n - \<beta>2 n = 0"
    unfolding full_rank_def by blast
  then show ?thesis by simp
qed

lemma full_rank_pinv_fit:
  assumes fr: "full_rank names basis df" and fit: "ols_fit names basis resp df p"
  shows "pinv_fit names basis resp df p"
proof -
  from fit obtain \<beta> where p: "p = params_of names \<beta>"
    and m: "\<forall>\<beta>'. ssr names basis resp df \<beta> \<le> ssr names basis resp df \<beta>'"
    unfolding ols_fit_def by blast
  have "sqnorm names \<beta> \<le> sqnorm names \<beta>'"
    if m': "\<forall>\<beta>''. ssr names basis resp df \<beta>' \<le> ssr names basis resp df \<beta>''" for \<beta>'
  proof -
    from full_rank_minimisers_agree [OF fr m m'] have "\<forall>n\<in>set names. \<beta> n = \<beta>' n" .
    then have "map (\<lambda>n. (\<beta> n)\<^sup>2) names = map (\<lambda>n. (\<beta>' n)\<^sup>2) names" by simp
    then have "sqnorm names \<beta> = sqnorm names \<beta>'" unfolding sqnorm_def by (rule arg_cong)
    then show ?thesis by simp
  qed
  with p m show ?thesis unfolding pinv_fit_def by blast
qed

lemma pinv_fit_ols_fit: "pinv_fit names basis resp df p \<Longrightarrow> ols_fit names basis resp df p"
  unfolding pinv_fit_def ols_fit_def by blast

lemma fittedvalue_rescale:
  assumes b: "\<forall>n r. w n * basis n (f r) = s * basis n r"
  shows "fittedvalue names basis (\<lambda>n. w n * \<gamma> n) (f r) = s * fittedvalue names basis \<gamma> r"
proof -
  have "(\<lambda>n. w n * \<gamma> n * basis n (f r)) = (\<lambda>n. s * (\<gamma> n * basis n r))"
  proof
    fix n
    have "w n * \<gamma> n * basis n (f r) = \<gamma> n * (w n * basis n (f r))" by simp
    also have "\<dots> = s * (\<gamma> n * basis n r)" using b by simp
    finally show "w n * \<gamma> n * basis n (f r) = s * (\<gamma> n * basis n r)" .
  qed
  then show ?thesis
    unfolding fittedvalue_def by (simp add: sum_list_const_mult)
qed

lemma ssr_rescale:
  assumes b: "\<forall>n r. w n * basis n (f r) = s * basis n r"
    and y: "\<forall>r. resp (f r) = s * resp r"
  shows "ssr names basis resp (map f df) (\<lambda>n. w n * \<gamma> n) = s\<^sup>2 * ssr names basis resp df \<gamma>"
proof -
  have "(resp (f r) - fittedvalue names basis (\<lambda>n. w n * \<gamma> n) (f r))\<^sup>2
          = s\<^sup>2 * (resp r - fittedvalue names basis \<gamma> r)\<^sup>2" for r
    unfolding fittedvalue_rescale [OF b] using y
    by (simp add: power2_eq_square algebra_simps)
  then show ?thesis
    unfolding ssr_def by (simp add: o_def sum_list_const_mult)
qed

lemma ols_fit_rescale:
  assumes fit: "ols_fit names basis resp df p"
    and w: "\<forall>n. w n \<noteq> 0"
    and b: "\<forall>n r. w n * basis n (f r) = s * basis n r"
    and y: "\<forall>r. resp (f r) = s * resp r"
  shows "ols_fit names basis resp (map f df) (\<lambda>n. map_option ((*) (w n)) (p n))"
proof -
  from fit obtain \<beta> where p: "p = params_of names \<beta>"
    and least: "\<forall>\<beta>'. ssr names basis resp df \<beta> \<le> ssr names basis resp df \<beta>'"
    unfolding ols_fit_def by blast
  have params: "(\<lambda>n. map_option ((*) (w n)) (p n)) = params_of names (\<lambda>n. w n * \<beta> n)"
    by (rule ext) (simp add: p params_of_def)
  have "ssr names basis resp (map f df) (\<lambda>n. w n * \<beta> n) \<le> ssr names basis resp (map f df) \<beta>'"
    for \<beta>'
  proof -
    define \<gamma> where "\<gamma> = (\<lambda>n. \<beta>' n / w n)"
    have \<beta>': "\<beta>' = (\<lambda>n. w n * \<gamma> n)"
      by (rule ext) (use w in \<open>simp add: \<gamma>_def\<close>)
    have "s\<^sup>2 * ssr names basis resp df \<beta> \<le> s\<^sup>2 * ssr names basis resp df \<gamma>"
      using least by (intro mult_left_mono) simp_all
    then show ?thesis
      unfolding \<beta>' ssr_rescale [OF b y] .
  qed
  with params show ?thesis unfolding ols_fit_def by blast
qed

lemma levels_scale_obs: "levels (map (scale_obs s) df) = levels df"
  by (simp add: levels_def scale_obs_def o_def)

lemma linear_basis_scale_obs: "linear_basis n (scale_obs s r) = linear_basis n r"
  by (cases n) (simp_all add: scale_obs_def)

lemma eta_scale_obs: "eta (scale_obs s r) = s * eta r" and nu_scale_obs: "nu (scale_obs s r) = s * nu r"
  by (simp_all add: scale_obs_def)

lemma quadratic_basis_scale:
  assumes "s \<noteq> 0"
  shows "qweight s n * quadratic_basis n (scale_grow s r) = s * quadratic_basis n r"
  using assms by (cases n) (simp_all add: qweight_def scale_grow_def power2_eq_square)

lemma qweight_nonzero: "s \<noteq> 0 \<Longrightarrow> qweight s n \<noteq> 0"
  by (cases n) (simp_all add: qweight_def)

lemma cd_term_scale:
  assumes "cd_term p base tname i = Inr (Some a)"
  shows "cd_term (scale_params s p) base tname i = Inr (Some (s * a))"
  using assms
  by (cases "p base"; cases "p (tname i)")
     (auto simp: cd_term_def scale_params_def py_add_def bind_err_def algebra_simps
           split: if_splits)

lemma matvec_inverse_scale:
  fixes a b c d s :: real
  assumes D: "a * d - b * c \<noteq> 0" and s: "s \<noteq> 0"
  shows "s * a * (s * d) - s * b * (s * c) \<noteq> 0"
    and "matvec (s * d / (s * a * (s * d) - s * b * (s * c)),
                 - (s * b) / (s * a * (s * d) - s * b * (s * c)),
                 - (s * c) / (s * a * (s * d) - s * b * (s * c)),
                 s * a / (s * a * (s * d) - s * b * (s * c))) (- (s * o1), - (s * o2))
         = matvec (d / (a * d - b * c), - b / (a * d - b * c),
                   - c / (a * d - b * c), a / (a * d - b * c)) (- o1, - o2)"
proof -
  have eq: "s * a * (s * d) - s * b * (s * c) = s * s * (a * d - b * c)"
    by (simp add: algebra_simps)
  show "s * a * (s * d) - s * b * (s * c) \<noteq> 0"
    unfolding eq using D s by simp
  have q: "s * u / (s * s * (a * d - b * c)) * (s * v) = u / (a * d - b * c) * v" for u v
    using s D by simp
  show "matvec (s * d / (s * a * (s * d) - s * b * (s * c)),
                 - (s * b) / (s * a * (s * d) - s * b * (s * c)),
                 - (s * c) / (s * a * (s * d) - s * b * (s * c)),
                 s * a / (s * a * (s * d) - s * b * (s * c))) (- (s * o1), - (s * o2))
         = matvec (d / (a * d - b * c), - b / (a * d - b * c),
                   - c / (a * d - b * c), a / (a * d - b * c)) (- o1, - o2)"
    unfolding eq matvec_def using q [of d o1] q [of b o2] q [of c o1] q [of a o2]
    by simp
qed

lemma rcmeta_entry_scale:
  assumes s: "s \<noteq> 0" and e: "rcmeta_entry xp yp i = Inr m"
  shows "rcmeta_entry (scale_params s xp) (scale_params s yp) i = Inr (scale_affine s m)"
proof -
  from e obtain a b c d n o1 o2 where
    t: "cd_term xp X_image C_rcid_T_x_image i = Inr (Some a)"
       "cd_term xp Y_image C_rcid_T_y_image i = Inr (Some b)"
       "cd_term yp X_image C_rcid_T_x_image i = Inr (Some c)"
       "cd_term yp Y_image C_rcid_T_y_image i = Inr (Some d)" and
    inv: "matrix_inv (a, b, c, d) = Inr n" and
    o: "xp (C_rcid i) = Some o1" "yp (C_rcid i) = Some o2" and
    m: "m = \<lparr>cd11 = a, cd12 = b, cd21 = c, cd22 = d,
             crpix1 = fst (matvec n (- o1, - o2)), crpix2 = snd (matvec n (- o1, - o2))\<rparr>"
    unfolding rcmeta_entry_Inr by blast
  from inv have D: "a * d - b * c \<noteq> 0"
    and n: "n = (d / (a * d - b * c), - b / (a * d - b * c),
                 - c / (a * d - b * c), a / (a * d - b * c))"
    unfolding matrix_inv_Inr by simp_all
  note sc = matvec_inverse_scale [OF D s]
  define n' where "n' = (s * d / (s * a * (s * d) - s * b * (s * c)),
                 - (s * b) / (s * a * (s * d) - s * b * (s * c)),
                 - (s * c) / (s * a * (s * d) - s * b * (s * c)),
                 s * a / (s * a * (s * d) - s * b * (s * c)))"
  have inv': "matrix_inv (s * a, s * b, s * c, s * d) = Inr n'"
    unfolding matrix_inv_Inr n'_def using sc(1) by simp
  have o': "scale_params s xp (C_rcid i) = Some (s * o1)"
           "scale_params s yp (C_rcid i) = Some (s * o2)"
    using o by (simp_all add: scale_params_def)
  have mv: "matvec n' (- (s * o1), - (s * o2)) = matvec n (- o1, - o2)"
    unfolding n'_def n by (rule sc(2))
  have m': "scale_affine s m = \<lparr>cd11 = s * a, cd12 = s * b, cd21 = s * c, cd22 = s * d,
             crpix1 = fst (matvec n' (- (s * o1), - (s * o2))),
             crpix2 = snd (matvec n' (- (s * o1), - (s * o2)))\<rparr>"
    unfolding mv by (simp add: m scale_affine_def)
  show ?thesis
    unfolding rcmeta_entry_Inr
    using cd_term_scale [OF t(1), of s] cd_term_scale [OF t(2), of s]
      cd_term_scale [OF t(3), of s] cd_term_scale [OF t(4), of s] inv' o' m'
    by blast
qed

lemma rcmeta_scale:
  assumes s: "s \<noteq> 0" and t: "rcmeta xp yp = Inr t"
  shows "rcmeta (scale_params s xp) (scale_params s yp) = Inr (scale_table s t)"
proof -
  let ?xp = "scale_params s xp" and ?yp = "scale_params s yp"
  from t have run: "rcmeta_loop xp yp [0..63] Map.empty = Inr t" by (simp add: rcmeta_def)
  from rcmeta_loop_Inr [OF run]
  have ok: "\<forall>i\<in>set [0..63]. \<exists>a. rcmeta_entry xp yp i = Inr a" by blast
  have "\<forall>i\<in>set [0..63]. \<exists>a. rcmeta_entry ?xp ?yp i = Inr a"
  proof
    fix i :: int assume "i \<in> set [0..63]"
    with ok obtain a where "rcmeta_entry xp yp i = Inr a" by blast
    from rcmeta_entry_scale [OF s this] show "\<exists>a. rcmeta_entry ?xp ?yp i = Inr a" by blast
  qed
  from rcmeta_loop_total [OF this] obtain t' where t': "rcmeta ?xp ?yp = Inr t'"
    unfolding rcmeta_def by blast
  have "t' i = scale_table s t i" for i
  proof (cases "0 \<le> i \<and> i \<le> 63")
    case True
    then have "i \<in> set [0..63]" by simp
    with ok obtain a where a: "rcmeta_entry xp yp i = Inr a" by blast
    from True a rcmeta_Inr(2) [OF t, of i a] have ti: "t i = Some a" by simp
    from True rcmeta_entry_scale [OF s a] rcmeta_Inr(2) [OF t', of i "scale_affine s a"]
    have "t' i = Some (scale_affine s a)" by simp
    with ti show ?thesis by (simp add: scale_table_def)
  next
    case False
    with rcmeta_Inr(1) [OF t] rcmeta_Inr(1) [OF t'] have "i \<notin> dom t" "i \<notin> dom t'" by auto
    then show ?thesis by (auto simp: scale_table_def)
  qed
  then have "t' = scale_table s t" by blast
  with t' show ?thesis by simp
qed

lemma row_scale:
  "row_update (scale_affine s a) (init_global (scale_obs s r))
     = scale_grow s (row_update a (init_global r))"
  "init_global (scale_obs s r) = scale_grow s (init_global r)"
  by (simp_all add: row_update_def scale_affine_def init_global_def scale_obs_def scale_grow_def
      algebra_simps)

lemma assemble_scale:
  assumes g: "assemble t df = Inr gdf"
  shows "assemble (scale_table s t) (map (scale_obs s) df) = Inr (map (scale_grow s) gdf)"
proof -
  have d: "distinct [0..63::int]" by simp
  from g have run: "assemble_loop t [0..63] (map init_global df) = Inr gdf"
    by (simp add: assemble_def)
  from assemble_loop_rows [OF d run]
  have gdf: "gdf = map (\<lambda>r. if rcid r \<in> set [0..63] then row_update (the (t (rcid r))) r else r)
                    (map init_global df)"
    and some: "\<forall>i\<in>set [0..63]. t i \<noteq> None" by simp_all
  from some have "\<forall>i\<in>{0..63}. scale_table s t i \<noteq> None"
    by (simp add: scale_table_def)
  from assemble_total [OF this] obtain gdf' where
    g': "assemble (scale_table s t) (map (scale_obs s) df) = Inr gdf'" by blast
  then have run': "assemble_loop (scale_table s t) [0..63]
                     (map init_global (map (scale_obs s) df)) = Inr gdf'"
    by (simp add: assemble_def)
  from assemble_loop_rows [OF d run']
  have gdf': "gdf' = map (\<lambda>r. if rcid r \<in> set [0..63]
                               then row_update (the (scale_table s t (rcid r))) r else r)
                    (map init_global (map (scale_obs s) df))" by simp
  have row: "(if rcid (init_global (scale_obs s r)) \<in> set [0..63]
              then row_update (the (scale_table s t (rcid (init_global (scale_obs s r)))))
                      (init_global (scale_obs s r))
              else init_global (scale_obs s r))
           = scale_grow s (if rcid (init_global r) \<in> set [0..63]
                           then row_update (the (t (rcid (init_global r)))) (init_global r)
                           else init_global r)" for r
  proof (cases "rcid r \<in> set [0..63]")
    case True
    with some obtain a where a: "t (rcid r) = Some a" by blast
    have id: "rcid (init_global (scale_obs s r)) = rcid r" "rcid (init_global r) = rcid r"
      by (simp_all add: init_global_def scale_obs_def)
    show ?thesis
      unfolding id using True by (simp only: if_True scale_table_def a option.map option.sel row_scale(1))
  next
    case False
    have id: "rcid (init_global (scale_obs s r)) = rcid r" "rcid (init_global r) = rcid r"
      by (simp_all add: init_global_def scale_obs_def)
    show ?thesis
      unfolding id using False by (simp only: if_False row_scale(2))
  qed
  have "gdf' = map (scale_grow s) gdf"
    unfolding gdf gdf' by (simp only: map_map o_def row)
  with g' show ?thesis by simp
qed

lemma pv_start_scale:
  assumes s: "s \<noteq> 0" and pv: "pv_start qxp qyp = Inr pv"
  shows "pv_start (scale_qparams s qxp) (scale_qparams s qyp) = Inr (scale_pv s pv)"
proof -
  from float_items_Inr [OF pv [unfolded pv_start_def]]
  have some: "qxp Etalin \<noteq> None" "qxp Nulin \<noteq> None" "qxp Power_etalin_2 \<noteq> None"
    "qxp Etalin_nulin \<noteq> None" "qxp Power_nulin_2 \<noteq> None"
    "qyp Etalin \<noteq> None" "qyp Nulin \<noteq> None" "qyp Power_etalin_2 \<noteq> None"
    "qyp Etalin_nulin \<noteq> None" "qyp Power_nulin_2 \<noteq> None"
    by simp_all
  then obtain x1 x2 x4 x5 x6 y1 y2 y4 y5 y6 where
    v: "qxp Etalin = Some x1" "qxp Nulin = Some x2" "qxp Power_etalin_2 = Some x4"
    "qxp Etalin_nulin = Some x5" "qxp Power_nulin_2 = Some x6"
    "qyp Nulin = Some y1" "qyp Etalin = Some y2" "qyp Power_nulin_2 = Some y4"
    "qyp Etalin_nulin = Some y5" "qyp Power_etalin_2 = Some y6"
    by auto
  from pv_start_Inr [OF pv] have pv': "pv =
      [(''PV1_1'', x1), (''PV1_2'', x2), (''PV1_4'', x4), (''PV1_5'', x5), (''PV1_6'', x6),
       (''PV2_1'', y1), (''PV2_2'', y2), (''PV2_4'', y4), (''PV2_5'', y5), (''PV2_6'', y6)]"
    by (simp add: v)
  show ?thesis
    unfolding pv' using s
    by (simp add: pv_start_def scale_qparams_def v qweight_def py_float_def bind_err_def
        scale_pv_def)
qed


lemma sqnorm_scale: "sqnorm names (\<lambda>n. c * \<beta> n) = c\<^sup>2 * sqnorm names \<beta>"
proof -
  have "(\<Sum>n\<leftarrow>names. (c * \<beta> n)\<^sup>2) = (\<Sum>n\<leftarrow>names. c\<^sup>2 * (\<beta> n)\<^sup>2)"
    by (simp add: power_mult_distrib)
  then show ?thesis
    unfolding sqnorm_def by (simp add: sum_list_const_mult)
qed

lemma minimiser_rescale:
  assumes s: "s \<noteq> 0" and w: "\<forall>n. w n \<noteq> 0"
    and b: "\<forall>n r. w n * basis n (f r) = s * basis n r"
    and y: "\<forall>r. resp (f r) = s * resp r"
  shows "(\<forall>\<beta>'. ssr names basis resp (map f df) (\<lambda>n. w n * \<gamma> n) \<le> ssr names basis resp (map f df) \<beta>')
         \<longleftrightarrow> (\<forall>\<beta>'. ssr names basis resp df \<gamma> \<le> ssr names basis resp df \<beta>')"
proof
  assume least: "\<forall>\<beta>'. ssr names basis resp (map f df) (\<lambda>n. w n * \<gamma> n)
                      \<le> ssr names basis resp (map f df) \<beta>'"
  show "\<forall>\<beta>'. ssr names basis resp df \<gamma> \<le> ssr names basis resp df \<beta>'"
  proof
    fix \<beta>'
    from least have "ssr names basis resp (map f df) (\<lambda>n. w n * \<gamma> n)
                       \<le> ssr names basis resp (map f df) (\<lambda>n. w n * \<beta>' n)" by blast
    then have "s\<^sup>2 * ssr names basis resp df \<gamma> \<le> s\<^sup>2 * ssr names basis resp df \<beta>'"
      unfolding ssr_rescale [OF b y] .
    moreover from s have "0 < s\<^sup>2" by simp
    ultimately show "ssr names basis resp df \<gamma> \<le> ssr names basis resp df \<beta>'"
      by (simp only: mult_le_cancel_left_pos)
  qed
next
  assume least: "\<forall>\<beta>'. ssr names basis resp df \<gamma> \<le> ssr names basis resp df \<beta>'"
  show "\<forall>\<beta>'. ssr names basis resp (map f df) (\<lambda>n. w n * \<gamma> n) \<le> ssr names basis resp (map f df) \<beta>'"
  proof
    fix \<beta>'
    define \<delta> where "\<delta> = (\<lambda>n. \<beta>' n / w n)"
    have \<beta>': "\<beta>' = (\<lambda>n. w n * \<delta> n)"
      by (rule ext) (use w in \<open>simp add: \<delta>_def\<close>)
    have "s\<^sup>2 * ssr names basis resp df \<gamma> \<le> s\<^sup>2 * ssr names basis resp df \<delta>"
      using least by (intro mult_left_mono) simp_all
    then show "ssr names basis resp (map f df) (\<lambda>n. w n * \<gamma> n) \<le> ssr names basis resp (map f df) \<beta>'"
      unfolding \<beta>' ssr_rescale [OF b y] .
  qed
qed

lemma pinv_fit_rescale_const:
  assumes fit: "pinv_fit names basis resp df p"
    and s: "s \<noteq> 0"
    and b: "\<forall>n r. basis n (f r) = basis n r"
    and y: "\<forall>r. resp (f r) = s * resp r"
  shows "pinv_fit names basis resp (map f df) (scale_params s p)"
proof -
  from fit obtain \<beta> where p: "p = params_of names \<beta>"
    and least: "\<forall>\<beta>'. ssr names basis resp df \<beta> \<le> ssr names basis resp df \<beta>'"
    and norm: "\<forall>\<beta>'. (\<forall>\<beta>''. ssr names basis resp df \<beta>' \<le> ssr names basis resp df \<beta>'')
                  \<longrightarrow> sqnorm names \<beta> \<le> sqnorm names \<beta>'"
    unfolding pinv_fit_def by blast
  have resc: "(\<forall>\<beta>'. ssr names basis resp (map f df) (\<lambda>n. s * \<gamma> n)
                    \<le> ssr names basis resp (map f df) \<beta>')
              \<longleftrightarrow> (\<forall>\<beta>'. ssr names basis resp df \<gamma> \<le> ssr names basis resp df \<beta>')" for \<gamma>
    using minimiser_rescale [where w = "\<lambda>n. s" and s = s and basis = basis and f = f
        and resp = resp and names = names and df = df and \<gamma> = \<gamma>] s b y
    by simp
  have params: "scale_params s p = params_of names (\<lambda>n. s * \<beta> n)"
    by (rule ext) (simp add: p params_of_def scale_params_def)
  have least': "\<forall>\<beta>'. ssr names basis resp (map f df) (\<lambda>n. s * \<beta> n)
                      \<le> ssr names basis resp (map f df) \<beta>'"
    using resc [of \<beta>] least by simp
  have norm': "sqnorm names (\<lambda>n. s * \<beta> n) \<le> sqnorm names \<beta>'"
    if m: "\<forall>\<beta>''. ssr names basis resp (map f df) \<beta>' \<le> ssr names basis resp (map f df) \<beta>''"
    for \<beta>'
  proof -
    define \<delta> where "\<delta> = (\<lambda>n. \<beta>' n / s)"
    have \<beta>': "\<beta>' = (\<lambda>n. s * \<delta> n)"
      by (rule ext) (use s in \<open>simp add: \<delta>_def\<close>)
    from m resc [of \<delta>] have "\<forall>\<beta>''. ssr names basis resp df \<delta> \<le> ssr names basis resp df \<beta>''"
      unfolding \<beta>' by simp
    with norm have "sqnorm names \<beta> \<le> sqnorm names \<delta>" by blast
    then have "s\<^sup>2 * sqnorm names \<beta> \<le> s\<^sup>2 * sqnorm names \<delta>"
      by (intro mult_left_mono) simp_all
    then show ?thesis
      unfolding \<beta>' sqnorm_scale .
  qed
  from params least' norm' show ?thesis
    unfolding pinv_fit_def by blast
qed

lemma full_rank_rescale:
  assumes fr: "full_rank names basis df"
    and s: "s \<noteq> 0" and w: "\<forall>n. w n \<noteq> 0"
    and b: "\<forall>n r. w n * basis n (f r) = s * basis n r"
  shows "full_rank names basis (map f df)"
  unfolding full_rank_def
proof (intro allI impI)
  fix \<gamma>
  assume zero: "\<forall>r\<in>set (map f df). fittedvalue names basis \<gamma> r = 0"
  define \<delta> where "\<delta> = (\<lambda>n. \<gamma> n / w n)"
  have \<gamma>: "\<gamma> = (\<lambda>n. w n * \<delta> n)"
    by (rule ext) (use w in \<open>simp add: \<delta>_def\<close>)
  have "\<forall>r\<in>set df. fittedvalue names basis \<delta> r = 0"
  proof
    fix r assume "r \<in> set df"
    with zero have "fittedvalue names basis (\<lambda>n. w n * \<delta> n) (f r) = 0"
      unfolding \<gamma> by simp
    then have "s * fittedvalue names basis \<delta> r = 0"
      unfolding fittedvalue_rescale [OF b] .
    with s show "fittedvalue names basis \<delta> r = 0" by simp
  qed
  with fr have "\<forall>n\<in>set names. \<delta> n = 0"
    unfolding full_rank_def by blast
  then show "\<forall>n\<in>set names. \<gamma> n = 0"
    unfolding \<gamma> by simp
qed

lemma pinv_fit_rescale_full_rank:
  assumes fr: "full_rank names basis df"
    and fit: "pinv_fit names basis resp df p"
    and s: "s \<noteq> 0" and w: "\<forall>n. w n \<noteq> 0"
    and b: "\<forall>n r. w n * basis n (f r) = s * basis n r"
    and y: "\<forall>r. resp (f r) = s * resp r"
  shows "pinv_fit names basis resp (map f df) (\<lambda>n. map_option ((*) (w n)) (p n))"
  by (rule full_rank_pinv_fit [OF full_rank_rescale [OF fr s w b]
        ols_fit_rescale [OF pinv_fit_ols_fit [OF fit] w b y]])

lemma linear_fitter_scale:
  assumes s: "s \<noteq> 0" and run: "linear_fitter df t"
  shows "linear_fitter (map (scale_obs s) df) (scale_table s t)"
proof -
  from run obtain xp yp where
    fx: "pinv_fit (linear_columns (levels df)) linear_basis eta df xp" and
    fy: "pinv_fit (linear_columns (levels df)) linear_basis nu df yp" and
    t: "rcmeta xp yp = Inr t"
    unfolding linear_fitter_def by blast
  have b: "\<forall>n r. linear_basis n (scale_obs s r) = linear_basis n r"
    by (simp add: linear_basis_scale_obs)
  have ye: "\<forall>r. eta (scale_obs s r) = s * eta r" by (simp add: eta_scale_obs)
  have yn: "\<forall>r. nu (scale_obs s r) = s * nu r" by (simp add: nu_scale_obs)
  from pinv_fit_rescale_const [OF fx s b ye] pinv_fit_rescale_const [OF fy s b yn]
    rcmeta_scale [OF s t]
  show ?thesis
    unfolding linear_fitter_def levels_scale_obs by blast
qed

lemma linear_fitter_functional:
  assumes "linear_fitter df t" and "linear_fitter df t'"
  shows "t' = t"
proof -
  from assms(1) obtain xp yp where
    fx: "pinv_fit (linear_columns (levels df)) linear_basis eta df xp" and
    fy: "pinv_fit (linear_columns (levels df)) linear_basis nu df yp" and
    t: "rcmeta xp yp = Inr t"
    unfolding linear_fitter_def by blast
  from assms(2) obtain xp' yp' where
    fx': "pinv_fit (linear_columns (levels df)) linear_basis eta df xp'" and
    fy': "pinv_fit (linear_columns (levels df)) linear_basis nu df yp'" and
    t': "rcmeta xp' yp' = Inr t'"
    unfolding linear_fitter_def by blast
  from pinv_fit_unique [OF fx fx'] pinv_fit_unique [OF fy fy'] t t'
  show ?thesis by simp
qed

lemma pipeline_scale:
  assumes s: "s \<noteq> 0" and run: "pipeline df (t, pv)" and fr: "distortion_full_rank df t"
  shows "pipeline (map (scale_obs s) df) (scale_table s t, scale_pv s pv)"
proof -
  from run obtain gdf qxp qyp where
    lf: "linear_fitter df t" and g: "assemble t df = Inr gdf" and
    qx: "pinv_fit quadratic_columns quadratic_basis eta gdf qxp" and
    qy: "pinv_fit quadratic_columns quadratic_basis nu gdf qyp" and
    pv: "pv_start qxp qyp = Inr pv"
    unfolding pipeline_def by auto
  from fr g have rank: "full_rank quadratic_columns quadratic_basis gdf"
    unfolding distortion_full_rank_def by auto
  have w: "\<forall>n. qweight s n \<noteq> 0" using s by (simp add: qweight_nonzero)
  have b: "\<forall>n r. qweight s n * quadratic_basis n (scale_grow s r) = s * quadratic_basis n r"
    using s by (simp add: quadratic_basis_scale)
  have ye: "\<forall>r. eta (scale_grow s r) = s * eta r" by (simp add: scale_grow_def)
  have yn: "\<forall>r. nu (scale_grow s r) = s * nu r" by (simp add: scale_grow_def)
  have qx': "pinv_fit quadratic_columns quadratic_basis eta (map (scale_grow s) gdf)
               (scale_qparams s qxp)"
    unfolding scale_qparams_def by (rule pinv_fit_rescale_full_rank [OF rank qx s w b ye])
  have qy': "pinv_fit quadratic_columns quadratic_basis nu (map (scale_grow s) gdf)
               (scale_qparams s qyp)"
    unfolding scale_qparams_def by (rule pinv_fit_rescale_full_rank [OF rank qy s w b yn])
  from linear_fitter_scale [OF s lf] assemble_scale [OF g, of s] qx' qy' pv_start_scale [OF s pv]
  show ?thesis
    unfolding pipeline_def by blast
qed

lemma pipeline_functional:
  assumes "pipeline df out" and "pipeline df out'"
  shows "out' = out"
proof -
  from assms(1) obtain t gdf qxp qyp pv where
    lf: "linear_fitter df t" and g: "assemble t df = Inr gdf" and
    qx: "pinv_fit quadratic_columns quadratic_basis eta gdf qxp" and
    qy: "pinv_fit quadratic_columns quadratic_basis nu gdf qyp" and
    pv: "pv_start qxp qyp = Inr pv" and out: "out = (t, pv)"
    unfolding pipeline_def by blast
  from assms(2) obtain t' gdf' qxp' qyp' pv' where
    lf': "linear_fitter df t'" and g': "assemble t' df = Inr gdf'" and
    qx': "pinv_fit quadratic_columns quadratic_basis eta gdf' qxp'" and
    qy': "pinv_fit quadratic_columns quadratic_basis nu gdf' qyp'" and
    pv': "pv_start qxp' qyp' = Inr pv'" and out': "out' = (t', pv')"
    unfolding pipeline_def by blast
  from linear_fitter_functional [OF lf lf'] have t: "t' = t" .
  with g g' have gdf: "gdf' = gdf" by simp
  from pinv_fit_unique [OF qx qx' [unfolded gdf]] pinv_fit_unique [OF qy qy' [unfolded gdf]]
    pv pv' have "pv' = pv" by simp
  with t out out' show ?thesis by simp
qed

lemma linear_full_rank:
  assumes nonneg: "\<forall>r\<in>set df. 0 \<le> rcid r" and zero: "0 \<in> rcid ` set df"
    and three: "\<forall>i\<in>set (levels df). three_noncollinear df i"
  shows "full_rank (linear_columns (levels df)) linear_basis df"
  unfolding full_rank_def
proof (intro allI impI ballI)
  fix \<gamma> n
  let ?lv = "levels df"
  assume fit0: "\<forall>r\<in>set df. fittedvalue (linear_columns ?lv) linear_basis \<gamma> r = 0"
    and n: "n \<in> set (linear_columns ?lv)"
  have resp: "\<forall>r\<in>set df. (\<lambda>r. 0::real) r
                = (\<lambda>l. 0) (rcid r) + (\<lambda>l. 0) (rcid r) * x_image r + (\<lambda>l. 0) (rcid r) * y_image r"
    by simp
  have fit: "ols_fit (linear_columns ?lv) linear_basis (\<lambda>r. 0) df
               (params_of (linear_columns ?lv) \<gamma>)"
    by (rule ols_fit_exact) (use fit0 in simp)
  have lv0: "\<forall>i\<in>set ?lv. 0 \<le> i" using nonneg by (auto simp: levels_set)
  have rec: "params_of (linear_columns ?lv) \<gamma> (C_rcid i) = Some 0 \<and>
         cd_term (params_of (linear_columns ?lv) \<gamma>) X_image C_rcid_T_x_image i = Inr (Some 0) \<and>
         cd_term (params_of (linear_columns ?lv) \<gamma>) Y_image C_rcid_T_y_image i = Inr (Some 0)"
    if i: "i \<in> set ?lv" for i
    using linear_fit_recovers [OF nonneg zero resp fit, of i] three lv0 i by blast
  have z: "0 \<in> set ?lv" using zero by (simp add: levels_set)
  from rec [OF z] have x0: "\<gamma> X_image = 0" and y0: "\<gamma> Y_image = 0"
    by (simp_all add: cd_term_params)
  have tl_sub: "i \<in> set ?lv \<and> 0 < i" if "i \<in> set (tl ?lv)" for i
    using that levels_hd_zero(2) [OF nonneg zero] nonneg by (force simp: levels_set)
  show "\<gamma> n = 0"
  proof (cases n)
    case (C_rcid l)
    with n have l: "l \<in> set ?lv" by (auto simp: linear_columns_def)
    from rec [OF l] l show ?thesis by (simp add: C_rcid params_of_C)
  next
    case X_image
    with x0 show ?thesis by simp
  next
    case Y_image
    with y0 show ?thesis by simp
  next
    case (C_rcid_T_x_image l)
    with n have l: "l \<in> set (tl ?lv)" by (auto simp: linear_columns_def)
    from rec [of l] tl_sub [OF l] l x0 show ?thesis
      by (simp add: C_rcid_T_x_image cd_term_params)
  next
    case (C_rcid_T_y_image l)
    with n have l: "l \<in> set (tl ?lv)" by (auto simp: linear_columns_def)
    from rec [of l] tl_sub [OF l] l y0 show ?thesis
      by (simp add: C_rcid_T_y_image cd_term_params)
  qed
qed

text \<open>The data set with a full-rank distortion fit, stage by stage.\<close>

lemma ssr_append:
  "ssr names basis resp (xs @ ys) \<beta> = ssr names basis resp xs \<beta> + ssr names basis resp ys \<beta>"
  by (simp add: ssr_def)

lemma fr_df_rows: "r \<in> set fr_df \<longleftrightarrow> (\<exists>i\<in>{0..63}. r \<in> set (fr_stars i))"
  by (auto simp: fr_df_def)

lemma fr_stars_rcid: "r \<in> set (fr_stars i) \<Longrightarrow> rcid r = i"
  by (auto simp: fr_stars_def split: if_splits)

lemma fr_stars_sub:
  assumes "0 \<le> i" "i \<le> 63"
  shows "set (fr_stars i) \<subseteq> set fr_df"
proof
  fix r assume r: "r \<in> set (fr_stars i)"
  from assms have "i \<in> {0..63}" by simp
  with r show "r \<in> set fr_df" unfolding fr_df_rows by blast
qed

lemma fr_df_rcids: "rcid ` set fr_df = {0..63}"
proof
  show "rcid ` set fr_df \<subseteq> {0..63}"
    using fr_stars_rcid by (auto simp: fr_df_rows)
  show "{0..63} \<subseteq> rcid ` set fr_df"
  proof
    fix i :: int assume i: "i \<in> {0..63}"
    have "\<lparr>rcid = i, x_image = 0, y_image = 0, eta = if i = 0 then 2 else 1, nu = 1\<rparr>
            \<in> set (fr_stars i)"
      by (simp add: fr_stars_def)
    with i have "\<lparr>rcid = i, x_image = 0, y_image = 0, eta = if i = 0 then 2 else 1, nu = 1\<rparr>
            \<in> set fr_df"
      unfolding fr_df_rows by blast
    then show "i \<in> rcid ` set fr_df" by force
  qed
qed

lemma levels_fr_df: "levels fr_df = [0..63]"
proof (rule sorted_distinct_set_unique)
  show "set (levels fr_df) = set [0..63]"
    by (simp add: levels_set fr_df_rcids)
qed (simp_all add: levels_sorted levels_distinct)

lemma fr_nonneg: "\<forall>r\<in>set fr_df. 0 \<le> rcid r"
  using fr_df_rcids by auto

lemma fr_zero: "0 \<in> rcid ` set fr_df"
  by (simp add: fr_df_rcids)

lemma fr_three: "\<forall>i\<in>set (levels fr_df). three_noncollinear fr_df i"
proof
  fix i :: int assume "i \<in> set (levels fr_df)"
  then have i: "i \<in> {0..63}" by (simp add: levels_fr_df)
  then have sub: "set (fr_stars i) \<subseteq> set fr_df"
    by (simp add: fr_stars_sub)
  have "three_noncollinear (fr_stars i) i"
    unfolding three_noncollinear_def fr_stars_def by simp
  with sub show "three_noncollinear fr_df i"
    unfolding three_noncollinear_def by blast
qed

lemma fr_linear_full_rank: "full_rank (linear_columns (levels fr_df)) linear_basis fr_df"
  by (rule linear_full_rank [OF fr_nonneg fr_zero fr_three])

lemma fr_df_split: "fr_df = fr_stars 0 @ concat (map fr_stars [1..63])"
  unfolding fr_df_def by (subst upto_rec1) simp_all

lemma fr_fitted:
  assumes "0 \<le> rcid r" "rcid r \<le> 63"
  shows "fittedvalue (linear_columns [0..63]) linear_basis \<beta> r =
     \<beta> (C_rcid (rcid r))
     + (\<beta> X_image + (if rcid r = 0 then 0 else \<beta> (C_rcid_T_x_image (rcid r)))) * x_image r
     + (\<beta> Y_image + (if rcid r = 0 then 0 else \<beta> (C_rcid_T_y_image (rcid r)))) * y_image r"
proof -
  have d: "distinct [0..63::int]" by simp
  show ?thesis
    unfolding fitted_linear [OF d] tl_upto_0_63 using assms by auto
qed

lemma fr_rest_exact:
  assumes "r \<in> set (concat (map fr_stars [1..63]))"
  shows "fittedvalue (linear_columns [0..63]) linear_basis fr_beta_x r = eta r"
    and "fittedvalue (linear_columns [0..63]) linear_basis fr_beta_y r = nu r"
proof -
  from assms obtain i where i: "1 \<le> i" "i \<le> 63" and r: "r \<in> set (fr_stars i)" by auto
  from r have id: "rcid r = i" by (rule fr_stars_rcid)
  from i id have b: "0 \<le> rcid r" "rcid r \<le> 63" by simp_all
  from r i show "fittedvalue (linear_columns [0..63]) linear_basis fr_beta_x r = eta r"
    unfolding fr_fitted [OF b]
    by (auto simp: fr_stars_def fr_beta_x_def known_beta_def)
  from r i show "fittedvalue (linear_columns [0..63]) linear_basis fr_beta_y r = nu r"
    unfolding fr_fitted [OF b]
    by (auto simp: fr_stars_def fr_beta_y_def known_beta_def)
qed

lemma fr_ssr_first:
  "ssr (linear_columns [0..63]) linear_basis eta (fr_stars 0) \<beta> =
     16 + (\<beta> (C_rcid 0))\<^sup>2 + (\<beta> (C_rcid 0) + 2 * \<beta> X_image - 2)\<^sup>2
        + (\<beta> (C_rcid 0) + 2 * \<beta> Y_image)\<^sup>2
        + (\<beta> (C_rcid 0) + 2 * \<beta> X_image + 2 * \<beta> Y_image - 2)\<^sup>2"
  "ssr (linear_columns [0..63]) linear_basis nu (fr_stars 0) \<beta> =
     4 + (\<beta> (C_rcid 0))\<^sup>2 + (\<beta> (C_rcid 0) + 2 * \<beta> X_image)\<^sup>2
        + (\<beta> (C_rcid 0) + 2 * \<beta> Y_image - 2)\<^sup>2
        + (\<beta> (C_rcid 0) + 2 * \<beta> X_image + 2 * \<beta> Y_image - 2)\<^sup>2"
  by (simp_all add: ssr_def fr_stars_def fr_fitted power2_eq_square algebra_simps)

lemma fr_linear_ols:
  "ols_fit (linear_columns (levels fr_df)) linear_basis eta fr_df fr_xp"
  "ols_fit (linear_columns (levels fr_df)) linear_basis nu fr_df fr_yp"
proof -
  let ?names = "linear_columns [0..63]"
  let ?rest = "concat (map fr_stars [1..63])"
  have rest_x: "ssr ?names linear_basis eta ?rest fr_beta_x = 0"
    unfolding ssr_zero_iff using fr_rest_exact(1) by blast
  have rest_y: "ssr ?names linear_basis nu ?rest fr_beta_y = 0"
    unfolding ssr_zero_iff using fr_rest_exact(2) by blast
  have first_x: "ssr ?names linear_basis eta (fr_stars 0) fr_beta_x = 16"
    unfolding fr_ssr_first by (simp add: fr_beta_x_def known_beta_def)
  have first_y: "ssr ?names linear_basis nu (fr_stars 0) fr_beta_y = 4"
    unfolding fr_ssr_first by (simp add: fr_beta_y_def known_beta_def)
  have "ssr ?names linear_basis eta fr_df fr_beta_x \<le> ssr ?names linear_basis eta fr_df \<beta>'" for \<beta>'
  proof -
    have "16 \<le> ssr ?names linear_basis eta (fr_stars 0) \<beta>'"
      unfolding fr_ssr_first by simp
    moreover have "0 \<le> ssr ?names linear_basis eta ?rest \<beta>'" by (rule ssr_nonneg)
    ultimately show ?thesis
      unfolding fr_df_split ssr_append first_x rest_x by simp
  qed
  then show "ols_fit (linear_columns (levels fr_df)) linear_basis eta fr_df fr_xp"
    unfolding ols_fit_def fr_xp_def levels_fr_df by blast
  have "ssr ?names linear_basis nu fr_df fr_beta_y \<le> ssr ?names linear_basis nu fr_df \<beta>'" for \<beta>'
  proof -
    have "4 \<le> ssr ?names linear_basis nu (fr_stars 0) \<beta>'"
      unfolding fr_ssr_first by simp
    moreover have "0 \<le> ssr ?names linear_basis nu ?rest \<beta>'" by (rule ssr_nonneg)
    ultimately show ?thesis
      unfolding fr_df_split ssr_append first_y rest_y by simp
  qed
  then show "ols_fit (linear_columns (levels fr_df)) linear_basis nu fr_df fr_yp"
    unfolding ols_fit_def fr_yp_def levels_fr_df by blast
qed

lemma fr_entry:
  assumes "0 \<le> i" "i \<le> 63"
  shows "rcmeta_entry fr_xp fr_yp i = Inr (fr_affine i)"
  unfolding rcmeta_entry_Inr fr_xp_def fr_yp_def levels_fr_df cd_term_params params_of_C
    tl_upto_0_63 matrix_inv_Inr
  using assms
  by (auto simp: fr_beta_x_def fr_beta_y_def known_beta_def fr_affine_def matvec_def)

lemma fr_rcmeta: "rcmeta fr_xp fr_yp = Inr fr_table"
proof -
  have "\<forall>i\<in>set [0..63]. \<exists>a. rcmeta_entry fr_xp fr_yp i = Inr a"
    by (simp add: fr_entry)
  from rcmeta_loop_total [OF this] obtain t where t: "rcmeta fr_xp fr_yp = Inr t"
    unfolding rcmeta_def by blast
  have "t i = fr_table i" for i
  proof (cases "0 \<le> i \<and> i \<le> 63")
    case True
    with rcmeta_Inr(2) [OF t, of i "fr_affine i"] fr_entry [of i]
    show ?thesis by (simp add: fr_table_def)
  next
    case False
    with rcmeta_Inr(1) [OF t] have "i \<notin> dom t" by auto
    with False show ?thesis by (auto simp: fr_table_def)
  qed
  then have "t = fr_table" by blast
  with t show ?thesis by simp
qed

lemma fr_linear_fitter: "linear_fitter fr_df fr_table"
  unfolding linear_fitter_def
  using full_rank_pinv_fit [OF fr_linear_full_rank fr_linear_ols(1)]
    full_rank_pinv_fit [OF fr_linear_full_rank fr_linear_ols(2)] fr_rcmeta
  by blast

lemma fr_assemble: "assemble fr_table fr_df = Inr fr_gdf"
proof -
  have d: "distinct [0..63::int]" by simp
  have "\<forall>i\<in>{0..63}. fr_table i \<noteq> None" by (simp add: fr_table_def)
  from assemble_total [OF this] obtain gdf where g: "assemble fr_table fr_df = Inr gdf"
    by blast
  then have run: "assemble_loop fr_table [0..63] (map init_global fr_df) = Inr gdf"
    by (simp add: assemble_def)
  from assemble_loop_rows [OF d run]
  have gdf: "gdf = map (\<lambda>r. if rcid r \<in> set [0..63]
                             then row_update (the (fr_table (rcid r))) r else r)
                    (map init_global fr_df)" by simp
  have "gdf = fr_gdf"
    unfolding gdf fr_gdf_def map_map
  proof (rule map_cong [OF refl])
    fix r assume "r \<in> set fr_df"
    then have "rcid r \<in> {0..63}" using fr_df_rcids by blast
    then show "((\<lambda>r. if rcid r \<in> set [0..63]
                      then row_update (the (fr_table (rcid r))) r else r) \<circ> init_global) r
             = row_update (fr_affine (rcid r)) (init_global r)"
      by (simp add: init_global_def fr_table_def)
  qed
  with g show ?thesis by simp
qed

lemma fr_gdf_rows:
  assumes "r \<in> set fr_gdf"
  shows "(etalin r, nulin r, eta r, nu r) \<in>
           {(0, 0, 2, 1), (2, 0, 0, - 1), (0, 2, - 2, 1), (2, 2, 4, 3),
            (1, 1, 1, 1), (3, 1, 3, 1), (1, 3, 1, 3)}"
proof -
  from assms obtain r0 where mem: "r0 \<in> set fr_df"
    and r: "r = row_update (fr_affine (rcid r0)) (init_global r0)"
    unfolding fr_gdf_def by auto
  from mem obtain i where i: "i \<in> {0..63}" and r0: "r0 \<in> set (fr_stars i)"
    unfolding fr_df_rows by blast
  show ?thesis
  proof (cases "i = 0")
    case True
    with r0 have "r0 \<in> {\<lparr>rcid = 0, x_image = 0, y_image = 0, eta = 2, nu = 1\<rparr>,
         \<lparr>rcid = 0, x_image = 2, y_image = 0, eta = 0, nu = - 1\<rparr>,
         \<lparr>rcid = 0, x_image = 0, y_image = 2, eta = - 2, nu = 1\<rparr>,
         \<lparr>rcid = 0, x_image = 2, y_image = 2, eta = 4, nu = 3\<rparr>}"
      by (simp add: fr_stars_def)
    then show ?thesis
      unfolding r
      by (elim insertE emptyE) (simp_all add: row_update_def init_global_def fr_affine_def)
  next
    case False
    with r0 have "r0 \<in> {\<lparr>rcid = i, x_image = 0, y_image = 0, eta = 1, nu = 1\<rparr>,
         \<lparr>rcid = i, x_image = 2, y_image = 0, eta = 3, nu = 1\<rparr>,
         \<lparr>rcid = i, x_image = 0, y_image = 2, eta = 1, nu = 3\<rparr>}"
      by (simp add: fr_stars_def)
    then show ?thesis
      unfolding r using False
      by (elim insertE emptyE) (simp_all add: row_update_def init_global_def fr_affine_def)
  qed
qed

lemma fr_gdf_points:
  "\<exists>r\<in>set fr_gdf. etalin r = 0 \<and> nulin r = 0"
  "\<exists>r\<in>set fr_gdf. etalin r = 2 \<and> nulin r = 0"
  "\<exists>r\<in>set fr_gdf. etalin r = 0 \<and> nulin r = 2"
  "\<exists>r\<in>set fr_gdf. etalin r = 2 \<and> nulin r = 2"
  "\<exists>r\<in>set fr_gdf. etalin r = 1 \<and> nulin r = 1"
  "\<exists>r\<in>set fr_gdf. etalin r = 3 \<and> nulin r = 1"
proof -
  have s0: "set (fr_stars 0) \<subseteq> set fr_df" and s1: "set (fr_stars 1) \<subseteq> set fr_df"
    by (simp_all add: fr_stars_sub)
  have g: "r0 \<in> set fr_df \<Longrightarrow> row_update (fr_affine (rcid r0)) (init_global r0) \<in> set fr_gdf"
    for r0
    by (simp add: fr_gdf_def)
  have m0: "\<lparr>rcid = 0, x_image = 0, y_image = 0, eta = 2, nu = 1\<rparr> \<in> set fr_df"
    "\<lparr>rcid = 0, x_image = 2, y_image = 0, eta = 0, nu = - 1\<rparr> \<in> set fr_df"
    "\<lparr>rcid = 0, x_image = 0, y_image = 2, eta = - 2, nu = 1\<rparr> \<in> set fr_df"
    "\<lparr>rcid = 0, x_image = 2, y_image = 2, eta = 4, nu = 3\<rparr> \<in> set fr_df"
    using s0 by (auto simp: fr_stars_def)
  have m1: "\<lparr>rcid = 1, x_image = 0, y_image = 0, eta = 1, nu = 1\<rparr> \<in> set fr_df"
    "\<lparr>rcid = 1, x_image = 2, y_image = 0, eta = 3, nu = 1\<rparr> \<in> set fr_df"
    using s1 by (auto simp: fr_stars_def)
  show "\<exists>r\<in>set fr_gdf. etalin r = 0 \<and> nulin r = 0"
    by (rule bexI [OF _ g [OF m0(1)]]) (simp add: row_update_def init_global_def fr_affine_def)
  show "\<exists>r\<in>set fr_gdf. etalin r = 2 \<and> nulin r = 0"
    by (rule bexI [OF _ g [OF m0(2)]]) (simp add: row_update_def init_global_def fr_affine_def)
  show "\<exists>r\<in>set fr_gdf. etalin r = 0 \<and> nulin r = 2"
    by (rule bexI [OF _ g [OF m0(3)]]) (simp add: row_update_def init_global_def fr_affine_def)
  show "\<exists>r\<in>set fr_gdf. etalin r = 2 \<and> nulin r = 2"
    by (rule bexI [OF _ g [OF m0(4)]]) (simp add: row_update_def init_global_def fr_affine_def)
  show "\<exists>r\<in>set fr_gdf. etalin r = 1 \<and> nulin r = 1"
    by (rule bexI [OF _ g [OF m1(1)]]) (simp add: row_update_def init_global_def fr_affine_def)
  show "\<exists>r\<in>set fr_gdf. etalin r = 3 \<and> nulin r = 1"
    by (rule bexI [OF _ g [OF m1(2)]]) (simp add: row_update_def init_global_def fr_affine_def)
qed

lemma fr_quadratic_full_rank: "full_rank quadratic_columns quadratic_basis fr_gdf"
  unfolding full_rank_def
proof (intro allI impI)
  fix \<gamma>
  assume z: "\<forall>r\<in>set fr_gdf. fittedvalue quadratic_columns quadratic_basis \<gamma> r = 0"
  have eq: "\<gamma> Intercept + \<gamma> Power_etalin_2 * a\<^sup>2 + \<gamma> Power_nulin_2 * b\<^sup>2
              + \<gamma> Etalin * a + \<gamma> Nulin * b + \<gamma> Etalin_nulin * (a * b) = 0"
    if "\<exists>r\<in>set fr_gdf. etalin r = a \<and> nulin r = b" for a b
    using that z by (auto simp: fitted_quadratic)
  note e = eq [OF fr_gdf_points(1)] eq [OF fr_gdf_points(2)] eq [OF fr_gdf_points(3)]
    eq [OF fr_gdf_points(4)] eq [OF fr_gdf_points(5)] eq [OF fr_gdf_points(6)]
  from e have "\<gamma> Intercept = 0" "\<gamma> Power_etalin_2 = 0" "\<gamma> Power_nulin_2 = 0"
    "\<gamma> Etalin = 0" "\<gamma> Nulin = 0" "\<gamma> Etalin_nulin = 0"
    by simp_all
  then show "\<forall>n\<in>set quadratic_columns. \<gamma> n = 0"
    by (simp add: quadratic_columns_def)
qed

lemma fr_quadratic_fits:
  "pinv_fit quadratic_columns quadratic_basis eta fr_gdf (params_of quadratic_columns fr_qbeta_x)"
  "pinv_fit quadratic_columns quadratic_basis nu fr_gdf (params_of quadratic_columns fr_qbeta_y)"
proof -
  have x: "\<forall>r\<in>set fr_gdf. fittedvalue quadratic_columns quadratic_basis fr_qbeta_x r = eta r"
    using fr_gdf_rows by (fastforce simp: fitted_quadratic fr_qbeta_x_def)
  have y: "\<forall>r\<in>set fr_gdf. fittedvalue quadratic_columns quadratic_basis fr_qbeta_y r = nu r"
    using fr_gdf_rows by (fastforce simp: fitted_quadratic fr_qbeta_y_def)
  show "pinv_fit quadratic_columns quadratic_basis eta fr_gdf
          (params_of quadratic_columns fr_qbeta_x)"
    by (rule full_rank_pinv_fit [OF fr_quadratic_full_rank ols_fit_exact [OF x]])
  show "pinv_fit quadratic_columns quadratic_basis nu fr_gdf
          (params_of quadratic_columns fr_qbeta_y)"
    by (rule full_rank_pinv_fit [OF fr_quadratic_full_rank ols_fit_exact [OF y]])
qed

lemma fr_pv_start:
  "pv_start (params_of quadratic_columns fr_qbeta_x) (params_of quadratic_columns fr_qbeta_y)
     = Inr fr_pv"
  by (simp add: pv_start_def params_of_quadratic py_float_def bind_err_def
      fr_qbeta_x_def fr_qbeta_y_def fr_pv_def)

lemma fr_pipeline: "pipeline fr_df (fr_table, fr_pv)"
  unfolding pipeline_def
  using fr_linear_fitter fr_assemble fr_quadratic_fits fr_pv_start
  by blast

lemma fr_distortion_full_rank: "distortion_full_rank fr_df fr_table"
  unfolding distortion_full_rank_def
  using fr_assemble fr_quadratic_full_rank by blast

lemma ex_linear_fitter: "linear_fitter ex_df ex_table"
proof -
  have three: "\<forall>i\<in>set (levels ex_df). three_noncollinear ex_df i"
    using ex_three by (simp add: levels_ex_df)
  note rank = linear_full_rank [OF ex_nonneg ex_zero three]
  from full_rank_pinv_fit [OF rank ex_xres [unfolded xres_linear_def]]
    full_rank_pinv_fit [OF rank ex_yres [unfolded yres_linear_def]] ex_rcmeta
  show ?thesis
    unfolding linear_fitter_def by blast
qed

text \<open>
  Claim C2, amended.  Let the Linear Fitter (cells 30 to 41) end with the dictionary
  \<open>t\<close> on the data \<open>df\<close>, and let \<open>s\<close> be a scale that is not zero.  On the data
  with every \<open>(eta, nu)\<close> multiplied by \<open>s\<close> the Linear Fitter ends with exactly one
  dictionary, the one with \<open>cd11, cd12, cd21, cd22\<close> of every quadrant multiplied by
  \<open>s\<close> and \<open>crpix1, crpix2\<close> unchanged.  If moreover the notebook ends with the
  distortion coefficients \<open>pv\<close> on \<open>df\<close> and the design matrix of the distortion fit
  has full column rank, then on the scaled data the notebook ends with exactly one
  output: that dictionary, the coefficients \<open>PV1_1, PV1_2, PV2_1, PV2_2\<close> unchanged and
  the coefficients \<open>PV1_4, PV1_5, PV1_6, PV2_4, PV2_5, PV2_6\<close> divided by \<open>s\<close>.
\<close>

theorem scale_covariance:
  assumes "s \<noteq> 0" and "linear_fitter df t"
  shows "(\<forall>t'. linear_fitter (map (scale_obs s) df) t' \<longleftrightarrow> t' = scale_table s t) \<and>
         (\<forall>pv. pipeline df (t, pv) \<and> distortion_full_rank df t \<longrightarrow>
            (\<forall>out'. pipeline (map (scale_obs s) df) out'
                       \<longleftrightarrow> out' = (scale_table s t, scale_pv s pv)))"
proof (intro conjI allI impI)
  fix t'
  from linear_fitter_scale [OF assms]
  show "linear_fitter (map (scale_obs s) df) t' \<longleftrightarrow> t' = scale_table s t"
    using linear_fitter_functional by blast
next
  fix pv out'
  assume "pipeline df (t, pv) \<and> distortion_full_rank df t"
  then have "pipeline (map (scale_obs s) df) (scale_table s t, scale_pv s pv)"
    using pipeline_scale [OF assms(1)] by blast
  then show "pipeline (map (scale_obs s) df) out' \<longleftrightarrow> out' = (scale_table s t, scale_pv s pv)"
    using pipeline_functional by blast
qed

theorem scale_covariance_witness:
  "linear_fitter fr_df fr_table \<and>
   pipeline fr_df (fr_table, fr_pv) \<and>
   distortion_full_rank fr_df fr_table \<and>
   (\<forall>t'. linear_fitter (map (scale_obs 2) fr_df) t' \<longleftrightarrow> t' = scale_table 2 fr_table) \<and>
   (\<forall>out'. pipeline (map (scale_obs 2) fr_df) out'
              \<longleftrightarrow> out' = (scale_table 2 fr_table, scale_pv 2 fr_pv)) \<and>
   fr_table 5 = Some \<lparr>cd11 = 1, cd12 = 0, cd21 = 0, cd22 = 1, crpix1 = - 1, crpix2 = - 1\<rparr> \<and>
   scale_table 2 fr_table 5 =
     Some \<lparr>cd11 = 2, cd12 = 0, cd21 = 0, cd22 = 2, crpix1 = - 1, crpix2 = - 1\<rparr> \<and>
   fr_pv =
     [(''PV1_1'', - 1), (''PV1_2'', - 2), (''PV1_4'', 0), (''PV1_5'', 2), (''PV1_6'', 0),
      (''PV2_1'', 0), (''PV2_2'', - 1), (''PV2_4'', 0), (''PV2_5'', 1), (''PV2_6'', 0)] \<and>
   scale_pv 2 fr_pv =
     [(''PV1_1'', - 1), (''PV1_2'', - 2), (''PV1_4'', 0), (''PV1_5'', 1), (''PV1_6'', 0),
      (''PV2_1'', 0), (''PV2_2'', - 1), (''PV2_4'', 0), (''PV2_5'', 1 / 2), (''PV2_6'', 0)]"
proof -
  have two: "(2::real) \<noteq> 0" by simp
  note sc = scale_covariance [OF two fr_linear_fitter]
  from sc have a: "\<forall>t'. linear_fitter (map (scale_obs 2) fr_df) t' \<longleftrightarrow> t' = scale_table 2 fr_table"
    by blast
  from sc fr_pipeline fr_distortion_full_rank
  have b: "\<forall>out'. pipeline (map (scale_obs 2) fr_df) out'
              \<longleftrightarrow> out' = (scale_table 2 fr_table, scale_pv 2 fr_pv)"
    by blast
  have c: "fr_table 5 = Some \<lparr>cd11 = 1, cd12 = 0, cd21 = 0, cd22 = 1, crpix1 = - 1, crpix2 = - 1\<rparr>"
    "scale_table 2 fr_table 5 =
       Some \<lparr>cd11 = 2, cd12 = 0, cd21 = 0, cd22 = 2, crpix1 = - 1, crpix2 = - 1\<rparr>"
    by (simp_all add: scale_table_def fr_table_def fr_affine_def scale_affine_def)
  have d: "fr_pv =
     [(''PV1_1'', - 1), (''PV1_2'', - 2), (''PV1_4'', 0), (''PV1_5'', 2), (''PV1_6'', 0),
      (''PV2_1'', 0), (''PV2_2'', - 1), (''PV2_4'', 0), (''PV2_5'', 1), (''PV2_6'', 0)]"
    "scale_pv 2 fr_pv =
     [(''PV1_1'', - 1), (''PV1_2'', - 2), (''PV1_4'', 0), (''PV1_5'', 1), (''PV1_6'', 0),
      (''PV2_1'', 0), (''PV2_2'', - 1), (''PV2_4'', 0), (''PV2_5'', 1 / 2), (''PV2_6'', 0)]"
    by (simp_all add: fr_pv_def scale_pv_def)
  show ?thesis
    by (intro conjI fr_linear_fitter fr_pipeline fr_distortion_full_rank a b c d)
qed

text \<open>
  Claim C2 as stated fails.  On the noiseless synthetic data set the Linear Fitter ends
  with exactly one dictionary, whose matrices are \<open>((2, 1), (1, 1))\<close>; with every
  \<open>(eta, nu)\<close> multiplied by \<open>2\<close> it ends with exactly one dictionary, whose matrices
  are \<open>((4, 2), (2, 2))\<close>: \<open>cd11\<close> of quadrant \<open>0\<close> changes from \<open>2\<close> to \<open>4\<close>.
\<close>

theorem scale_changes_cd_counterexample:
  "(\<forall>t'. linear_fitter ex_df t' \<longleftrightarrow> t' = ex_table) \<and>
   (\<forall>t'. linear_fitter (map (scale_obs 2) ex_df) t' \<longleftrightarrow> t' = scale_table 2 ex_table) \<and>
   map_option cd11 (ex_table 0) = Some 2 \<and>
   map_option cd11 (scale_table 2 ex_table 0) = Some 4"
proof -
  have two: "(2::real) \<noteq> 0" by simp
  have a: "\<forall>t'. linear_fitter ex_df t' \<longleftrightarrow> t' = ex_table"
    using ex_linear_fitter linear_fitter_functional by blast
  have b: "\<forall>t'. linear_fitter (map (scale_obs 2) ex_df) t' \<longleftrightarrow> t' = scale_table 2 ex_table"
    using linear_fitter_scale [OF two ex_linear_fitter] linear_fitter_functional by blast
  have c: "map_option cd11 (ex_table 0) = Some 2"
    "map_option cd11 (scale_table 2 ex_table 0) = Some 4"
    by (simp_all add: scale_table_def ex_table_def ex_affine_def scale_affine_def)
  show ?thesis
    by (intro conjI a b c)
qed

end
